theory Spec2Isabelle
  imports Complex_Main "HOL-Library.Char_ord" "HOL-Library.List_Lexorder"
begin

section \<open>Values, exceptions and the environment of the script\<close>

text \<open>
  The repository holds two versions of one seeding script, \<^verbatim>\<open>src/db/psql_init.py\<close>
  (version 1.1.0, called variant A) and \<^verbatim>\<open>src/server/psql_init.py\<close> (version 1.0.0,
  variant B). Both define a class \<^verbatim>\<open>PostgresInitialize\<close> whose methods mutate the
  object and talk to the file system, the terminal and a PostgreSQL server. A method is
  modelled as a function from the state to the new state and either the exception it
  raised (\<open>Inl\<close>) or the value it returned (\<open>Inr\<close>). A function that is the same in
  both files has one definition; where the two differ the names end in \<open>_A\<close> and
  \<open>_B\<close>.
\<close>

datatype exn =
    FileNotFoundError string
  | BadGzipFile string
  | UnicodeDecodeError
  | ValueError string
  | TypeError string
  | AttributeError string
  | EOFError
  | OverflowError
  | OperationalError string
  | ProgrammingError string
  | IndexError
  | UndefinedTable string
  | UndefinedColumn string
  | DuplicateTable string
  | UniqueViolation string
  | DataError string

text \<open>\<^verbatim>\<open>datetime.time\<close>, \<^verbatim>\<open>datetime.timedelta\<close> and \<^verbatim>\<open>datetime.datetime\<close>; the date
  part of a datetime is kept as its proleptic Gregorian ordinal (1 for 0001-01-01).\<close>

record time =
  hour :: int
  minute :: int
  second :: int
  microsecond :: int

record timedelta =
  days :: int
  seconds :: int
  microseconds :: int

record datetime =
  ordinal :: int
  dt_hour :: int
  dt_minute :: int
  dt_second :: int
  dt_microsecond :: int

datatype pyval = PyNone | PyInt int | PyStr string | PyFloat real | PyTime time

text \<open>A file holds text, or the gzip compression of some content.\<close>

datatype content = Raw string | Gz content

text \<open>One row of \<^verbatim>\<open>us_postal_codes.csv\<close> as \<^verbatim>\<open>np.genfromtxt\<close> returns it. Variant A
  reads the two coordinates as strings (\<^verbatim>\<open>U9\<close>), variant B as floats (\<^verbatim>\<open>f8\<close>, and
  names them \<^verbatim>\<open>lat\<close> and \<^verbatim>\<open>lon\<close>).\<close>

record 'c location =
  loc_postal_code :: string
  loc_city :: string
  loc_state :: string
  loc_latitude :: 'c
  loc_longitude :: 'c

text \<open>A table of the database: whether it has the serial \<^verbatim>\<open>id\<close> column, its column
  declarations, the fields of its \<^verbatim>\<open>UNIQUE\<close> constraint, the next value of its id
  sequence and its rows (in column order, the id first).\<close>

record table =
  serial :: bool
  schema :: "string list"
  unique :: "string list"
  next_id :: nat
  rows :: "pyval list list"

type_synonym database = "string \<rightharpoonup> table"

text \<open>The state: the attributes of the \<^verbatim>\<open>PostgresInitialize\<close> object (\<open>None\<close> is
  Python's \<^verbatim>\<open>None\<close>; \<open>conn\<close> and \<open>cur\<close> say whether the attribute holds a
  connection or cursor), then the environment: the files of the working directory, the
  lines waiting on standard input, what was written to standard output, what an
  uninitialised cell of a new record array holds (by row and field), the credentials
  (database, user, password) the server accepts, the committed database, the number of commits the server has
  received, the database as the open transaction sees it, and the result set of the
  cursor's last statement. The last two fields are the server's handling of values:
  \<open>sql_cast decl v\<close> is what a column declared \<open>decl\<close> stores, and a later
  \<^verbatim>\<open>SELECT\<close> returns to Python, when the parameter \<open>v\<close> is written to it, or the
  error the statement raises; \<open>sql_equal decl c v\<close> says whether the comparison
  \<^verbatim>\<open>column = %s\<close> holds for the stored value \<open>c\<close> of such a column and the
  parameter \<open>v\<close>.\<close>

record 'c machine =
  city :: "string list option"
  conn :: bool
  country :: "(string \<times> string) list option"
  csv_file :: "string option"
  csv_zipped :: bool
  cur :: bool
  db_name :: string
  db_pwd :: "string option"
  db_user :: "string option"
  latitude :: "'c list option"
  location_data :: "'c location list option"
  longitude :: "'c list option"
  state :: "string list option"
  postal_code :: "string list option"
  time :: "time list option"
  fs :: "string \<rightharpoonup> content"
  stdin :: "string list"
  stdout :: "string list"
  uninitialised :: "nat \<Rightarrow> string \<Rightarrow> string"
  accepts :: "(string \<times> string option \<times> string option) list"
  committed :: database
  commits :: nat
  tx :: database
  fetched :: "pyval list list"
  sql_cast :: "string \<Rightarrow> pyval \<Rightarrow> exn + pyval"
  sql_equal :: "string \<Rightarrow> pyval \<Rightarrow> pyval \<Rightarrow> bool"

text \<open>The library functions the script calls and the source does not define:
  \<^verbatim>\<open>np.genfromtxt\<close> with the arguments of \<^verbatim>\<open>load_countries\<close> and of
  \<^verbatim>\<open>load_locations\<close>, as functions from the text of the file to the rows or the
  exception raised, and Python's \<^verbatim>\<open>str\<close> on a float.\<close>

record 'c lib =
  genfromtxt_countries :: "string \<Rightarrow> exn + (string \<times> string) list"
  genfromtxt_locations :: "string \<Rightarrow> exn + 'c location list"
  float_str :: "real \<Rightarrow> string"

definition init :: "'c machine \<Rightarrow> 'c machine" where
  "init env = env\<lparr>city := None, conn := False, country := None, csv_file := None,
     csv_zipped := True, cur := False, db_name := ''iCP_events'', db_pwd := None,
     db_user := None, latitude := None, location_data := None, longitude := None,
     state := None, postal_code := None, time := None\<rparr>"

section \<open>Statements and blocks\<close>

definition bind ::
  "('s \<Rightarrow> 's \<times> (exn + 'a)) \<Rightarrow> ('a \<Rightarrow> 's \<Rightarrow> 's \<times> (exn + 'b)) \<Rightarrow> 's \<Rightarrow> 's \<times> (exn + 'b)" where
  "bind m f s = (case m s of (s', Inl e) \<Rightarrow> (s', Inl e) | (s', Inr a) \<Rightarrow> f a s')"

text \<open>A sequence of statements: the first exception ends it; a body that falls off its
  end returns \<^verbatim>\<open>None\<close>.\<close>

fun block :: "('s \<Rightarrow> 's \<times> (exn + pyval)) list \<Rightarrow> 's \<Rightarrow> 's \<times> (exn + pyval)" where
  "block [] s = (s, Inr PyNone)"
| "block (c # cs) s = (case c s of (s', Inl e) \<Rightarrow> (s', Inl e) | (s', Inr _) \<Rightarrow> block cs s')"

text \<open>A list comprehension evaluated for its effects, \<^verbatim>\<open>[f(x) for x in xs]\<close>.\<close>

fun for_each :: "('a \<Rightarrow> 's \<Rightarrow> 's \<times> (exn + pyval)) \<Rightarrow> 'a list \<Rightarrow> 's \<Rightarrow> 's \<times> (exn + pyval)" where
  "for_each f [] s = (s, Inr PyNone)"
| "for_each f (x # xs) s = (case f x s of (s', Inl e) \<Rightarrow> (s', Inl e) | (s', Inr _) \<Rightarrow> for_each f xs s')"

definition print :: "string \<Rightarrow> 'c machine \<Rightarrow> 'c machine" where
  "print msg s = s\<lparr>stdout := stdout s @ [msg @ [CHR 0x0A]]\<rparr>"

text \<open>\<^verbatim>\<open>input(prompt)\<close>: writes the prompt and reads one line; end of input raises.\<close>

definition input :: "string \<Rightarrow> 'c machine \<Rightarrow> 'c machine \<times> (exn + string)" where
  "input prompt s =
     (case stdin s of
        [] \<Rightarrow> (s\<lparr>stdout := stdout s @ [prompt]\<rparr>, Inl EOFError)
      | l # ls \<Rightarrow> (s\<lparr>stdout := stdout s @ [prompt], stdin := ls\<rparr>, Inr l))"

section \<open>The status decorator\<close>

text \<open>
  \<^verbatim>\<open>
  def status():
      def decorator(func):
          @functools.wraps(func)
          def wrapped(*args, **kwargs):
              try:
                  print('\nExecute: {}'.format(func.__name__))
                  func(*args, **kwargs)
              finally:
                  print('Complete: {}\n'.format(func.__name__))
          return wrapped
      return decorator
  \<close>
  \<open>status func_name func\<close> is \<^verbatim>\<open>wrapped\<close> for the function \<^verbatim>\<open>func\<close> named
  \<^verbatim>\<open>func_name\<close>. The value of \<^verbatim>\<open>func\<close> is dropped and \<^verbatim>\<open>wrapped\<close> has no
  \<^verbatim>\<open>return\<close>; the \<^verbatim>\<open>finally\<close> clause runs on both exits and an exception goes on
  to the caller after it.
\<close>

definition execute_msg :: "string \<Rightarrow> string" where
  "execute_msg func_name = [CHR 0x0A] @ ''Execute: '' @ func_name"

definition complete_msg :: "string \<Rightarrow> string" where
  "complete_msg func_name = ''Complete: '' @ func_name @ [CHR 0x0A]"

definition status ::
  "string \<Rightarrow> ('c machine \<Rightarrow> 'c machine \<times> (exn + 'a)) \<Rightarrow> 'c machine \<Rightarrow> 'c machine \<times> (exn + pyval)" where
  "status func_name func s =
     (case func (print (execute_msg func_name) s) of
        (s', Inl e) \<Rightarrow> (print (complete_msg func_name) s', Inl e)
      | (s', Inr _) \<Rightarrow> (print (complete_msg func_name) s', Inr PyNone))"

section \<open>The time generator\<close>

text \<open>\<^verbatim>\<open>timedelta(days, seconds, microseconds)\<close> normalises its arguments and refuses
  more than 999999999 days.\<close>

definition timedelta_new :: "int \<Rightarrow> int \<Rightarrow> int \<Rightarrow> exn + timedelta" where
  "timedelta_new d s us =
     (let s1 = s + us div 1000000;
          d1 = d + s1 div 86400
      in if \<bar>d1\<bar> > 999999999 then Inl OverflowError
         else Inr \<lparr>days = d1, seconds = s1 mod 86400, microseconds = us mod 1000000\<rparr>)"

definition timedelta_minutes :: "int \<Rightarrow> exn + timedelta" where
  "timedelta_minutes m = timedelta_new 0 (m * 60) 0"

definition timedelta_mul :: "timedelta \<Rightarrow> int \<Rightarrow> exn + timedelta" where
  "timedelta_mul td x = timedelta_new (days td * x) (seconds td * x) (microseconds td * x)"

definition MAXORDINAL :: int where
  "MAXORDINAL = 3652059"

text \<open>\<^verbatim>\<open>datetime + timedelta\<close>: the sum is formed as a timedelta counted from ordinal 0
  and split again; a date outside years 1 to 9999 raises.\<close>

definition datetime_add :: "datetime \<Rightarrow> timedelta \<Rightarrow> exn + datetime" where
  "datetime_add t td =
     (case timedelta_new (ordinal t + days td)
             (dt_hour t * 3600 + dt_minute t * 60 + dt_second t + seconds td)
             (dt_microsecond t + microseconds td) of
        Inl e \<Rightarrow> Inl e
      | Inr delta \<Rightarrow>
          if 0 < days delta \<and> days delta \<le> MAXORDINAL
          then Inr \<lparr>ordinal = days delta,
                    dt_hour = seconds delta div 3600,
                    dt_minute = (seconds delta mod 3600) div 60,
                    dt_second = (seconds delta mod 3600) mod 60,
                    dt_microsecond = microseconds delta\<rparr>
          else Inl OverflowError)"

definition datetime_time :: "datetime \<Rightarrow> time" where
  "datetime_time t =
     \<lparr>hour = dt_hour t, minute = dt_minute t, second = dt_second t, microsecond = dt_microsecond t\<rparr>"

text \<open>\<^verbatim>\<open>dt.datetime(1, 1, 1)\<close>\<close>

definition datetime_1_1_1 :: datetime where
  "datetime_1_1_1 = \<lparr>ordinal = 1, dt_hour = 0, dt_minute = 0, dt_second = 0, dt_microsecond = 0\<rparr>"

text \<open>A list comprehension whose element expression may raise.\<close>

fun comprehension :: "('a \<Rightarrow> exn + 'b) \<Rightarrow> 'a list \<Rightarrow> exn + 'b list" where
  "comprehension f [] = Inr []"
| "comprehension f (x # xs) =
     (case f x of
        Inl e \<Rightarrow> Inl e
      | Inr y \<Rightarrow> (case comprehension f xs of Inl e \<Rightarrow> Inl e | Inr ys \<Rightarrow> Inr (y # ys)))"

text \<open>
  \<^verbatim>\<open>
  day = dt.datetime(1, 1, 1)
  delta = dt.timedelta(minutes=5)
  day_time = [day + delta * x for x in range(288)]
  self.time = [x.time() for x in day_time]
  \<close>
\<close>

definition day_times :: "exn + datetime list" where
  "day_times =
     (case timedelta_minutes 5 of
        Inl e \<Rightarrow> Inl e
      | Inr delta \<Rightarrow>
          comprehension
            (\<lambda>x. case timedelta_mul delta x of Inl e \<Rightarrow> Inl e | Inr d \<Rightarrow> datetime_add datetime_1_1_1 d)
            (map int [0..<288]))"

definition load_times_body :: "'c machine \<Rightarrow> 'c machine \<times> (exn + pyval)" where
  "load_times_body s =
     (case day_times of
        Inl e \<Rightarrow> (s, Inl e)
      | Inr day_time \<Rightarrow> (s\<lparr>time := Some (map datetime_time day_time)\<rparr>, Inr PyNone))"

definition load_times :: "'c machine \<Rightarrow> 'c machine \<times> (exn + pyval)" where
  "load_times = status ''load_times'' load_times_body"

text \<open>Python compares two times as the tuples (hour, minute, second, microsecond).\<close>

definition time_lt :: "time \<Rightarrow> time \<Rightarrow> bool" where
  "time_lt a b \<longleftrightarrow>
     hour a < hour b \<or> (hour a = hour b \<and> (minute a < minute b \<or> (minute a = minute b \<and>
       (second a < second b \<or> (second a = second b \<and> microsecond a < microsecond b)))))"

text \<open>The microseconds from midnight to a time of day.\<close>

definition since_midnight :: "time \<Rightarrow> int" where
  "since_midnight t = ((hour t * 60 + minute t) * 60 + second t) * 1000000 + microsecond t"

section \<open>Reading the sources\<close>

definition assign :: "('s \<Rightarrow> 's) \<Rightarrow> 's \<Rightarrow> 's \<times> (exn + pyval)" where
  "assign f s = (f s, Inr PyNone)"

text \<open>\<^verbatim>\<open>'{}'.format(self.csv_file)\<close>\<close>

definition format_name :: "string option \<Rightarrow> string" where
  "format_name f = (case f of None \<Rightarrow> ''None'' | Some n \<Rightarrow> n)"

text \<open>
  \<^verbatim>\<open>
  def unzip(self):
      if self.csv_zipped:
          with gzip.open('{}.gz'.format(self.csv_file), 'r') as f:
              csv_data = f.read()
              csv_data = csv_data.decode().replace('\r', '')
          with open(self.csv_file, 'w') as f:
              f.write(csv_data)
  \<close>
\<close>

definition remove_cr :: "string \<Rightarrow> string" where
  "remove_cr csv_data = filter (\<lambda>c. c \<noteq> CHR 0x0D) csv_data"

definition unzip :: "'c machine \<Rightarrow> 'c machine \<times> (exn + pyval)" where
  "unzip s =
     (if csv_zipped s then
        (case fs s (format_name (csv_file s) @ ''.gz'') of
           None \<Rightarrow> (s, Inl (FileNotFoundError (format_name (csv_file s) @ ''.gz'')))
         | Some (Raw _) \<Rightarrow> (s, Inl (BadGzipFile (format_name (csv_file s) @ ''.gz'')))
         | Some (Gz (Gz _)) \<Rightarrow> (s, Inl UnicodeDecodeError)
         | Some (Gz (Raw csv_data)) \<Rightarrow>
             (case csv_file s of
                None \<Rightarrow> (s, Inl (TypeError ''open''))
              | Some f \<Rightarrow>
                  (s\<lparr>fs := (fs s)(f \<mapsto> Raw (remove_cr csv_data))\<rparr>, Inr PyNone)))
      else (s, Inr PyNone))"

text \<open>
  \<^verbatim>\<open>
  def zip_file(self):
      if not self.csv_zipped:
          with open(self.csv_file, 'rb') as f_in:
              with gzip.open('{}.gz'.format(self.csv_file), 'wb') as f_out:
                  shutil.copyfileobj(f_in, f_out)
      os.remove(self.csv_file)
  \<close>
  Variant B has the same body under the name \<^verbatim>\<open>zip\<close>, and no caller.
\<close>

definition zip_file :: "'c machine \<Rightarrow> 'c machine \<times> (exn + pyval)" where
  "zip_file s =
     (case csv_file s of
        None \<Rightarrow> (s, Inl (TypeError (if csv_zipped s then ''remove'' else ''open'')))
      | Some f \<Rightarrow>
          (case (if \<not> csv_zipped s
                 then (case fs s f of
                         None \<Rightarrow> Inl (FileNotFoundError f)
                       | Some c \<Rightarrow> Inr ((fs s)(f @ ''.gz'' \<mapsto> Gz c)))
                 else Inr (fs s)) of
             Inl e \<Rightarrow> (s, Inl e)
           | Inr fs1 \<Rightarrow>
               (case fs1 f of
                  None \<Rightarrow> (s\<lparr>fs := fs1\<rparr>, Inl (FileNotFoundError f))
                | Some _ \<Rightarrow> (s\<lparr>fs := fs1(f := None)\<rparr>, Inr PyNone))))"

definition zip_B :: "'c machine \<Rightarrow> 'c machine \<times> (exn + pyval)" where
  "zip_B = zip_file"

text \<open>\<^verbatim>\<open>np.genfromtxt(self.csv_file, ...)\<close>: the file is opened and read as text, and
  the library parses it.\<close>

definition genfromtxt :: "(string \<Rightarrow> exn + 'r) \<Rightarrow> 'c machine \<Rightarrow> 'c machine \<times> (exn + 'r)" where
  "genfromtxt parse s =
     (case csv_file s of
        None \<Rightarrow> (s, Inl (TypeError ''genfromtxt''))
      | Some f \<Rightarrow>
          (case fs s f of
             None \<Rightarrow> (s, Inl (FileNotFoundError f))
           | Some (Gz _) \<Rightarrow> (s, Inl UnicodeDecodeError)
           | Some (Raw text) \<Rightarrow> (s, parse text)))"

text \<open>\<^verbatim>\<open>np.unique\<close>: the sorted distinct elements.\<close>

definition np_unique :: "'a::linorder list \<Rightarrow> 'a list" where
  "np_unique xs = sort (remdups xs)"

text \<open>
  Variant A:
  \<^verbatim>\<open>
  @status()
  def load_countries(self):
      self.csv_file = 'countries.csv'
      self.unzip()
      country = np.genfromtxt(self.csv_file, dtype=[('abbr', 'U2'), ('name', 'U50')],
                              delimiter=', ', usecols=[0, 1])
      self.zip_file()
      self.country = country.view(np.recarray)
  \<close>
  Variant B is the same without the call of \<^verbatim>\<open>zip_file\<close>.
\<close>

definition load_countries_A :: "'c lib \<Rightarrow> 'c machine \<Rightarrow> 'c machine \<times> (exn + pyval)" where
  "load_countries_A np =
     status ''load_countries''
       (block
         [assign (\<lambda>s. s\<lparr>csv_file := Some ''countries.csv''\<rparr>),
          unzip,
          bind (genfromtxt (genfromtxt_countries np)) (\<lambda>country_rows.
            block
              [zip_file,
               assign (\<lambda>s. s\<lparr>country := Some country_rows\<rparr>)])])"

definition load_countries_B :: "'c lib \<Rightarrow> 'c machine \<Rightarrow> 'c machine \<times> (exn + pyval)" where
  "load_countries_B np =
     status ''load_countries''
       (block
         [assign (\<lambda>s. s\<lparr>csv_file := Some ''countries.csv''\<rparr>),
          unzip,
          bind (genfromtxt (genfromtxt_countries np)) (\<lambda>country_rows.
            assign (\<lambda>s. s\<lparr>country := Some country_rows\<rparr>))])"

text \<open>
  Variant A:
  \<^verbatim>\<open>
  @status()
  def load_locations(self):
      self.csv_file = 'us_postal_codes.csv'
      self.unzip()
      loc = np.genfromtxt(self.csv_file, dtype=[...], delimiter=',', skip_header=1,
                          usecols=[0, 1, 3, 5, 6])
      self.zip_file()

      self.location_data = loc.view(np.recarray)
      self.city = np.unique(self.location_data.city)
      self.state = np.unique(self.location_data.state)
      self.postal_code = np.unique(self.location_data.postal_code)
      self.latitude = np.unique(self.location_data.latitude)
      self.longitude = np.unique(self.location_data.longitude)
  \<close>
  Variant B is the same without the call of \<^verbatim>\<open>zip_file\<close>.
\<close>

definition store_locations :: "('c::linorder) location list \<Rightarrow> 'c machine \<Rightarrow> 'c machine" where
  "store_locations loc s =
     s\<lparr>location_data := Some loc,
       city := Some (np_unique (map loc_city loc)),
       state := Some (np_unique (map loc_state loc)),
       postal_code := Some (np_unique (map loc_postal_code loc)),
       latitude := Some (np_unique (map loc_latitude loc)),
       longitude := Some (np_unique (map loc_longitude loc))\<rparr>"

definition load_locations_A :: "('c::linorder) lib \<Rightarrow> 'c machine \<Rightarrow> 'c machine \<times> (exn + pyval)" where
  "load_locations_A np =
     status ''load_locations''
       (block
         [assign (\<lambda>s. s\<lparr>csv_file := Some ''us_postal_codes.csv''\<rparr>),
          unzip,
          bind (genfromtxt (genfromtxt_locations np)) (\<lambda>loc.
            block
              [zip_file,
               assign (store_locations loc)])])"

definition load_locations_B :: "('c::linorder) lib \<Rightarrow> 'c machine \<Rightarrow> 'c machine \<times> (exn + pyval)" where
  "load_locations_B np =
     status ''load_locations''
       (block
         [assign (\<lambda>s. s\<lparr>csv_file := Some ''us_postal_codes.csv''\<rparr>),
          unzip,
          bind (genfromtxt (genfromtxt_locations np)) (\<lambda>loc.
            assign (store_locations loc))])"

section \<open>Credentials and the connection\<close>

text \<open>
  \<^verbatim>\<open>
  def get_password(self):
      self.db_pwd = input('Enter database password: ')

  def get_user(self):
      self.db_user = input('Enter database user name: ')
      if not self.db_user:
          self.db_user = 'Tim'
  \<close>
\<close>

definition get_password :: "'c machine \<Rightarrow> 'c machine \<times> (exn + pyval)" where
  "get_password =
     bind (input ''Enter database password: '') (\<lambda>l. assign (\<lambda>s. s\<lparr>db_pwd := Some l\<rparr>))"

definition get_user :: "'c machine \<Rightarrow> 'c machine \<times> (exn + pyval)" where
  "get_user =
     bind (input ''Enter database user name: '') (\<lambda>l.
       assign (\<lambda>s. s\<lparr>db_user := Some (if l = [] then ''Tim'' else l)\<rparr>))"

text \<open>
  \<^verbatim>\<open>
  def psql_connection(self):
      self.conn = psycopg2.connect(database=self.db_name, user=self.db_user,
                                   password=self.db_pwd)
      self.cur = self.conn.cursor()
  \<close>
  A new connection sees the committed database.
\<close>

definition psql_connection :: "'c machine \<Rightarrow> 'c machine \<times> (exn + pyval)" where
  "psql_connection s =
     (if (db_name s, db_user s, db_pwd s) \<in> set (accepts s)
      then (s\<lparr>conn := True, cur := True, tx := committed s\<rparr>, Inr PyNone)
      else (s, Inl (OperationalError ''connect'')))"

text \<open>\<^verbatim>\<open>self.conn.commit()\<close>\<close>

definition commit :: "'c machine \<Rightarrow> 'c machine \<times> (exn + pyval)" where
  "commit s =
     (if conn s then (s\<lparr>committed := tx s, commits := Suc (commits s)\<rparr>, Inr PyNone)
      else (s, Inl (AttributeError ''commit'')))"

section \<open>The database engine\<close>

text \<open>
  The script sends SQL text it formats itself. Each text it can send is a constructor
  here:
  \<^item> \<open>DropTable n\<close> is \<^verbatim>\<open>DROP TABLE if EXISTS n CASCADE;\<close>
  \<^item> \<open>CreateTable n serial schema unique\<close> is \<^verbatim>\<open>CREATE TABLE n (...)\<close> with the
    column \<^verbatim>\<open>id SERIAL UNIQUE NOT NULL PRIMARY KEY\<close> when \<open>serial\<close>, the declared
    columns, and \<^verbatim>\<open>UNIQUE (...)\<close> when \<open>unique\<close> is not empty;
  \<^item> \<open>InsertInto n field_names\<close> is \<^verbatim>\<open>INSERT INTO n (field_names) VALUES (%s, ...)\<close>;
  \<^item> \<open>InsertWhereNotExists n field_names\<close> is
    \<^verbatim>\<open>INSERT INTO n (field_names) SELECT %s, ... WHERE NOT EXISTS (SELECT ... FROM n WHERE f1=%s AND ...)\<close>;
  \<^item> \<open>SelectFrom ret n search\<close> is \<^verbatim>\<open>SELECT ret FROM n\<close>, with
    \<^verbatim>\<open>WHERE search=%s\<close> when a search field is given.

  The engine is the external PostgreSQL server. A value written to a column is
  converted to the column's type: the row holds \<open>sql_cast decl v\<close> for the parameter
  \<open>v\<close>, and the statement raises when the conversion does. A \<^verbatim>\<open>WHERE\<close> clause
  compares a stored value with a parameter by \<open>sql_equal\<close>; a comparison with
  \<^verbatim>\<open>NULL\<close> is never true. Both are parameters of the state, so that what is proved
  holds for every conversion and comparison. A \<^verbatim>\<open>UNIQUE\<close> constraint compares the
  stored values. A new row takes its id from the table's sequence, which starts at 1
  when the table is created.
\<close>

datatype sql =
    DropTable string
  | CreateTable string bool "string list" "string list"
  | InsertInto string "string list"
  | InsertWhereNotExists string "string list"
  | SelectFrom string string "string option"

definition column_name :: "string \<Rightarrow> string" where
  "column_name decl = takeWhile (\<lambda>c. c \<noteq> CHR '' '') decl"

definition columns :: "table \<Rightarrow> string list" where
  "columns t = (if serial t then [''id''] else []) @ map column_name (schema t)"

definition cell :: "table \<Rightarrow> pyval list \<Rightarrow> string \<Rightarrow> pyval option" where
  "cell t r c = map_of (zip (columns t) r) c"

text \<open>The declaration of a column, and the conversion of the values of a statement for
  the columns they go to: the first conversion that fails raises.\<close>

definition column_decl :: "table \<Rightarrow> string \<Rightarrow> string option" where
  "column_decl t c = find (\<lambda>d. column_name d = c) (schema t)"

fun collect :: "(exn + 'a) list \<Rightarrow> exn + 'a list" where
  "collect [] = Inr []"
| "collect (x # xs) =
     (case x of
        Inl e \<Rightarrow> Inl e
      | Inr a \<Rightarrow> (case collect xs of Inl e \<Rightarrow> Inl e | Inr as \<Rightarrow> Inr (a # as)))"

definition cast_row ::
  "(string \<Rightarrow> pyval \<Rightarrow> exn + pyval) \<Rightarrow> table \<Rightarrow> string list \<Rightarrow> pyval list \<Rightarrow> exn + pyval list" where
  "cast_row f t field_names vals =
     collect (map (\<lambda>(c, v). case column_decl t c of Some d \<Rightarrow> f d v | None \<Rightarrow> Inr v)
                  (zip field_names vals))"

text \<open>The row a statement adds, from the converted values.\<close>

definition new_row :: "table \<Rightarrow> string list \<Rightarrow> pyval list \<Rightarrow> pyval list" where
  "new_row t field_names vals =
     map (\<lambda>c. case map_of (zip field_names vals) c of
                 Some v \<Rightarrow> v
               | None \<Rightarrow> if serial t \<and> c = ''id'' then PyInt (int (next_id t)) else PyNone)
         (columns t)"

text \<open>Whether a new row would repeat, in every field of the table's \<^verbatim>\<open>UNIQUE\<close>
  constraint, the values of a row already there.\<close>

definition violates :: "table \<Rightarrow> pyval list \<Rightarrow> bool" where
  "violates t r \<longleftrightarrow>
     unique t \<noteq> [] \<and>
     list_ex (\<lambda>r'. list_all (\<lambda>c. cell t r c \<noteq> Some PyNone \<and> cell t r' c = cell t r c) (unique t))
       (rows t)"

text \<open>An insert into the table \<open>t\<close> named \<open>n\<close>: the values are converted, the
  constraint is checked, and the row is added.\<close>

definition add_row ::
  "(string \<Rightarrow> pyval \<Rightarrow> exn + pyval) \<Rightarrow> string \<Rightarrow> table \<Rightarrow> string list \<Rightarrow> pyval list \<Rightarrow> exn + table" where
  "add_row f n t field_names vals =
     (case cast_row f t field_names vals of
        Inl e \<Rightarrow> Inl e
      | Inr stored \<Rightarrow>
          if violates t (new_row t field_names stored) then Inl (UniqueViolation n)
          else Inr (t\<lparr>next_id := Suc (next_id t), rows := rows t @ [new_row t field_names stored]\<rparr>))"

definition insert_row ::
  "(string \<Rightarrow> pyval \<Rightarrow> exn + pyval) \<Rightarrow> string \<Rightarrow> string list \<Rightarrow> pyval list \<Rightarrow> database \<Rightarrow> exn + database" where
  "insert_row f n field_names vals db =
     (case db n of
        None \<Rightarrow> Inl (UndefinedTable n)
      | Some t \<Rightarrow>
          if length field_names \<noteq> length vals then Inl (ProgrammingError n)
          else if \<not> list_all (\<lambda>c. c \<in> set (columns t)) field_names then Inl (UndefinedColumn n)
          else (case add_row f n t field_names vals of
                  Inl e \<Rightarrow> Inl e
                | Inr t' \<Rightarrow> Inr (db(n \<mapsto> t'))))"

text \<open>Whether the server finds a row equal to the given values in the given fields.\<close>

definition matches ::
  "(string \<Rightarrow> pyval \<Rightarrow> pyval \<Rightarrow> bool) \<Rightarrow> table \<Rightarrow> string list \<Rightarrow> pyval list \<Rightarrow> pyval list \<Rightarrow> bool" where
  "matches eq t field_names vals r \<longleftrightarrow>
     list_all (\<lambda>(c, v). case cell t r c of
                           None \<Rightarrow> False
                         | Some x \<Rightarrow>
                             v \<noteq> PyNone \<and> x \<noteq> PyNone \<and>
                             (case column_decl t c of Some d \<Rightarrow> eq d x v | None \<Rightarrow> x = v))
              (zip field_names vals)"

fun exec_sql ::
  "(string \<Rightarrow> pyval \<Rightarrow> exn + pyval) \<Rightarrow> (string \<Rightarrow> pyval \<Rightarrow> pyval \<Rightarrow> bool) \<Rightarrow> sql \<Rightarrow> pyval list \<Rightarrow> database
     \<Rightarrow> exn + database \<times> pyval list list" where
  "exec_sql f eq (DropTable n) ps db = Inr (db(n := None), [])"
| "exec_sql f eq (CreateTable n ser sch uniq) ps db =
     (case db n of
        Some _ \<Rightarrow> Inl (DuplicateTable n)
      | None \<Rightarrow> Inr (db(n \<mapsto> \<lparr>serial = ser, schema = sch, unique = uniq, next_id = 1, rows = []\<rparr>), []))"
| "exec_sql f eq (InsertInto n field_names) ps db =
     (case insert_row f n field_names ps db of Inl e \<Rightarrow> Inl e | Inr db' \<Rightarrow> Inr (db', []))"
| "exec_sql f eq (InsertWhereNotExists n field_names) ps db =
     (case db n of
        None \<Rightarrow> Inl (UndefinedTable n)
      | Some t \<Rightarrow>
          if length ps \<noteq> 2 * length field_names then Inl (ProgrammingError n)
          else if \<not> list_all (\<lambda>c. c \<in> set (columns t)) field_names then Inl (UndefinedColumn n)
          else if list_ex (matches eq t field_names (drop (length field_names) ps)) (rows t)
          then Inr (db, [])
          else (case insert_row f n field_names (take (length field_names) ps) db of
                  Inl e \<Rightarrow> Inl e
                | Inr db' \<Rightarrow> Inr (db', [])))"
| "exec_sql f eq (SelectFrom ret n search) ps db =
     (case db n of
        None \<Rightarrow> Inl (UndefinedTable n)
      | Some t \<Rightarrow>
          (case (case search of
                   None \<Rightarrow> Inr (rows t)
                 | Some c \<Rightarrow>
                     (case ps of
                        [v] \<Rightarrow> if c \<in> set (columns t) then Inr (filter (matches eq t [c] [v]) (rows t))
                               else Inl (UndefinedColumn n)
                      | _ \<Rightarrow> Inl (ProgrammingError n))) of
             Inl e \<Rightarrow> Inl e
           | Inr found \<Rightarrow>
               if ret = ''*'' then Inr (db, found)
               else if ret \<in> set (columns t)
               then Inr (db, map (\<lambda>r. case cell t r ret of Some v \<Rightarrow> [v] | None \<Rightarrow> [PyNone]) found)
               else Inl (UndefinedColumn n)))"

text \<open>\<^verbatim>\<open>self.cur.execute(cmd, params)\<close> and \<^verbatim>\<open>self.cur.fetchall()\<close>\<close>

definition execute :: "sql \<Rightarrow> pyval list \<Rightarrow> 'c machine \<Rightarrow> 'c machine \<times> (exn + pyval)" where
  "execute cmd ps s =
     (if \<not> cur s then (s, Inl (AttributeError ''execute''))
      else (case exec_sql (sql_cast s) (sql_equal s) cmd ps (tx s) of
              Inl e \<Rightarrow> (s, Inl e)
            | Inr (db, found) \<Rightarrow> (s\<lparr>tx := db, fetched := found\<rparr>, Inr PyNone)))"

definition fetchall :: "'c machine \<Rightarrow> 'c machine \<times> (exn + pyval list list)" where
  "fetchall s =
     (if \<not> cur s then (s, Inl (AttributeError ''fetchall''))
      else (s\<lparr>fetched := []\<rparr>, Inr (fetched s)))"

section \<open>Building the statements\<close>

text \<open>
  Variant A:
  \<^verbatim>\<open>
  def table_select(self, table_name, return_field='*', search_field=None,
                   search_value=None):
      base_cmd = 'SELECT {} FROM {}'.format(return_field, table_name)
      if search_field:
          search_cmd = 'WHERE {}=%s'.format(search_field)
          cmd = '{} {};'.format(base_cmd, search_cmd)
          self.cur.execute(cmd, (search_value, ))
      else:
          self.cur.execute('{};'.format(base_cmd))
      return self.cur.fetchall()
  \<close>
\<close>

definition table_select ::
  "string \<Rightarrow> string \<Rightarrow> string option \<Rightarrow> pyval \<Rightarrow> 'c machine \<Rightarrow> 'c machine \<times> (exn + pyval list list)" where
  "table_select table_name return_field search_field search_value =
     bind (if search_field \<noteq> None \<and> search_field \<noteq> Some []
           then execute (SelectFrom return_field table_name search_field) [search_value]
           else execute (SelectFrom return_field table_name None) [])
          (\<lambda>_. fetchall)"

text \<open>
  Variant A:
  \<^verbatim>\<open>
  def table_insert(name, field_names):
      if isinstance(field_names, str):
          field_names = [field_names]
      ...
      return "INSERT INTO {table_name} ({fields}) VALUES ({values});".format(...)
  \<close>
\<close>

datatype str_or_list = Str string | Lst "string list"

definition table_insert :: "string \<Rightarrow> str_or_list \<Rightarrow> sql" where
  "table_insert n field_names =
     InsertInto n (case field_names of Str f \<Rightarrow> [f] | Lst l \<Rightarrow> l)"

text \<open>Variant A, inside \<^verbatim>\<open>psql_tables\<close>:
  \<^verbatim>\<open>table_create(name, schema, serial=False, unique=None)\<close> and
  \<^verbatim>\<open>table_drop(name)\<close>.\<close>

definition table_create :: "string \<Rightarrow> string list \<Rightarrow> bool \<Rightarrow> string list option \<Rightarrow> sql" where
  "table_create n sch ser uniq = CreateTable n ser sch (case uniq of None \<Rightarrow> [] | Some u \<Rightarrow> u)"

definition table_drop :: "string \<Rightarrow> sql" where
  "table_drop n = DropTable n"

text \<open>Variant B: \<^verbatim>\<open>cmd_double_field(table, field_1, field_2)\<close>,
  \<^verbatim>\<open>cmd_single_field(table, field)\<close>, and inside \<^verbatim>\<open>psql_tables\<close>
  \<^verbatim>\<open>cmd_create_serial_table(table_name, fields)\<close> and \<^verbatim>\<open>cmd_drop_table(table_name)\<close>.\<close>

definition cmd_double_field :: "string \<Rightarrow> string \<Rightarrow> string \<Rightarrow> sql" where
  "cmd_double_field tbl field_1 field_2 = InsertWhereNotExists tbl [field_1, field_2]"

definition cmd_single_field :: "string \<Rightarrow> string \<Rightarrow> sql" where
  "cmd_single_field tbl field = InsertWhereNotExists tbl [field]"

definition cmd_create_serial_table :: "string \<Rightarrow> string list \<Rightarrow> sql" where
  "cmd_create_serial_table table_name field_names = CreateTable table_name True field_names []"

definition cmd_drop_table :: "string \<Rightarrow> sql" where
  "cmd_drop_table table_name = DropTable table_name"

section \<open>Rebuilding the schema\<close>

text \<open>Variant A, \<^verbatim>\<open>psql_tables\<close>: the dictionary \<^verbatim>\<open>tables\<close> in the order it is
  written, and the list \<^verbatim>\<open>composite\<close>.\<close>

definition tables_A :: "(string \<times> string list) list" where
  "tables_A =
     [(''city'', [''value TEXT'']),
      (''country'', [''value CHAR(2)'', ''name TEXT'']),
      (''event'', [''value TEXT'']),
      (''event_date'', [''value DATE'']),
      (''event_time'', [''value TIME'']),
      (''latitude'', [''value DOUBLE PRECISION'']),
      (''longitude'', [''value DOUBLE PRECISION'']),
      (''postal_code'', [''value CHAR(5)'']),
      (''state'', [''value CHAR(2)'']),
      (''url'', [''value TEXT''])]"

definition composite_A :: "(string \<times> string) list" where
  "composite_A =
     [(''event'', ''INTEGER''),
      (''city'', ''INTEGER''),
      (''state'', ''INTEGER''),
      (''postal_code'', ''INTEGER''),
      (''country'', ''INTEGER''),
      (''latitude'', ''INTEGER''),
      (''longitude'', ''INTEGER''),
      (''event_date'', ''INTEGER''),
      (''event_time'', ''INTEGER''),
      (''url'', ''INTEGER'')]"

text \<open>\<^verbatim>\<open>' '.join(x)\<close> for a pair \<^verbatim>\<open>x\<close>\<close>

definition join_pair :: "string \<times> string \<Rightarrow> string" where
  "join_pair x = fst x @ '' '' @ snd x"

text \<open>
  \<^verbatim>\<open>
  [self.cur.execute(table_drop(x)) for x in tables]
  [self.cur.execute(table_create(x, tables[x], serial=True)) for x in tables]
  [self.cur.execute(table_drop(x)) for x in ['address', 'events']]
  self.cur.execute(table_create('address',
                                [' '.join(x) for x in composite
                                 if x[0] in ('city', 'state', 'postal_code', 'latitude',
                                             'longitude')],
                                unique=['city', 'state', 'postal_code']))
  self.cur.execute(table_create('events', [' '.join(x) for x in composite],
                                unique=['event', 'city', 'postal_code', 'event_date']))
  \<close>
\<close>

definition psql_tables_A :: "'c machine \<Rightarrow> 'c machine \<times> (exn + pyval)" where
  "psql_tables_A =
     status ''psql_tables''
       (block
         [for_each (\<lambda>x. execute (table_drop x) []) (map fst tables_A),
          for_each (\<lambda>x. execute (table_create (fst x) (snd x) True None) []) tables_A,
          for_each (\<lambda>x. execute (table_drop x) []) [''address'', ''events''],
          execute (table_create ''address''
                     (map join_pair
                        (filter (\<lambda>x. fst x \<in> set [''city'', ''state'', ''postal_code'', ''latitude'',
                                                   ''longitude''])
                           composite_A))
                     False (Some [''city'', ''state'', ''postal_code''])) [],
          execute (table_create ''events'' (map join_pair composite_A) False
                     (Some [''event'', ''city'', ''postal_code'', ''event_date''])) []])"

text \<open>Variant B, \<^verbatim>\<open>psql_tables\<close>.\<close>

definition tables_B :: "(string \<times> string list) list" where
  "tables_B =
     [(''city'', [''city_name TEXT'']),
      (''country'', [''country_abbr CHAR(2)'', ''country_name TEXT'']),
      (''dates'', [''dates_value DATE'']),
      (''events'', [''event_name TEXT'']),
      (''latitude'', [''latitude_value REAL'']),
      (''longitude'', [''longitude_value REAL'']),
      (''postal_code'', [''postal_code_value CHAR(5)'']),
      (''state'', [''state_name CHAR(2)'']),
      (''times'', [''time_value TIME'']),
      (''url'', [''url_name TEXT''])]"

definition composite_B :: "string list" where
  "composite_B =
     [''event INTEGER'', ''city INTEGER'', ''state INTEGER'', ''postal_code INTEGER'',
      ''country INTEGER'', ''latitude INTEGER'', ''longitude INTEGER'', ''dates INTEGER'',
      ''times INTEGER'', ''url INTEGER'']"

text \<open>
  \<^verbatim>\<open>
  [self.cur.execute(cmd_drop_table(x)) for x in tables]
  [self.cur.execute(cmd_create_serial_table(x, tables[x])) for x in tables]
  self.cur.execute(cmd_drop_table('event'))
  self.cur.execute("CREATE TABLE {table_name} ({fields});".format(
      table_name='event', fields=', '.join(composite)))
  \<close>
\<close>

definition psql_tables_B :: "'c machine \<Rightarrow> 'c machine \<times> (exn + pyval)" where
  "psql_tables_B =
     status ''psql_tables''
       (block
         [for_each (\<lambda>x. execute (cmd_drop_table x) []) (map fst tables_B),
          for_each (\<lambda>x. execute (cmd_create_serial_table (fst x) (snd x)) []) tables_B,
          execute (cmd_drop_table ''event'') [],
          execute (CreateTable ''event'' False composite_B []) []])"

section \<open>Populating the lookup tables\<close>

text \<open>\<^verbatim>\<open>[... for x in self.attr]\<close>: iterating over \<^verbatim>\<open>None\<close> raises.\<close>

definition for_in ::
  "('s \<Rightarrow> 'a list option) \<Rightarrow> ('a \<Rightarrow> 's \<Rightarrow> 's \<times> (exn + pyval)) \<Rightarrow> 's \<Rightarrow> 's \<times> (exn + pyval)" where
  "for_in attr f s =
     (case attr s of
        None \<Rightarrow> (s, Inl (TypeError ''NoneType is not iterable''))
      | Some xs \<Rightarrow> for_each f xs s)"

text \<open>\<^verbatim>\<open>np.genfromtxt\<close> squeezes its result: for a file with exactly one data row it
  returns a 0-d array, and iterating over a 0-d array raises \<^verbatim>\<open>TypeError\<close>. The
  attributes \<^verbatim>\<open>country\<close> and \<^verbatim>\<open>location_data\<close> hold the rows that
  \<^verbatim>\<open>np.genfromtxt\<close> returned; a list of one row stands for the 0-d array. The arrays
  that \<^verbatim>\<open>np.unique\<close> returns are one-dimensional whatever their length.\<close>

definition for_in_array ::
  "('s \<Rightarrow> 'a list option) \<Rightarrow> ('a \<Rightarrow> 's \<Rightarrow> 's \<times> (exn + pyval)) \<Rightarrow> 's \<Rightarrow> 's \<times> (exn + pyval)" where
  "for_in_array attr f s =
     (case attr s of
        None \<Rightarrow> (s, Inl (TypeError ''NoneType is not iterable''))
      | Some xs \<Rightarrow>
          if length xs = 1 then (s, Inl (TypeError ''iteration over a 0-d array''))
          else for_each f xs s)"

text \<open>
  Variant A inserts every value of the attribute, for instance
  \<^verbatim>\<open>
  @status()
  def psql_city(self):
      [self.cur.execute(self.table_insert('city', 'value'), (x, )) for x in self.city]

  @status()
  def psql_country(self):
      [self.cur.execute(self.table_insert('country', ['value', 'name']), (x, y))
       for (x, y) in self.country]
  \<close>
\<close>

definition psql_city_A :: "'c machine \<Rightarrow> 'c machine \<times> (exn + pyval)" where
  "psql_city_A =
     status ''psql_city''
       (for_in city (\<lambda>x. execute (table_insert ''city'' (Str ''value'')) [PyStr x]))"

definition psql_country_A :: "'c machine \<Rightarrow> 'c machine \<times> (exn + pyval)" where
  "psql_country_A =
     status ''psql_country''
       (for_in_array country (\<lambda>x. execute (table_insert ''country'' (Lst [''value'', ''name'']))
                               [PyStr (fst x), PyStr (snd x)]))"

definition psql_latitude_A :: "string machine \<Rightarrow> string machine \<times> (exn + pyval)" where
  "psql_latitude_A =
     status ''psql_latitude''
       (for_in latitude (\<lambda>x. execute (table_insert ''latitude'' (Str ''value'')) [PyStr x]))"

definition psql_longitude_A :: "string machine \<Rightarrow> string machine \<times> (exn + pyval)" where
  "psql_longitude_A =
     status ''psql_longitude''
       (for_in longitude (\<lambda>x. execute (table_insert ''longitude'' (Str ''value'')) [PyStr x]))"

definition psql_postal_code_A :: "'c machine \<Rightarrow> 'c machine \<times> (exn + pyval)" where
  "psql_postal_code_A =
     status ''psql_postal_code''
       (for_in postal_code (\<lambda>x. execute (table_insert ''postal_code'' (Str ''value'')) [PyStr x]))"

definition psql_state_A :: "'c machine \<Rightarrow> 'c machine \<times> (exn + pyval)" where
  "psql_state_A =
     status ''psql_state''
       (for_in state (\<lambda>x. execute (table_insert ''state'' (Str ''value'')) [PyStr x]))"

definition psql_times_A :: "'c machine \<Rightarrow> 'c machine \<times> (exn + pyval)" where
  "psql_times_A =
     status ''psql_times''
       (for_in time (\<lambda>x. execute (table_insert ''event_time'' (Str ''value'')) [PyTime x]))"

text \<open>
  Variant B sends the conditional insert with the value given twice, for instance
  \<^verbatim>\<open>
  @status()
  def psql_city(self):
      cmd = self.cmd_single_field('city', 'city_name')
      [self.cur.execute(cmd, (x, x)) for x in self.city]

  @status()
  def psql_country(self):
      cmd = self.cmd_double_field('country', 'country_abbr', 'country_name')
      [self.cur.execute(cmd, (x.abbr, x.name, x.abbr, x.name)) for x in self.country]
  \<close>
\<close>

definition psql_city_B :: "'c machine \<Rightarrow> 'c machine \<times> (exn + pyval)" where
  "psql_city_B =
     status ''psql_city''
       (for_in city (\<lambda>x. execute (cmd_single_field ''city'' ''city_name'') [PyStr x, PyStr x]))"

definition psql_country_B :: "'c machine \<Rightarrow> 'c machine \<times> (exn + pyval)" where
  "psql_country_B =
     status ''psql_country''
       (for_in_array country (\<lambda>x. execute (cmd_double_field ''country'' ''country_abbr'' ''country_name'')
                               [PyStr (fst x), PyStr (snd x), PyStr (fst x), PyStr (snd x)]))"

definition psql_latitude_B :: "real machine \<Rightarrow> real machine \<times> (exn + pyval)" where
  "psql_latitude_B =
     status ''psql_latitude''
       (for_in latitude (\<lambda>x. execute (cmd_single_field ''latitude'' ''latitude_value'')
                                [PyFloat x, PyFloat x]))"

definition psql_longitude_B :: "real machine \<Rightarrow> real machine \<times> (exn + pyval)" where
  "psql_longitude_B =
     status ''psql_longitude''
       (for_in longitude (\<lambda>x. execute (cmd_single_field ''longitude'' ''longitude_value'')
                                 [PyFloat x, PyFloat x]))"

definition psql_postal_code_B :: "'c machine \<Rightarrow> 'c machine \<times> (exn + pyval)" where
  "psql_postal_code_B =
     status ''psql_postal_code''
       (for_in postal_code (\<lambda>x. execute (cmd_single_field ''postal_code'' ''postal_code_value'')
                                   [PyStr x, PyStr x]))"

definition psql_state_B :: "'c machine \<Rightarrow> 'c machine \<times> (exn + pyval)" where
  "psql_state_B =
     status ''psql_state''
       (for_in state (\<lambda>x. execute (cmd_single_field ''state'' ''state_name'') [PyStr x, PyStr x]))"

definition psql_times_B :: "'c machine \<Rightarrow> 'c machine \<times> (exn + pyval)" where
  "psql_times_B =
     status ''psql_times''
       (for_in time (\<lambda>x. execute (cmd_single_field ''times'' ''time_value'') [PyTime x, PyTime x]))"

section \<open>The address table (variant A)\<close>

text \<open>Python's \<^verbatim>\<open>str\<close> on the values a row can hold.\<close>

function digits :: "nat \<Rightarrow> string" where
  "digits n = (if n < 10 then [''0123456789'' ! n] else digits (n div 10) @ [''0123456789'' ! (n mod 10)])"
  by pat_completeness auto
termination
  by (relation "measure (\<lambda>n. n)") auto

declare digits.simps [simp del]

definition str_int :: "int \<Rightarrow> string" where
  "str_int i = (if i < 0 then ''-'' @ digits (nat (- i)) else digits (nat i))"

definition zero_pad :: "nat \<Rightarrow> string \<Rightarrow> string" where
  "zero_pad w d = replicate (w - length d) (CHR ''0'') @ d"

fun py_str :: "(real \<Rightarrow> string) \<Rightarrow> pyval \<Rightarrow> string" where
  "py_str fstr PyNone = ''None''"
| "py_str fstr (PyInt i) = str_int i"
| "py_str fstr (PyStr x) = x"
| "py_str fstr (PyFloat r) = fstr r"
| "py_str fstr (PyTime t) =
     zero_pad 2 (str_int (hour t)) @ '':'' @ zero_pad 2 (str_int (minute t)) @ '':'' @
     zero_pad 2 (str_int (second t)) @
     (if microsecond t = 0 then [] else ''.'' @ zero_pad 6 (str_int (microsecond t)))"

text \<open>
  \<^verbatim>\<open>
  fields = ['postal_code', 'city', 'state', 'latitude', 'longitude']
  addresses = np.recarray(self.location_data.shape,
                          dtype=list(zip(fields, ['U6'] * len(fields))))
  \<close>
  The record array is a list of rows, each holding one string of at most six characters
  per field, in the order of \<^verbatim>\<open>fields\<close>. \<^verbatim>\<open>np.recarray\<close> does not initialise it.
\<close>

definition address_fields :: "string list" where
  "address_fields = [''postal_code'', ''city'', ''state'', ''latitude'', ''longitude'']"

definition new_addresses :: "string machine \<Rightarrow> nat \<Rightarrow> string list list" where
  "new_addresses s n = map (\<lambda>i. map (\<lambda>f. take 6 (uninitialised s i f)) address_fields) [0..<n]"

text \<open>\<^verbatim>\<open>eval('addresses.{}'.format(name))\<close> gives the column of that name, here its
  position; \<^verbatim>\<open>eval('self.location_data.{}'.format(name))\<close> the field of the records.\<close>

definition address_column :: "string \<Rightarrow> nat option" where
  "address_column n = map_of (zip address_fields [0..<length address_fields]) n"

definition location_field :: "string \<Rightarrow> (string location \<Rightarrow> string) option" where
  "location_field n =
     map_of [(''postal_code'', loc_postal_code), (''city'', loc_city), (''state'', loc_state),
             (''latitude'', loc_latitude), (''longitude'', loc_longitude)] n"

text \<open>
  \<^verbatim>\<open>
  for values in self.table_select(name):
      field[mask == str(values[1])] = values[0]
  \<close>
  Every row of the lookup table writes its id, as a string cut to six characters, into
  the column \<open>k\<close> of the address rows whose record has that row's value.
\<close>

fun substitute ::
  "(real \<Rightarrow> string) \<Rightarrow> nat \<Rightarrow> string list \<Rightarrow> pyval list list \<Rightarrow> string list list \<Rightarrow> exn + string list list" where
  "substitute fstr k mask_vals [] addresses = Inr addresses"
| "substitute fstr k mask_vals (vals # rest) addresses =
     (case vals of
        v0 # v1 # _ \<Rightarrow>
          substitute fstr k mask_vals rest
            (map (\<lambda>(m, a). if m = py_str fstr v1 then a[k := take 6 (py_str fstr v0)] else a)
               (zip mask_vals addresses))
      | _ \<Rightarrow> Inl IndexError)"

text \<open>
  \<^verbatim>\<open>
  def idx_sub(name, translate):
      nonlocal addresses
      field = eval('addresses.{}'.format(name))
      mask = eval('self.location_data.{}'.format(name))
      print('   {}'.format(name))
      for values in self.table_select(name):
          field[mask == str(values[1])] = values[0]
  \<close>
  The array \<^verbatim>\<open>addresses\<close> is passed in and returned; \<^verbatim>\<open>translate\<close> is not used.
\<close>

definition idx_sub ::
  "string lib \<Rightarrow> string \<Rightarrow> pyval list list \<Rightarrow> string list list \<Rightarrow> string machine
     \<Rightarrow> string machine \<times> (exn + string list list)" where
  "idx_sub np n translate addresses s =
     (case address_column n of
        None \<Rightarrow> (s, Inl (AttributeError n))
      | Some k \<Rightarrow>
          (case location_data s of
             None \<Rightarrow> (s, Inl (AttributeError n))
           | Some locs \<Rightarrow>
               (case location_field n of
                  None \<Rightarrow> (s, Inl (AttributeError n))
                | Some get \<Rightarrow>
                    (case table_select n ''*'' None PyNone (print (''   '' @ n) s) of
                       (s', Inl e) \<Rightarrow> (s', Inl e)
                     | (s', Inr found) \<Rightarrow>
                         (s', substitute (float_str np) k (map get locs) found addresses)))))"

text \<open>
  \<^verbatim>\<open>
  for field in fields:
      idx_sub(field, self.table_select(field))
  \<close>
\<close>

fun idx_loop ::
  "string lib \<Rightarrow> string list \<Rightarrow> string list list \<Rightarrow> string machine
     \<Rightarrow> string machine \<times> (exn + string list list)" where
  "idx_loop np [] addresses s = (s, Inr addresses)"
| "idx_loop np (field # rest) addresses s =
     (case table_select field ''*'' None PyNone s of
        (s1, Inl e) \<Rightarrow> (s1, Inl e)
      | (s1, Inr translate) \<Rightarrow>
          (case idx_sub np field translate addresses s1 of
             (s2, Inl e) \<Rightarrow> (s2, Inl e)
           | (s2, Inr addresses') \<Rightarrow> idx_loop np rest addresses' s2))"

text \<open>
  \<^verbatim>\<open>
  @status()
  def psql_address(self):
      ...
      for field in fields:
          idx_sub(field, self.table_select(field))
      for a in addresses:
          self.cur.execute(self.table_insert('address', fields), a)
  \<close>
  The record array has the shape of \<^verbatim>\<open>location_data\<close>: for a single location record
  it is 0-d, the substitution works on its one row, and the loop over it raises.
\<close>

definition psql_address_A :: "string lib \<Rightarrow> string machine \<Rightarrow> string machine \<times> (exn + pyval)" where
  "psql_address_A np =
     status ''psql_address''
       (\<lambda>s. case location_data s of
               None \<Rightarrow> (s, Inl (AttributeError ''shape''))
             | Some locs \<Rightarrow>
                 bind (idx_loop np address_fields (new_addresses s (length locs)))
                   (\<lambda>addresses.
                      if length locs = 1
                      then (\<lambda>s'. (s', Inl (TypeError ''iteration over a 0-d array'')))
                      else for_each (\<lambda>a. execute (table_insert ''address'' (Lst address_fields))
                                           (map PyStr a)) addresses)
                   s)"

section \<open>The orchestrator\<close>

text \<open>
  \<^verbatim>\<open>
  def initiate_db(self):
      self.load_countries()
      self.load_locations()
      self.load_times()

      self.get_user()
      self.get_password()

      self.psql_connection()
      self.psql_tables()
      self.psql_city()
      self.psql_country()
      self.psql_latitude()
      self.psql_longitude()
      self.psql_postal_code()
      self.psql_state()
      self.psql_times()
      self.psql_address()        (variant A only)
      self.conn.commit()
  \<close>
\<close>

definition steps_A :: "string lib \<Rightarrow> (string machine \<Rightarrow> string machine \<times> (exn + pyval)) list" where
  "steps_A np =
     [load_countries_A np, load_locations_A np, load_times, get_user, get_password,
      psql_connection, psql_tables_A, psql_city_A, psql_country_A, psql_latitude_A,
      psql_longitude_A, psql_postal_code_A, psql_state_A, psql_times_A, psql_address_A np]"

definition initiate_db_A :: "string lib \<Rightarrow> string machine \<Rightarrow> string machine \<times> (exn + pyval)" where
  "initiate_db_A np = block (steps_A np @ [commit])"

definition steps_B :: "real lib \<Rightarrow> (real machine \<Rightarrow> real machine \<times> (exn + pyval)) list" where
  "steps_B np =
     [load_countries_B np, load_locations_B np, load_times, get_user, get_password,
      psql_connection, psql_tables_B, psql_city_B, psql_country_B, psql_latitude_B,
      psql_longitude_B, psql_postal_code_B, psql_state_B, psql_times_B]"

definition initiate_db_B :: "real lib \<Rightarrow> real machine \<Rightarrow> real machine \<times> (exn + pyval)" where
  "initiate_db_B np = block (steps_B np @ [commit])"

section \<open>Auxiliary definitions for the proofs\<close>

text \<open>The datetime that is \<open>x\<close> steps of five minutes after midnight of day 1, and the
  times of day of the first 288 of them.\<close>

definition slot :: "int \<Rightarrow> datetime" where
  "slot x = \<lparr>ordinal = 1, dt_hour = (300 * x) div 3600, dt_minute = ((300 * x) mod 3600) div 60,
     dt_second = ((300 * x) mod 3600) mod 60, dt_microsecond = 0\<rparr>"

definition five_minute_times :: "time list" where
  "five_minute_times = map (\<lambda>n. datetime_time (slot (int n))) [0..<288]"

text \<open>A small environment on which the script runs to its commit: two compressed
  source files with Windows line ends, a parser that accepts exactly their decoded
  text, the two answers on standard input and a server that accepts them.\<close>

definition countries_text :: string where
  "countries_text = ''US, United States'' @ [CHR 0x0A] @ ''CA, Canada'' @ [CHR 0x0A]"

text \<open>The rows of the country file: variant A splits a line at \<^verbatim>\<open>', '\<close>, variant B at
  \<^verbatim>\<open>','\<close>, which leaves the blank in front of the name.\<close>

definition example_countries_A :: "(string \<times> string) list" where
  "example_countries_A = [(''US'', ''United States''), (''CA'', ''Canada'')]"

definition example_countries_B :: "(string \<times> string) list" where
  "example_countries_B = [(''US'', '' United States''), (''CA'', '' Canada'')]"

definition locations_text :: string where
  "locations_text =
     ''Postal Code,Place Name,State,State Abbreviation,County,Latitude,Longitude'' @ [CHR 0x0A] @
     ''90210,Beverly Hills,California,CA,Los Angeles,34.0901,-118.4065'' @ [CHR 0x0A] @
     ''10001,New York,New York,NY,New York,40.7484,-73.9967'' @ [CHR 0x0A]"

definition crlf :: "string \<Rightarrow> string" where
  "crlf text = concat (map (\<lambda>c. if c = CHR 0x0A then [CHR 0x0D, CHR 0x0A] else [c]) text)"

text \<open>The records the parser of the example returns for the location file: the two fixed
  by the scenario of the specification, with the coordinates as variant A reads them
  (text) and as variant B reads them (floats).\<close>

definition example_locations_A :: "string location list" where
  "example_locations_A =
     [\<lparr>loc_postal_code = ''90210'', loc_city = ''Beverly Hills'', loc_state = ''CA'',
        loc_latitude = ''34.0901'', loc_longitude = ''-118.4065''\<rparr>,
      \<lparr>loc_postal_code = ''10001'', loc_city = ''New York'', loc_state = ''NY'',
        loc_latitude = ''40.7484'', loc_longitude = ''-73.9967''\<rparr>]"

definition example_locations_B :: "real location list" where
  "example_locations_B =
     [\<lparr>loc_postal_code = ''90210'', loc_city = ''Beverly Hills'', loc_state = ''CA'',
        loc_latitude = 34.0901, loc_longitude = -118.4065\<rparr>,
      \<lparr>loc_postal_code = ''10001'', loc_city = ''New York'', loc_state = ''NY'',
        loc_latitude = 40.7484, loc_longitude = -73.9967\<rparr>]"

definition example_np_A :: "string lib" where
  "example_np_A =
     \<lparr>genfromtxt_countries =
        (\<lambda>t. if t = countries_text then Inr example_countries_A else Inl (ValueError t)),
      genfromtxt_locations =
        (\<lambda>t. if t = locations_text
              then Inr example_locations_A
              else Inl (ValueError t)),
      float_str =
        (\<lambda>r. case map_of [(34.0901, ''34.0901''), (-118.4065, ''-118.4065''),
                            (40.7484, ''40.7484''), (-73.9967, ''-73.9967'')] r of
                Some x \<Rightarrow> x
              | None \<Rightarrow> ''nan'')\<rparr>"

definition example_np_B :: "real lib" where
  "example_np_B =
     \<lparr>genfromtxt_countries =
        (\<lambda>t. if t = countries_text then Inr example_countries_B else Inl (ValueError t)),
      genfromtxt_locations =
        (\<lambda>t. if t = locations_text
              then Inr example_locations_B
              else Inl (ValueError t)),
      float_str = (\<lambda>r. ''nan'')\<rparr>"

definition example_fs :: "string \<rightharpoonup> content" where
  "example_fs =
     [''countries.csv.gz'' \<mapsto> Gz (Raw (crlf countries_text)),
      ''us_postal_codes.csv.gz'' \<mapsto> Gz (Raw (crlf locations_text))]"

text \<open>The server of the example. A double is written as the decimal that Python prints
  for it. Text is stored as it is; \<^verbatim>\<open>CHAR(n)\<close> pads with blanks to \<open>n\<close> characters,
  refuses a longer value unless the excess is blank, and compares without the blanks
  at the end; \<^verbatim>\<open>INTEGER\<close> reads a decimal numeral of 32 bits; a time is stored as it
  is. The floating-point columns are given on the coordinates of the example only
  (and on the latitude written 34.0900 and the coordinates 40.8154, -73.0451):
  \<^verbatim>\<open>DOUBLE PRECISION\<close> reads the text of a coordinate as that double, and \<^verbatim>\<open>REAL\<close>
  rounds a coordinate to the nearest single-precision number, which the comparison
  then widens to a double again.\<close>

definition column_type :: "string \<Rightarrow> string" where
  "column_type decl = drop (Suc (length (column_name decl))) decl"

definition rstrip :: "string \<Rightarrow> string" where
  "rstrip x = rev (dropWhile (\<lambda>c. c = CHR '' '') (rev x))"

definition cast_char :: "nat \<Rightarrow> pyval \<Rightarrow> exn + pyval" where
  "cast_char n v =
     (case v of
        PyStr x \<Rightarrow>
          if length (rstrip x) \<le> n then Inr (PyStr (take n (x @ replicate (n - length x) (CHR '' ''))))
          else Inl (DataError ''value too long for type character'')
      | _ \<Rightarrow> Inl (DataError ''character''))"

definition digit_value :: "char \<Rightarrow> int option" where
  "digit_value c =
     map_of [(CHR ''0'', 0), (CHR ''1'', 1), (CHR ''2'', 2), (CHR ''3'', 3), (CHR ''4'', 4),
             (CHR ''5'', 5), (CHR ''6'', 6), (CHR ''7'', 7), (CHR ''8'', 8), (CHR ''9'', 9)] c"

fun parse_digits :: "int \<Rightarrow> string \<Rightarrow> int option" where
  "parse_digits acc [] = Some acc"
| "parse_digits acc (c # cs) =
     (case digit_value c of None \<Rightarrow> None | Some d \<Rightarrow> parse_digits (10 * acc + d) cs)"

definition parse_int :: "string \<Rightarrow> int option" where
  "parse_int x =
     (case x of
        [] \<Rightarrow> None
      | c # cs \<Rightarrow>
          if c = CHR ''-'' then (if cs = [] then None else map_option uminus (parse_digits 0 cs))
          else parse_digits 0 x)"

definition cast_integer :: "pyval \<Rightarrow> exn + pyval" where
  "cast_integer v =
     (case v of
        PyInt i \<Rightarrow> Inr (PyInt i)
      | PyStr x \<Rightarrow>
          (case parse_int x of
             None \<Rightarrow> Inl (DataError ''invalid input syntax for type integer'')
           | Some i \<Rightarrow>
               if - 2147483648 \<le> i \<and> i \<le> 2147483647 then Inr (PyInt i)
               else Inl (DataError ''value out of range for type integer''))
      | _ \<Rightarrow> Inl (DataError ''integer''))"

definition example_cast :: "string \<Rightarrow> pyval \<Rightarrow> exn + pyval" where
  "example_cast decl v =
     (if column_type decl = ''TEXT''
      then (case v of PyStr x \<Rightarrow> Inr (PyStr x) | _ \<Rightarrow> Inl (DataError ''text''))
      else if column_type decl = ''CHAR(2)'' then cast_char 2 v
      else if column_type decl = ''CHAR(5)'' then cast_char 5 v
      else if column_type decl = ''INTEGER'' then cast_integer v
      else if column_type decl = ''TIME''
      then (case v of PyTime t \<Rightarrow> Inr (PyTime t) | _ \<Rightarrow> Inl (DataError ''time''))
      else if column_type decl = ''DOUBLE PRECISION''
      then (case v of
              PyStr x \<Rightarrow>
                (case map_of [(''34.0901'', 34.0901), (''-118.4065'', -118.4065),
                              (''40.7484'', 40.7484), (''-73.9967'', -73.9967),
                              (''34.0900'', 34.09), (''40.8154'', 40.8154),
                              (''-73.0451'', -73.0451)] x of
                   Some r \<Rightarrow> Inr (PyFloat r)
                 | None \<Rightarrow> Inl (DataError ''double precision''))
            | _ \<Rightarrow> Inl (DataError ''double precision''))
      else if column_type decl = ''REAL''
      then (case v of
              PyFloat r \<Rightarrow>
                (case map_of [(34.0901, 8936515 / 262144), (-118.4065, - 15519777 / 131072),
                              (40.7484, 10681949 / 262144), (-73.9967, - 9698895 / 131072)] r of
                   Some r4 \<Rightarrow> Inr (PyFloat r4)
                 | None \<Rightarrow> Inl (DataError ''real''))
            | _ \<Rightarrow> Inl (DataError ''real''))
      else Inl (DataError decl))"

definition example_equal :: "string \<Rightarrow> pyval \<Rightarrow> pyval \<Rightarrow> bool" where
  "example_equal decl x v =
     (if column_type decl = ''CHAR(2)'' \<or> column_type decl = ''CHAR(5)''
      then (case (x, v) of (PyStr a, PyStr b) \<Rightarrow> rstrip a = rstrip b | _ \<Rightarrow> False)
      else x = v)"

definition example_env :: "'c machine" where
  "example_env =
     \<lparr>city = None, conn = False, country = None, csv_file = None, csv_zipped = True, cur = False,
      db_name = ''iCP_events'', db_pwd = None, db_user = None, latitude = None,
      location_data = None, longitude = None, state = None, postal_code = None, time = None,
      fs = example_fs, stdin = [''Tim'', ''secret''], stdout = [],
      uninitialised = (\<lambda>i f. []),
      accepts = [(''iCP_events'', Some ''Tim'', Some ''secret'')],
      committed = Map.empty, commits = 0, tx = Map.empty, fetched = [],
      sql_cast = example_cast, sql_equal = example_equal\<rparr>"

section \<open>Auxiliary definitions: frames, tables and the address rows\<close>

text \<open>A step keeps a projection \<open>g\<close> of the state when its result state has the
  same \<open>g\<close>, whether the step returns or raises.\<close>

definition keeps :: "('s \<Rightarrow> 'x) \<Rightarrow> ('s \<Rightarrow> 's \<times> 'r) \<Rightarrow> bool" where
  "keeps g m \<longleftrightarrow> (\<forall>s. g (fst (m s)) = g s)"

text \<open>What the server has committed: the number of commits and the committed database.\<close>

definition durable :: "'c machine \<Rightarrow> nat \<times> database" where
  "durable s = (commits s, committed s)"

text \<open>A projection that does not look at the open transaction, the cursor's result set or
  standard output.\<close>

definition db_blind :: "('c machine \<Rightarrow> 'x) \<Rightarrow> bool" where
  "db_blind g \<longleftrightarrow>
     (\<forall>s a. g (s\<lparr>tx := a\<rparr>) = g s) \<and> (\<forall>s a. g (s\<lparr>fetched := a\<rparr>) = g s) \<and>
     (\<forall>s a. g (s\<lparr>stdout := a\<rparr>) = g s)"

text \<open>What the object has loaded, whether it is connected, and the server's handling of
  values.\<close>

definition loaded ::
  "'c machine \<Rightarrow>
     (string list option \<times> (string \<times> string) list option \<times> 'c list option \<times> 'c list option \<times>
      string list option \<times> string list option \<times> 'c location list option \<times> time list option \<times>
      (nat \<Rightarrow> string \<Rightarrow> string) \<times> bool \<times> bool \<times>
      (string \<Rightarrow> pyval \<Rightarrow> exn + pyval) \<times> (string \<Rightarrow> pyval \<Rightarrow> pyval \<Rightarrow> bool))" where
  "loaded s = (city s, country s, latitude s, longitude s, postal_code s, state s, location_data s,
               time s, uninitialised s, cur s, conn s, sql_cast s, sql_equal s)"


section \<open>Tables as the populate steps leave them\<close>

text \<open>What a list comprehension of inserts does to one table: the rows are added in
  order, and the first insert the server refuses ends the loop with its error.\<close>

fun add_rows ::
  "(string \<Rightarrow> pyval \<Rightarrow> exn + pyval) \<Rightarrow> string \<Rightarrow> table \<Rightarrow> string list \<Rightarrow> pyval list list \<Rightarrow> exn + table" where
  "add_rows f n t fl [] = Inr t"
| "add_rows f n t fl (vs # vss) =
     (case add_row f n t fl vs of Inl e \<Rightarrow> Inl e | Inr t' \<Rightarrow> add_rows f n t' fl vss)"

text \<open>The same for the conditional insert of variant B: a row that the server finds
  equal to the values sent keeps them out.\<close>

fun add_rows_absent ::
  "(string \<Rightarrow> pyval \<Rightarrow> exn + pyval) \<Rightarrow> (string \<Rightarrow> pyval \<Rightarrow> pyval \<Rightarrow> bool) \<Rightarrow> string \<Rightarrow> table \<Rightarrow> string list
     \<Rightarrow> pyval list list \<Rightarrow> exn + table" where
  "add_rows_absent f eq n t fl [] = Inr t"
| "add_rows_absent f eq n t fl (vs # vss) =
     (if list_ex (matches eq t fl vs) (rows t) then add_rows_absent f eq n t fl vss
      else (case add_row f n t fl vs of Inl e \<Rightarrow> Inl e | Inr t' \<Rightarrow> add_rows_absent f eq n t' fl vss))"

text \<open>A table as \<^verbatim>\<open>CREATE TABLE\<close> leaves it.\<close>

definition fresh :: "bool \<Rightarrow> string list \<Rightarrow> string list \<Rightarrow> table" where
  "fresh ser sch uniq = \<lparr>serial = ser, schema = sch, unique = uniq, next_id = 1, rows = []\<rparr>"

text \<open>The tables that \<^verbatim>\<open>psql_tables\<close> creates, in the order of creation.\<close>

definition created_A :: "(string \<times> table) list" where
  "created_A =
     map (\<lambda>x. (fst x, fresh True (snd x) [])) tables_A @
     [(''address'',
       fresh False
         (map join_pair
            (filter (\<lambda>x. fst x \<in> set [''city'', ''state'', ''postal_code'', ''latitude'', ''longitude''])
               composite_A))
         [''city'', ''state'', ''postal_code'']),
      (''events'', fresh False (map join_pair composite_A)
         [''event'', ''city'', ''postal_code'', ''event_date''])]"

definition created_B :: "(string \<times> table) list" where
  "created_B =
     map (\<lambda>x. (fst x, fresh True (snd x) [])) tables_B @ [(''event'', fresh False composite_B [])]"

text \<open>The fields that \<^verbatim>\<open>load_locations\<close> sets from the parsed records \<open>locs\<close>.\<close>

definition holds_locations :: "('c::linorder) location list \<Rightarrow> 'c machine \<Rightarrow> bool" where
  "holds_locations locs s \<longleftrightarrow>
     location_data s = Some locs \<and>
     city s = Some (np_unique (map loc_city locs)) \<and>
     state s = Some (np_unique (map loc_state locs)) \<and>
     postal_code s = Some (np_unique (map loc_postal_code locs)) \<and>
     latitude s = Some (np_unique (map loc_latitude locs)) \<and>
     longitude s = Some (np_unique (map loc_longitude locs))"

text \<open>A lookup table created by \<^verbatim>\<open>psql_tables\<close> and then sent the parameter lists
  \<open>pss\<close>, by plain inserts (variant A) or by conditional inserts (variant B).\<close>

definition filled ::
  "(string \<Rightarrow> pyval \<Rightarrow> exn + pyval) \<Rightarrow> string \<Rightarrow> string list \<Rightarrow> pyval list list \<Rightarrow> exn + table" where
  "filled f n sch pss = add_rows f n (fresh True sch []) (map column_name sch) pss"

definition filled_absent ::
  "(string \<Rightarrow> pyval \<Rightarrow> exn + pyval) \<Rightarrow> (string \<Rightarrow> pyval \<Rightarrow> pyval \<Rightarrow> bool) \<Rightarrow> string \<Rightarrow> string list
     \<Rightarrow> pyval list list \<Rightarrow> exn + table" where
  "filled_absent f eq n sch pss =
     add_rows_absent f eq n (fresh True sch []) (map column_name sch) pss"

text \<open>The parameter lists that the populate steps send for each lookup table; the
  tables without a populate step are sent nothing.\<close>

definition sent_A :: "string location list \<Rightarrow> (string \<times> string) list \<Rightarrow> time list \<Rightarrow> string \<Rightarrow> pyval list list" where
  "sent_A locs cs ts n =
     (if n = ''city'' then map (\<lambda>x. [PyStr x]) (np_unique (map loc_city locs))
      else if n = ''country'' then map (\<lambda>x. [PyStr (fst x), PyStr (snd x)]) cs
      else if n = ''latitude'' then map (\<lambda>x. [PyStr x]) (np_unique (map loc_latitude locs))
      else if n = ''longitude'' then map (\<lambda>x. [PyStr x]) (np_unique (map loc_longitude locs))
      else if n = ''postal_code'' then map (\<lambda>x. [PyStr x]) (np_unique (map loc_postal_code locs))
      else if n = ''state'' then map (\<lambda>x. [PyStr x]) (np_unique (map loc_state locs))
      else if n = ''event_time'' then map (\<lambda>x. [PyTime x]) ts
      else [])"

definition sent_B :: "real location list \<Rightarrow> (string \<times> string) list \<Rightarrow> time list \<Rightarrow> string \<Rightarrow> pyval list list" where
  "sent_B locs cs ts n =
     (if n = ''city'' then map (\<lambda>x. [PyStr x]) (np_unique (map loc_city locs))
      else if n = ''country'' then map (\<lambda>x. [PyStr (fst x), PyStr (snd x)]) cs
      else if n = ''latitude'' then map (\<lambda>x. [PyFloat x]) (np_unique (map loc_latitude locs))
      else if n = ''longitude'' then map (\<lambda>x. [PyFloat x]) (np_unique (map loc_longitude locs))
      else if n = ''postal_code'' then map (\<lambda>x. [PyStr x]) (np_unique (map loc_postal_code locs))
      else if n = ''state'' then map (\<lambda>x. [PyStr x]) (np_unique (map loc_state locs))
      else if n = ''times'' then map (\<lambda>x. [PyTime x]) ts
      else [])"

text \<open>The ten lookup tables after the populate steps, or the error of the first
  insert that the server refuses.\<close>

definition lookups_A ::
  "(string \<Rightarrow> pyval \<Rightarrow> exn + pyval) \<Rightarrow> string location list \<Rightarrow> (string \<times> string) list \<Rightarrow> time list
     \<Rightarrow> exn + (string \<times> table) list" where
  "lookups_A f locs cs ts =
     collect (map (\<lambda>(n, sch). case filled f n sch (sent_A locs cs ts n) of
                                  Inl e \<Rightarrow> Inl e
                                | Inr t \<Rightarrow> Inr (n, t))
                  tables_A)"

definition lookups_B ::
  "(string \<Rightarrow> pyval \<Rightarrow> exn + pyval) \<Rightarrow> (string \<Rightarrow> pyval \<Rightarrow> pyval \<Rightarrow> bool) \<Rightarrow> real location list
     \<Rightarrow> (string \<times> string) list \<Rightarrow> time list \<Rightarrow> exn + (string \<times> table) list" where
  "lookups_B f eq locs cs ts =
     collect (map (\<lambda>(n, sch). case filled_absent f eq n sch (sent_B locs cs ts n) of
                                  Inl e \<Rightarrow> Inl e
                                | Inr t \<Rightarrow> Inr (n, t))
                  tables_B)"

text \<open>The composite tables as \<^verbatim>\<open>psql_tables\<close> creates them.\<close>

definition address_created :: table where
  "address_created =
     fresh False
       [''city INTEGER'', ''state INTEGER'', ''postal_code INTEGER'', ''latitude INTEGER'',
        ''longitude INTEGER'']
       [''city'', ''state'', ''postal_code'']"

definition events_created :: table where
  "events_created =
     fresh False (map join_pair composite_A) [''event'', ''city'', ''postal_code'', ''event_date'']"

definition composites_A :: "(string \<times> table) list" where
  "composites_A = [(''address'', address_created), (''events'', events_created)]"

definition composites_B :: "(string \<times> table) list" where
  "composites_B = [(''event'', fresh False composite_B [])]"

text \<open>
  \<^verbatim>\<open>idx_sub\<close> for one cell. The loop over the fetched rows assigns \<^verbatim>\<open>values[0]\<close> to the
  cell whenever \<^verbatim>\<open>str(values[1])\<close> equals the value of the record, so the last such row
  wins; the cell is a \<^verbatim>\<open>U6\<close> string and keeps six characters. \<open>None\<close>: no row matched and
  the cell was never assigned.
\<close>

fun resolve :: "(real \<Rightarrow> string) \<Rightarrow> pyval list list \<Rightarrow> string \<Rightarrow> string option" where
  "resolve fstr [] x = None"
| "resolve fstr (vals # rest) x =
     (case resolve fstr rest x of
        Some c \<Rightarrow> Some c
      | None \<Rightarrow>
          (case vals of
             v0 # v1 # _ \<Rightarrow> if py_str fstr v1 = x then Some (take 6 (py_str fstr v0)) else None
           | _ \<Rightarrow> None))"

text \<open>The record array \<^verbatim>\<open>addresses\<close> after the five calls of \<^verbatim>\<open>idx_sub\<close>: a cell that
  no row matched still holds what \<^verbatim>\<open>np.recarray\<close> was allocated with.\<close>

definition address_cells ::
  "(real \<Rightarrow> string) \<Rightarrow> (nat \<Rightarrow> string \<Rightarrow> string) \<Rightarrow> database \<Rightarrow> string location list \<Rightarrow> string list list" where
  "address_cells fstr un db locs =
     map (\<lambda>i. map (\<lambda>n. case (db n, location_field n) of
                          (Some t, Some get) \<Rightarrow>
                            (case resolve fstr (rows t) (get (locs ! i)) of
                               Some c \<Rightarrow> c
                             | None \<Rightarrow> take 6 (un i n))
                        | _ \<Rightarrow> take 6 (un i n))
                   address_fields)
         [0..<length locs]"

text \<open>The address table of variant A after \<^verbatim>\<open>psql_address\<close>, and all tables of
  variant A after the run.\<close>

definition address_filled ::
  "(string \<Rightarrow> pyval \<Rightarrow> exn + pyval) \<Rightarrow> (real \<Rightarrow> string) \<Rightarrow> (nat \<Rightarrow> string \<Rightarrow> string) \<Rightarrow> (string \<times> table) list
     \<Rightarrow> string location list \<Rightarrow> exn + table" where
  "address_filled f fstr un L locs =
     add_rows f ''address'' address_created address_fields
       (map (map PyStr) (address_cells fstr un (map_of L) locs))"

definition final_A :: "(string \<times> table) list \<Rightarrow> table \<Rightarrow> (string \<times> table) list" where
  "final_A L ta = L @ [(''address'', ta), (''events'', events_created)]"

text \<open>Closed forms: a table with the rows \<open>vss\<close> added under consecutive serial ids,
  and the values a row of parameters is stored as.\<close>

definition appended :: "table \<Rightarrow> pyval list list \<Rightarrow> table" where
  "appended t vss =
     t\<lparr>next_id := next_id t + length vss,
       rows := rows t @ map (\<lambda>(i, vs). PyInt (int i) # vs)
                          (zip [next_id t ..< next_id t + length vss] vss)\<rparr>"

definition lookup_table :: "string list \<Rightarrow> pyval list list \<Rightarrow> table" where
  "lookup_table sch vss = appended (fresh True sch []) vss"

definition stored_row :: "(string \<Rightarrow> pyval \<Rightarrow> exn + pyval) \<Rightarrow> string list \<Rightarrow> pyval list \<Rightarrow> exn + pyval list" where
  "stored_row f sch vs = collect (map (\<lambda>(d, v). f d v) (zip sch vs))"

definition cast_all ::
  "(string \<Rightarrow> pyval \<Rightarrow> exn + pyval) \<Rightarrow> string list \<Rightarrow> pyval list list \<Rightarrow> exn + pyval list list" where
  "cast_all f sch pss = collect (map (stored_row f sch) pss)"

text \<open>A lookup table: the serial id and the declared columns, no constraint.\<close>

definition lookup_shape :: "table \<Rightarrow> bool" where
  "lookup_shape t \<longleftrightarrow>
     serial t \<and> unique t = [] \<and> distinct (map column_name (schema t)) \<and>
     ''id'' \<notin> set (map column_name (schema t))"

section \<open>The tables of the example\<close>

text \<open>The tables that the example run of variant A commits.\<close>

definition example_tables_A :: "(string \<times> table) list" where
  "example_tables_A =
     [(''city'', lookup_table [''value TEXT''] [[PyStr ''Beverly Hills''], [PyStr ''New York'']]),
      (''country'', lookup_table [''value CHAR(2)'', ''name TEXT'']
                      [[PyStr ''US'', PyStr ''United States''], [PyStr ''CA'', PyStr ''Canada'']]),
      (''event'', fresh True [''value TEXT''] []),
      (''event_date'', fresh True [''value DATE''] []),
      (''event_time'', lookup_table [''value TIME''] (map (\<lambda>x. [PyTime x]) five_minute_times)),
      (''latitude'', lookup_table [''value DOUBLE PRECISION''] [[PyFloat 34.0901], [PyFloat 40.7484]]),
      (''longitude'', lookup_table [''value DOUBLE PRECISION''] [[PyFloat (-118.4065)], [PyFloat (-73.9967)]]),
      (''postal_code'', lookup_table [''value CHAR(5)''] [[PyStr ''10001''], [PyStr ''90210'']]),
      (''state'', lookup_table [''value CHAR(2)''] [[PyStr ''CA''], [PyStr ''NY'']]),
      (''url'', fresh True [''value TEXT''] [])]"

definition example_address :: table where
  "example_address =
     address_created\<lparr>next_id := 3,
       rows := [[PyInt 1, PyInt 1, PyInt 2, PyInt 1, PyInt 1],
                [PyInt 2, PyInt 2, PyInt 1, PyInt 2, PyInt 2]]\<rparr>"

text \<open>The conditional insert sent twice. \<open>row_equal\<close>: the server finds the stored row
  \<open>ws\<close> equal to the values \<open>vs\<close>, column by column. \<open>count_rows\<close>: the number of rows that it
  finds equal to \<open>vs\<close>. \<open>inserted_once\<close>: both executions return, the second leaves the
  tables as they are, and one row of the table is found equal to \<open>vs\<close>.\<close>

definition row_equal ::
  "(string \<Rightarrow> pyval \<Rightarrow> pyval \<Rightarrow> bool) \<Rightarrow> string list \<Rightarrow> pyval list \<Rightarrow> pyval list \<Rightarrow> bool" where
  "row_equal eq sch ws vs \<longleftrightarrow>
     list_all (\<lambda>(d, w, v). v \<noteq> PyNone \<and> w \<noteq> PyNone \<and> eq d w v) (zip sch (zip ws vs))"



text \<open>The lookup tables that the example run of variant B commits. The coordinates are
  the single-precision numbers that the \<^verbatim>\<open>REAL\<close> columns store.\<close>

definition example_tables_B :: "(string \<times> table) list" where
  "example_tables_B =
     [(''city'', lookup_table [''city_name TEXT''] [[PyStr ''Beverly Hills''], [PyStr ''New York'']]),
      (''country'', lookup_table [''country_abbr CHAR(2)'', ''country_name TEXT'']
                      [[PyStr ''US'', PyStr '' United States''], [PyStr ''CA'', PyStr '' Canada'']]),
      (''dates'', fresh True [''dates_value DATE''] []),
      (''events'', fresh True [''event_name TEXT''] []),
      (''latitude'', lookup_table [''latitude_value REAL'']
                       [[PyFloat (8936515 / 262144)], [PyFloat (10681949 / 262144)]]),
      (''longitude'', lookup_table [''longitude_value REAL'']
                        [[PyFloat (- 15519777 / 131072)], [PyFloat (- 9698895 / 131072)]]),
      (''postal_code'', lookup_table [''postal_code_value CHAR(5)'']
                          [[PyStr ''10001''], [PyStr ''90210'']]),
      (''state'', lookup_table [''state_name CHAR(2)''] [[PyStr ''CA''], [PyStr ''NY'']]),
      (''times'', lookup_table [''time_value TIME''] (map (\<lambda>x. [PyTime x]) five_minute_times)),
      (''url'', fresh True [''url_name TEXT''] [])]"


section \<open>The cells of the address table\<close>









section \<open>The time generator: lemmas\<close>

lemma slot_fields:
  "dt_hour (slot x) = x div 12" "dt_minute (slot x) = 5 * (x mod 12)" "dt_second (slot x) = 0"
  "dt_microsecond (slot x) = 0" "ordinal (slot x) = 1"
proof -
  have h: "(300 * x) div 3600 = x div 12"
    using div_mult_mult1[of "300::int" x 12] by simp
  have m: "(300 * x) mod 3600 = 300 * (x mod 12)"
    using mult_mod_right[of "300::int" x 12] by simp
  have d: "(300 * (x mod 12)) div 60 = 5 * (x mod 12)"
    using div_mult_mult1[of "60::int" "5 * (x mod 12)" 1] by simp
  have e: "(300 * (x mod 12)) mod 60 = 0"
    by simp
  show "dt_hour (slot x) = x div 12" by (simp add: slot_def h)
  show "dt_minute (slot x) = 5 * (x mod 12)" by (simp add: slot_def m d)
  show "dt_second (slot x) = 0" by (simp add: slot_def m e)
  show "dt_microsecond (slot x) = 0" "ordinal (slot x) = 1" by (simp_all add: slot_def)
qed

lemma since_midnight_slot:
  "since_midnight (datetime_time (slot x)) = 300000000 * x"
proof -
  define q r where "q = x div 12" and "r = x mod 12"
  have "x = 12 * q + r" by (simp add: q_def r_def)
  then have "(q * 60 + 5 * r) * 60 = 300 * x" by (simp add: algebra_simps)
  then show ?thesis unfolding q_def r_def
    by (simp add: since_midnight_def datetime_time_def slot_fields)
qed

lemma time_lt_slot:
  assumes "x < y"
  shows "time_lt (datetime_time (slot x)) (datetime_time (slot y))"
proof -
  define q r q' r' where "q = x div 12" and "r = x mod 12" and "q' = y div 12" and "r' = y mod 12"
  have x: "x = 12 * q + r" and y: "y = 12 * q' + r'" by (simp_all add: q_def r_def q'_def r'_def)
  have "q \<le> q'" using assms by (simp add: zdiv_mono1 q_def q'_def)
  moreover have "q = q' \<Longrightarrow> r < r'" using x y assms by linarith
  ultimately have "x div 12 < y div 12 \<or> (x div 12 = y div 12 \<and> x mod 12 < y mod 12)"
    unfolding q_def r_def q'_def r'_def by linarith
  then show ?thesis
    by (auto simp: time_lt_def datetime_time_def slot_fields)
qed

lemma slot_range:
  assumes "0 \<le> x" "x < 288"
  shows "0 \<le> dt_hour (slot x) \<and> dt_hour (slot x) < 24 \<and> 0 \<le> dt_minute (slot x) \<and> dt_minute (slot x) < 60
         \<and> dt_second (slot x) = 0 \<and> dt_microsecond (slot x) = 0"
proof -
  define q r where "q = x div 12" and "r = x mod 12"
  have x: "x = 12 * q + r" by (simp add: q_def r_def)
  have r: "0 \<le> r" "r < 12" by (simp_all add: r_def)
  have "0 \<le> q" "q < 24" using x r assms by linarith+
  then show ?thesis using r by (simp add: slot_fields q_def r_def)
qed


lemma comprehension_map:
  "(\<And>x. x \<in> set xs \<Longrightarrow> f x = Inr (g x)) \<Longrightarrow> comprehension f xs = Inr (map g xs)"
  by (induction xs) auto

lemma slot_step:
  assumes "0 \<le> x" "x < 288"
  shows "(case timedelta_mul \<lparr>days = 0, seconds = 300, microseconds = 0\<rparr> x of
            Inl e \<Rightarrow> Inl e | Inr d \<Rightarrow> datetime_add datetime_1_1_1 d) = Inr (slot x)"
proof -
  have a: "(x * 300) div 86400 = 0" "(x * 300) mod 86400 = x * 300" using assms by auto
  show ?thesis
    using a by (simp add: timedelta_mul_def timedelta_new_def datetime_add_def datetime_1_1_1_def
        MAXORDINAL_def slot_def Let_def mult.commute)
qed

lemma day_times_eq: "day_times = Inr (map slot (map int [0..<288]))"
proof -
  have d: "timedelta_minutes 5 = Inr \<lparr>days = 0, seconds = 300, microseconds = 0\<rparr>"
    by (simp add: timedelta_minutes_def timedelta_new_def)
  show ?thesis
    unfolding day_times_def d
    by (simp only: sum.case, rule comprehension_map) (auto intro!: slot_step)
qed

lemma load_times_body_eq:
  "load_times_body s = (s\<lparr>time := Some five_minute_times\<rparr>, Inr PyNone)"
  by (simp add: load_times_body_def day_times_eq five_minute_times_def comp_def)

lemma load_times_eq:
  "load_times s =
     (s\<lparr>time := Some five_minute_times,
        stdout := stdout s @ [execute_msg ''load_times'' @ [CHR 0x0A], complete_msg ''load_times'' @ [CHR 0x0A]]\<rparr>,
      Inr PyNone)"
  by (simp add: load_times_def status_def load_times_body_eq print_def)

lemma time_lt_irrefl: "\<not> time_lt t t"
  by (auto simp: time_lt_def)

lemma length_five: "length five_minute_times = 288"
  by (simp add: five_minute_times_def)

lemma nth_five: "i < 288 \<Longrightarrow> five_minute_times ! i = datetime_time (slot (int i))"
  by (simp add: five_minute_times_def)

lemma five_increasing:
  "i < j \<Longrightarrow> j < 288 \<Longrightarrow> time_lt (five_minute_times ! i) (five_minute_times ! j)"
  by (simp add: nth_five time_lt_slot)

lemma five_distinct: "distinct five_minute_times"
proof -
  have "five_minute_times ! i \<noteq> five_minute_times ! j" if a: "i < 288" "j < 288" "i \<noteq> j" for i j
  proof -
    from a consider "i < j" | "j < i" by linarith
    then show ?thesis
    proof cases
      case 1
      from five_increasing[OF 1 a(2)] show ?thesis using time_lt_irrefl by auto
    next
      case 2
      from five_increasing[OF 2 a(1)] show ?thesis using time_lt_irrefl by auto
    qed
  qed
  then show ?thesis by (simp add: distinct_conv_nth length_five)
qed

section \<open>The time generator and the status decorator: results\<close>

text \<open>
  C5. \<^verbatim>\<open>load_times\<close> always returns, and stores one and the same list whatever
  the state: 288 times of day, beginning with 00:00:00, strictly increasing (so without
  duplicates), each 5 minutes (300 000 000 microseconds) after the one before, all with
  an hour below 24, so that no entry is 24:00 and the list stays inside one day.
\<close>

theorem load_times_sequence:
  "\<exists>ts. (\<forall>s :: 'c machine. snd (load_times s) = Inr PyNone \<and> time (fst (load_times s)) = Some ts) \<and>
        length ts = 288 \<and>
        ts ! 0 = \<lparr>hour = 0, minute = 0, second = 0, microsecond = 0\<rparr> \<and>
        (\<forall>i j. i < j \<and> j < length ts \<longrightarrow> time_lt (ts ! i) (ts ! j)) \<and>
        (\<forall>i. i + 1 < length ts \<longrightarrow>
           since_midnight (ts ! (i + 1)) - since_midnight (ts ! i) = 5 * 60 * 1000000) \<and>
        distinct ts \<and>
        (\<forall>t \<in> set ts. 0 \<le> hour t \<and> hour t < 24 \<and> 0 \<le> minute t \<and> minute t < 60 \<and>
                       second t = 0 \<and> microsecond t = 0)"
proof (intro exI[of _ five_minute_times] conjI allI ballI impI)
  fix s :: "'c machine"
  show "snd (load_times s) = Inr PyNone" by (simp add: load_times_eq)
  show "time (fst (load_times s)) = Some five_minute_times" by (simp add: load_times_eq)
next
  show "length five_minute_times = 288" by (rule length_five)
  show "five_minute_times ! 0 = \<lparr>hour = 0, minute = 0, second = 0, microsecond = 0\<rparr>"
    by (simp add: nth_five datetime_time_def slot_def)
  show "distinct five_minute_times" by (rule five_distinct)
next
  fix i j assume "i < j \<and> j < length five_minute_times"
  then show "time_lt (five_minute_times ! i) (five_minute_times ! j)"
    by (simp add: five_increasing length_five)
next
  fix i assume "i + 1 < length five_minute_times"
  then have i: "i < 288" "Suc i < 288" by (simp_all add: length_five)
  have "since_midnight (five_minute_times ! Suc i) - since_midnight (five_minute_times ! i)
        = 300000000 * int (Suc i) - 300000000 * int i"
    by (simp only: nth_five[OF i(1)] nth_five[OF i(2)] since_midnight_slot)
  then show "since_midnight (five_minute_times ! (i + 1)) - since_midnight (five_minute_times ! i)
             = 5 * 60 * 1000000"
    by simp
next
  fix t assume "t \<in> set five_minute_times"
  then obtain i where i: "i < 288" "t = datetime_time (slot (int i))"
    by (auto simp: five_minute_times_def)
  then have "0 \<le> int i" "int i < 288" by simp_all
  from slot_range[OF this] i(2) show "0 \<le> hour t" "hour t < 24" "0 \<le> minute t" "minute t < 60"
    "second t = 0" "microsecond t = 0" by (simp_all add: datetime_time_def)
qed

theorem load_times_sequence_witness:
  "\<exists>ts. time (fst (load_times (example_env :: string machine))) = Some ts \<and>
        ts ! 1 = \<lparr>hour = 0, minute = 5, second = 0, microsecond = 0\<rparr> \<and>
        ts ! 287 = \<lparr>hour = 23, minute = 55, second = 0, microsecond = 0\<rparr> \<and>
        time_lt (ts ! 0) (ts ! 1) \<and> time_lt (ts ! 1) (ts ! 287) \<and>
        since_midnight (ts ! 1) - since_midnight (ts ! 0) = 300000000"
proof -
  from load_times_sequence [where 'c = string] obtain ts where
    run: "\<forall>s :: string machine. snd (load_times s) = Inr PyNone \<and> time (fst (load_times s)) = Some ts"
    and len: "length ts = 288"
    and inc: "\<forall>i j. i < j \<and> j < length ts \<longrightarrow> time_lt (ts ! i) (ts ! j)"
    and step: "\<forall>i. i + 1 < length ts \<longrightarrow>
           since_midnight (ts ! (i + 1)) - since_midnight (ts ! i) = 5 * 60 * 1000000"
    by blast
  from run have ts: "ts = five_minute_times" by (simp add: load_times_eq)
  have "ts ! 1 = \<lparr>hour = 0, minute = 5, second = 0, microsecond = 0\<rparr>"
    "ts ! 287 = \<lparr>hour = 23, minute = 55, second = 0, microsecond = 0\<rparr>"
    by (simp_all add: ts nth_five datetime_time_def slot_def)
  moreover have "time_lt (ts ! 0) (ts ! 1)" "time_lt (ts ! 1) (ts ! 287)"
    using inc len by simp_all
  moreover have "since_midnight (ts ! 1) - since_midnight (ts ! 0) = 300000000"
    using step [rule_format, of 0] len by simp
  ultimately show ?thesis using run by blast
qed

text \<open>
  C9. Whatever function \<open>func\<close> a method decorated with \<^verbatim>\<open>status()\<close> wraps, the
  line \<^verbatim>\<open>Execute: name\<close> is on standard output when \<open>func\<close> starts, the line
  \<^verbatim>\<open>Complete: name\<close> is written after everything \<open>func\<close> left there, whether
  \<open>func\<close> returned or raised, and an exception of \<open>func\<close> reaches the caller
  unchanged.
\<close>

theorem status_prints_before_and_after:
  "\<exists>s1 r1.
     func (s\<lparr>stdout := stdout s @ [[CHR 0x0A] @ ''Execute: '' @ func_name @ [CHR 0x0A]]\<rparr>) = (s1, r1) \<and>
     fst (status func_name func s) =
       s1\<lparr>stdout := stdout s1 @ [''Complete: '' @ func_name @ [CHR 0x0A, CHR 0x0A]]\<rparr> \<and>
     (\<forall>e. r1 = Inl e \<longrightarrow> snd (status func_name func s) = Inl e)"
  by (cases "func (print (execute_msg func_name) s)")
     (auto simp: status_def print_def execute_msg_def complete_msg_def split: sum.splits)

theorem status_prints_before_and_after_witness:
  "fst (status ''psql_city'' (\<lambda>s. (s, Inl (UndefinedTable ''city'') :: exn + pyval))
          (example_env :: string machine)) =
     example_env\<lparr>stdout := [[CHR 0x0A] @ ''Execute: psql_city'' @ [CHR 0x0A],
                              ''Complete: psql_city'' @ [CHR 0x0A, CHR 0x0A]]\<rparr> \<and>
   snd (status ''psql_city'' (\<lambda>s. (s, Inl (UndefinedTable ''city'') :: exn + pyval))
          (example_env :: string machine)) =
     Inl (UndefinedTable ''city'')"
  using status_prints_before_and_after
    [of "\<lambda>s. (s, Inl (UndefinedTable ''city'') :: exn + pyval)" "example_env :: string machine" "''psql_city''"]
  by (simp add: example_env_def)

text \<open>
  C10. A call of a method decorated with \<^verbatim>\<open>status()\<close> that returns, returns
  \<^verbatim>\<open>None\<close>: whatever value the wrapped function returned is dropped.
\<close>

theorem status_returns_None:
  "(\<forall>v. snd (status func_name func s) = Inr v \<longrightarrow> v = PyNone) \<and>
   (\<forall>x. snd (func (print (execute_msg func_name) s)) = Inr x \<longrightarrow>
        snd (status func_name func s) = Inr PyNone)"
  by (cases "func (print (execute_msg func_name) s)") (auto simp: status_def split: sum.splits)

theorem status_returns_None_witness:
  "snd (status ''table_select'' (\<lambda>s. (s, Inr [[PyInt 1, PyStr ''CA'']])) (example_env :: string machine)) =
     Inr PyNone"
  using status_returns_None
    [of "''table_select''" "\<lambda>s. (s, Inr [[PyInt 1, PyStr ''CA'']])" "example_env :: string machine"]
  by simp

section \<open>Reading the sources: lemmas\<close>

text \<open>What the four readers do in a default run whose compressed source exists.\<close>

lemma load_countries_A_default:
  assumes "csv_zipped s" "fs s ''countries.csv.gz'' = Some (Gz (Raw text))"
  shows "load_countries_A np s =
     (case genfromtxt_countries np (remove_cr text) of
        Inl e \<Rightarrow>
          (s\<lparr>csv_file := Some ''countries.csv'',
             fs := (fs s)(''countries.csv'' \<mapsto> Raw (remove_cr text)),
             stdout := stdout s @ [execute_msg ''load_countries'' @ [CHR 0x0A],
                                   complete_msg ''load_countries'' @ [CHR 0x0A]]\<rparr>, Inl e)
      | Inr found \<Rightarrow>
          (s\<lparr>csv_file := Some ''countries.csv'',
             fs := (fs s)(''countries.csv'' := None),
             country := Some found,
             stdout := stdout s @ [execute_msg ''load_countries'' @ [CHR 0x0A],
                                   complete_msg ''load_countries'' @ [CHR 0x0A]]\<rparr>, Inr PyNone))"
  using assms
  by (simp add: load_countries_A_def status_def bind_def assign_def unzip_def zip_file_def
      genfromtxt_def print_def format_name_def split: sum.splits)

lemma load_countries_B_default:
  assumes "csv_zipped s" "fs s ''countries.csv.gz'' = Some (Gz (Raw text))"
  shows "load_countries_B np s =
     (case genfromtxt_countries np (remove_cr text) of
        Inl e \<Rightarrow>
          (s\<lparr>csv_file := Some ''countries.csv'',
             fs := (fs s)(''countries.csv'' \<mapsto> Raw (remove_cr text)),
             stdout := stdout s @ [execute_msg ''load_countries'' @ [CHR 0x0A],
                                   complete_msg ''load_countries'' @ [CHR 0x0A]]\<rparr>, Inl e)
      | Inr found \<Rightarrow>
          (s\<lparr>csv_file := Some ''countries.csv'',
             fs := (fs s)(''countries.csv'' \<mapsto> Raw (remove_cr text)),
             country := Some found,
             stdout := stdout s @ [execute_msg ''load_countries'' @ [CHR 0x0A],
                                   complete_msg ''load_countries'' @ [CHR 0x0A]]\<rparr>, Inr PyNone))"
  using assms
  by (simp add: load_countries_B_def status_def bind_def assign_def unzip_def
      genfromtxt_def print_def format_name_def split: sum.splits)

lemma load_locations_A_default:
  assumes "csv_zipped s" "fs s ''us_postal_codes.csv.gz'' = Some (Gz (Raw text))"
  shows "load_locations_A np s =
     (case genfromtxt_locations np (remove_cr text) of
        Inl e \<Rightarrow>
          (s\<lparr>csv_file := Some ''us_postal_codes.csv'',
             fs := (fs s)(''us_postal_codes.csv'' \<mapsto> Raw (remove_cr text)),
             stdout := stdout s @ [execute_msg ''load_locations'' @ [CHR 0x0A],
                                   complete_msg ''load_locations'' @ [CHR 0x0A]]\<rparr>, Inl e)
      | Inr loc \<Rightarrow>
          (store_locations loc
            (s\<lparr>csv_file := Some ''us_postal_codes.csv'',
               fs := (fs s)(''us_postal_codes.csv'' := None),
               stdout := stdout s @ [execute_msg ''load_locations'' @ [CHR 0x0A],
                                     complete_msg ''load_locations'' @ [CHR 0x0A]]\<rparr>), Inr PyNone))"
  using assms
  by (simp add: load_locations_A_def status_def bind_def assign_def unzip_def zip_file_def
      genfromtxt_def print_def format_name_def store_locations_def split: sum.splits)

lemma load_locations_B_default:
  assumes "csv_zipped s" "fs s ''us_postal_codes.csv.gz'' = Some (Gz (Raw text))"
  shows "load_locations_B np s =
     (case genfromtxt_locations np (remove_cr text) of
        Inl e \<Rightarrow>
          (s\<lparr>csv_file := Some ''us_postal_codes.csv'',
             fs := (fs s)(''us_postal_codes.csv'' \<mapsto> Raw (remove_cr text)),
             stdout := stdout s @ [execute_msg ''load_locations'' @ [CHR 0x0A],
                                   complete_msg ''load_locations'' @ [CHR 0x0A]]\<rparr>, Inl e)
      | Inr loc \<Rightarrow>
          (store_locations loc
            (s\<lparr>csv_file := Some ''us_postal_codes.csv'',
               fs := (fs s)(''us_postal_codes.csv'' \<mapsto> Raw (remove_cr text)),
               stdout := stdout s @ [execute_msg ''load_locations'' @ [CHR 0x0A],
                                     complete_msg ''load_locations'' @ [CHR 0x0A]]\<rparr>), Inr PyNone))"
  using assms
  by (simp add: load_locations_B_def status_def bind_def assign_def unzip_def
      genfromtxt_def print_def format_name_def store_locations_def split: sum.splits)

section \<open>Reading the sources: results\<close>

text \<open>
  C7, as the code has it. In a default run of variant A whose compressed source exists,
  \<^verbatim>\<open>load_countries\<close> and \<^verbatim>\<open>load_locations\<close> remove the decoded file that
  \<^verbatim>\<open>unzip\<close> wrote when the parser returns; when the parser raises, the exception
  leaves the method before \<^verbatim>\<open>zip_file\<close> is reached and the decoded file stays.
\<close>

theorem decoded_file_removed_when_parsed_A:
  "(csv_zipped s \<and> fs s ''countries.csv.gz'' = Some (Gz (Raw text)) \<longrightarrow>
      (case genfromtxt_countries np (remove_cr text) of
         Inr found \<Rightarrow>
           snd (load_countries_A np s) = Inr PyNone \<and>
           fs (fst (load_countries_A np s)) ''countries.csv'' = None
       | Inl e \<Rightarrow>
           snd (load_countries_A np s) = Inl e \<and>
           fs (fst (load_countries_A np s)) ''countries.csv'' = Some (Raw (remove_cr text)))) \<and>
   (csv_zipped s \<and> fs s ''us_postal_codes.csv.gz'' = Some (Gz (Raw text')) \<longrightarrow>
      (case genfromtxt_locations np (remove_cr text') of
         Inr loc \<Rightarrow>
           snd (load_locations_A np s) = Inr PyNone \<and>
           fs (fst (load_locations_A np s)) ''us_postal_codes.csv'' = None
       | Inl e \<Rightarrow>
           snd (load_locations_A np s) = Inl e \<and>
           fs (fst (load_locations_A np s)) ''us_postal_codes.csv'' = Some (Raw (remove_cr text'))))"
  by (auto simp: load_countries_A_default load_locations_A_default store_locations_def
      split: sum.splits)

theorem decoded_file_removed_when_parsed_A_witness:
  "snd (load_countries_A example_np_A example_env) = Inr PyNone \<and>
   fs (fst (load_countries_A example_np_A example_env)) ''countries.csv'' = None \<and>
   snd (load_locations_A example_np_A example_env) = Inr PyNone \<and>
   fs (fst (load_locations_A example_np_A example_env)) ''us_postal_codes.csv'' = None"
proof -
  have z: "csv_zipped (example_env :: string machine)"
    and c: "fs (example_env :: string machine) ''countries.csv.gz'' = Some (Gz (Raw (crlf countries_text)))"
    and l: "fs (example_env :: string machine) ''us_postal_codes.csv.gz'' = Some (Gz (Raw (crlf locations_text)))"
    by (simp_all add: example_env_def example_fs_def)
  have p: "remove_cr (crlf countries_text) = countries_text"
          "remove_cr (crlf locations_text) = locations_text"
    by (simp_all add: remove_cr_def crlf_def countries_text_def locations_text_def)
  show ?thesis
    using decoded_file_removed_when_parsed_A
          [of "example_env :: string machine" "crlf countries_text" example_np_A "crlf locations_text"]
    by (simp add: z c l p example_np_A_def)
qed

text \<open>Against C7 as it is stated: a country file whose only row has no name column makes
  the parser of the example raise, and variant A ends with the decoded copy on disk;
  variant B, which never calls its \<^verbatim>\<open>zip\<close>, leaves the copy even when all goes well.\<close>

theorem decoded_file_left_behind_counterexample:
  "snd (load_countries_A example_np_A
          (example_env\<lparr>fs := [''countries.csv.gz'' \<mapsto> Gz (Raw ''US'')]\<rparr>)) = Inl (ValueError ''US'') \<and>
   fs (fst (load_countries_A example_np_A
          (example_env\<lparr>fs := [''countries.csv.gz'' \<mapsto> Gz (Raw ''US'')]\<rparr>))) ''countries.csv''
     = Some (Raw ''US'') \<and>
   snd (load_countries_B example_np_B example_env) = Inr PyNone \<and>
   fs (fst (load_countries_B example_np_B example_env)) ''countries.csv'' = Some (Raw countries_text)"
  by (simp add: load_countries_A_def load_countries_B_def status_def bind_def assign_def unzip_def
      zip_file_def genfromtxt_def print_def format_name_def example_env_def example_fs_def
      example_np_A_def example_np_B_def remove_cr_def crlf_def countries_text_def)

text \<open>
  C8, as the code has it. With \<^verbatim>\<open>csv_zipped = True\<close> the guard of \<^verbatim>\<open>zip_file\<close>
  skips the compression, so \<^verbatim>\<open>zip_file\<close> only removes the decoded file; it writes
  the compressed file only when \<^verbatim>\<open>csv_zipped = False\<close>. Hence after a reader of
  variant A has parsed its source in a default run, the files are the ones there were
  before, the compressed source untouched and no decoded file; after a reader of
  variant B, the decoded file lies beside the untouched compressed source.
\<close>

theorem default_run_never_compresses:
  "(csv_file s = Some f \<and> fs s f = Some c \<longrightarrow>
      fs (fst (zip_file s)) =
        (if csv_zipped s then (fs s)(f := None) else (fs s)(f @ ''.gz'' \<mapsto> Gz c, f := None))) \<and>
   (csv_zipped s \<and> fs s ''countries.csv.gz'' = Some (Gz (Raw text)) \<and>
    genfromtxt_countries np (remove_cr text) = Inr found \<longrightarrow>
      fs (fst (load_countries_A np s)) = (fs s)(''countries.csv'' := None) \<and>
      fs (fst (load_countries_B np s)) = (fs s)(''countries.csv'' \<mapsto> Raw (remove_cr text))) \<and>
   (csv_zipped s \<and> fs s ''us_postal_codes.csv.gz'' = Some (Gz (Raw text')) \<and>
    genfromtxt_locations np (remove_cr text') = Inr loc \<longrightarrow>
      fs (fst (load_locations_A np s)) = (fs s)(''us_postal_codes.csv'' := None) \<and>
      fs (fst (load_locations_B np s)) = (fs s)(''us_postal_codes.csv'' \<mapsto> Raw (remove_cr text')))"
  by (auto simp: load_countries_A_default load_locations_A_default load_countries_B_default
      load_locations_B_default store_locations_def zip_file_def)

theorem default_run_never_compresses_witness:
  "fs (fst (load_countries_A example_np_A example_env)) = example_fs \<and>
   fs (fst (load_countries_B example_np_A example_env)) =
     example_fs(''countries.csv'' \<mapsto> Raw countries_text) \<and>
   fs (fst (load_locations_A example_np_A example_env)) = example_fs \<and>
   fs (fst (load_locations_B example_np_A example_env)) =
     example_fs(''us_postal_codes.csv'' \<mapsto> Raw locations_text) \<and>
   fs (fst (zip_file (example_env\<lparr>csv_file := Some ''countries.csv'', csv_zipped := False,
                                    fs := [''countries.csv'' \<mapsto> Raw countries_text]\<rparr> :: string machine))) =
     [''countries.csv.gz'' \<mapsto> Gz (Raw countries_text)]"
proof -
  have z: "csv_zipped (example_env :: string machine)"
    and c: "example_fs ''countries.csv.gz'' = Some (Gz (Raw (crlf countries_text)))"
    and l: "example_fs ''us_postal_codes.csv.gz'' = Some (Gz (Raw (crlf locations_text)))"
    and e: "fs (example_env :: string machine) = example_fs"
    by (simp_all add: example_env_def example_fs_def)
  have p: "remove_cr (crlf countries_text) = countries_text"
          "remove_cr (crlf locations_text) = locations_text"
    by (simp_all add: remove_cr_def crlf_def countries_text_def locations_text_def)
  have n: "example_fs(''countries.csv'' := None) = example_fs"
          "example_fs(''us_postal_codes.csv'' := None) = example_fs"
    by (auto simp: example_fs_def)
  have a: "fs (fst (load_countries_A example_np_A example_env)) = example_fs \<and>
     fs (fst (load_countries_B example_np_A example_env)) =
       example_fs(''countries.csv'' \<mapsto> Raw countries_text) \<and>
     fs (fst (load_locations_A example_np_A example_env)) = example_fs \<and>
     fs (fst (load_locations_B example_np_A example_env)) =
       example_fs(''us_postal_codes.csv'' \<mapsto> Raw locations_text)"
    using default_run_never_compresses
          [of "example_env :: string machine" "''countries.csv''" "Raw countries_text"
              "crlf countries_text" example_np_A example_countries_A "crlf locations_text"
              example_locations_A]
    by (simp add: z c l e p n example_np_A_def)
  have b: "fs (fst (zip_file (example_env\<lparr>csv_file := Some ''countries.csv'', csv_zipped := False,
                                    fs := [''countries.csv'' \<mapsto> Raw countries_text]\<rparr> :: string machine))) =
     [''countries.csv.gz'' \<mapsto> Gz (Raw countries_text)]"
    using default_run_never_compresses
          [of "example_env\<lparr>csv_file := Some ''countries.csv'', csv_zipped := False,
                 fs := [''countries.csv'' \<mapsto> Raw countries_text]\<rparr> :: string machine"
              "''countries.csv''" "Raw countries_text"]
    by (auto simp: fun_eq_iff)
  from a b show ?thesis by blast
qed

text \<open>Against C8 as it is stated: after variant A has read the example's country file,
  the compressed file is still the one with Windows line ends, not the compression of
  the decoded text that \<^verbatim>\<open>unzip\<close> wrote.\<close>

theorem source_not_recompressed_counterexample:
  "snd (load_countries_A example_np_A example_env) = Inr PyNone \<and>
   fs (fst (load_countries_A example_np_A example_env)) ''countries.csv.gz'' =
     fs (example_env :: string machine) ''countries.csv.gz'' \<and>
   fs (fst (load_countries_A example_np_A example_env)) ''countries.csv.gz'' \<noteq>
     Some (Gz (Raw (remove_cr (crlf countries_text))))"
  by (simp add: load_countries_A_def status_def bind_def assign_def unzip_def
      zip_file_def genfromtxt_def print_def format_name_def example_env_def example_fs_def
      example_np_A_def remove_cr_def crlf_def countries_text_def)

section \<open>Frames: what a step leaves alone\<close>

lemma keepsI: "(\<And>s. g (fst (m s)) = g s) \<Longrightarrow> keeps g m"
  by (simp add: keeps_def)

lemma keepsD: "keeps g m \<Longrightarrow> g (fst (m s)) = g s"
  by (simp add: keeps_def)

lemma keeps_bind: "keeps g m \<Longrightarrow> (\<And>a. keeps g (f a)) \<Longrightarrow> keeps g (bind m f)"
  unfolding keeps_def bind_def
  by (auto split: prod.splits sum.splits) (metis fst_conv)+

lemma keeps_block: "(\<And>c. c \<in> set cs \<Longrightarrow> keeps g c) \<Longrightarrow> keeps g (block cs)"
proof (induction cs)
  case Nil
  show ?case by (simp add: keeps_def)
next
  case (Cons c cs)
  have c: "keeps g c" and cs: "keeps g (block cs)" using Cons by simp_all
  show ?case
    unfolding keeps_def
  proof
    fix s
    obtain s1 r where m: "c s = (s1, r)" by (cases "c s")
    have "g s1 = g s" using keepsD[OF c, of s] m by simp
    then show "g (fst (block (c # cs) s)) = g s"
      using m keepsD[OF cs, of s1] by (cases r) simp_all
  qed
qed

lemma keeps_for_each: "(\<And>x. keeps g (f x)) \<Longrightarrow> keeps g (for_each f xs)"
proof (induction xs)
  case Nil
  show ?case by (simp add: keeps_def)
next
  case (Cons x xs)
  have c: "keeps g (f x)" and cs: "keeps g (for_each f xs)" using Cons by simp_all
  show ?case
    unfolding keeps_def
  proof
    fix s
    obtain s1 r where m: "f x s = (s1, r)" by (cases "f x s")
    have "g s1 = g s" using keepsD[OF c, of s] m by simp
    then show "g (fst (for_each f (x # xs) s)) = g s"
      using m keepsD[OF cs, of s1] by (cases r) simp_all
  qed
qed

lemma keeps_for_in: "(\<And>x. keeps g (f x)) \<Longrightarrow> keeps g (for_in attr f)"
  using keeps_for_each[of g f] by (auto simp: keeps_def for_in_def split: option.splits)

lemma keeps_for_in_array: "(\<And>x. keeps g (f x)) \<Longrightarrow> keeps g (for_in_array attr f)"
  using keeps_for_each[of g f] by (auto simp: keeps_def for_in_array_def split: option.splits)

lemma keeps_raise: "keeps g (\<lambda>s. (s, Inl e))"
  by (simp add: keeps_def)

lemma keeps_assign: "(\<And>s. g (f s) = g s) \<Longrightarrow> keeps g (assign f)"
  by (simp add: keeps_def assign_def)

lemma keeps_status:
  assumes "keeps g func" "\<And>msg s. g (print msg s) = g s"
  shows "keeps g (status n func)"
  unfolding keeps_def
proof
  fix s
  obtain s1 r where m: "func (print (execute_msg n) s) = (s1, r)"
    by (cases "func (print (execute_msg n) s)")
  have "g s1 = g s" using keepsD[OF assms(1), of "print (execute_msg n) s"] m assms(2) by simp
  then show "g (fst (status n func s)) = g s"
    using m assms(2) by (cases r) (simp_all add: status_def)
qed

lemma db_blind_durable: "db_blind durable"
  by (simp add: db_blind_def durable_def)

lemma db_blind_loaded: "db_blind loaded"
  by (simp add: db_blind_def loaded_def)

lemma db_blind_print: "db_blind g \<Longrightarrow> g (print msg s) = g s"
  by (simp add: db_blind_def print_def)

lemma keeps_execute: "db_blind g \<Longrightarrow> keeps g (execute cmd ps)"
  by (auto simp: keeps_def execute_def db_blind_def split: sum.splits)

lemma keeps_fetchall: "db_blind g \<Longrightarrow> keeps g fetchall"
  by (auto simp: keeps_def fetchall_def db_blind_def)

lemma durable_print [simp]: "durable (print msg s) = durable s"
  by (simp add: durable_def print_def)

lemma keeps_durable_input: "keeps durable (input prompt)"
  by (auto simp: keeps_def input_def durable_def split: list.splits)

lemma keeps_durable_unzip: "keeps durable unzip"
  by (auto simp: keeps_def unzip_def durable_def split: option.splits content.splits)

lemma keeps_durable_zip_file: "keeps durable zip_file"
  by (auto simp: keeps_def zip_file_def durable_def split: option.splits sum.splits)

lemma keeps_durable_genfromtxt: "keeps durable (genfromtxt parse)"
  by (auto simp: keeps_def genfromtxt_def durable_def split: option.splits content.splits)

lemma keeps_table_select: "db_blind g \<Longrightarrow> keeps g (table_select n ret search v)"
  unfolding table_select_def
  by (intro keeps_bind) (auto simp: keeps_execute keeps_fetchall)

lemmas keeps_intros = keeps_bind keeps_block keeps_for_each keeps_for_in keeps_for_in_array
  keeps_assign keeps_status
  keeps_execute keeps_fetchall keeps_durable_input keeps_durable_unzip
  keeps_durable_zip_file keeps_durable_genfromtxt keeps_table_select durable_print
  db_blind_durable db_blind_print

lemma keeps_durable_load_countries_A: "keeps durable (load_countries_A np)"
  unfolding load_countries_A_def
  by (intro keeps_intros) (auto intro!: keeps_intros simp: durable_def)

lemma keeps_durable_load_countries_B: "keeps durable (load_countries_B np)"
  unfolding load_countries_B_def
  by (intro keeps_intros) (auto intro!: keeps_intros simp: durable_def)

lemma keeps_durable_load_locations_A: "keeps durable (load_locations_A np)"
  unfolding load_locations_A_def
  by (intro keeps_intros) (auto intro!: keeps_intros simp: durable_def store_locations_def)

lemma keeps_durable_load_locations_B: "keeps durable (load_locations_B np)"
  unfolding load_locations_B_def
  by (intro keeps_intros) (auto intro!: keeps_intros simp: durable_def store_locations_def)

lemma keeps_durable_load_times: "keeps durable load_times"
  by (simp add: keeps_def load_times_eq durable_def)

lemma keeps_durable_get_user: "keeps durable get_user"
  unfolding get_user_def
  by (intro keeps_intros) (auto simp: durable_def)

lemma keeps_durable_get_password: "keeps durable get_password"
  unfolding get_password_def
  by (intro keeps_intros) (auto simp: durable_def)

lemma keeps_durable_psql_connection: "keeps durable psql_connection"
  by (simp add: keeps_def psql_connection_def durable_def)

lemma keeps_psql_tables_A: "db_blind g \<Longrightarrow> keeps g psql_tables_A"
  unfolding psql_tables_A_def
  by (intro keeps_intros) (auto intro!: keeps_intros)

lemma keeps_psql_tables_B: "db_blind g \<Longrightarrow> keeps g psql_tables_B"
  unfolding psql_tables_B_def
  by (intro keeps_intros) (auto intro!: keeps_intros)

lemma keeps_populate_A:
  assumes "db_blind g"
  shows "keeps g psql_city_A" "keeps g psql_country_A" "keeps g psql_latitude_A"
  "keeps g psql_longitude_A" "keeps g psql_postal_code_A" "keeps g psql_state_A"
  "keeps g psql_times_A"
  unfolding psql_city_A_def psql_country_A_def psql_latitude_A_def psql_longitude_A_def
    psql_postal_code_A_def psql_state_A_def psql_times_A_def
  using assms
  by (intro keeps_status keeps_for_in keeps_for_in_array keeps_execute db_blind_print; assumption)+

lemma keeps_populate_B:
  assumes "db_blind g"
  shows "keeps g psql_city_B" "keeps g psql_country_B" "keeps g psql_latitude_B"
  "keeps g psql_longitude_B" "keeps g psql_postal_code_B" "keeps g psql_state_B"
  "keeps g psql_times_B"
  unfolding psql_city_B_def psql_country_B_def psql_latitude_B_def psql_longitude_B_def
    psql_postal_code_B_def psql_state_B_def psql_times_B_def
  using assms
  by (intro keeps_status keeps_for_in keeps_for_in_array keeps_execute db_blind_print; assumption)+

lemma keeps_idx_sub:
  assumes "db_blind g"
  shows "keeps g (idx_sub np n translate addresses)"
proof (rule keepsI)
  fix s :: "string machine"
  have "g (fst (table_select n ''*'' None PyNone (print (''   '' @ n) s))) = g s"
    using keepsD[OF keeps_table_select[OF assms], of n "''*''" None PyNone "print (''   '' @ n) s"]
      db_blind_print[OF assms]
    by simp
  then show "g (fst (idx_sub np n translate addresses s)) = g s"
    by (auto simp: idx_sub_def split: option.splits prod.splits sum.splits)
qed

lemma keeps_idx_loop:
  assumes "db_blind g"
  shows "keeps g (idx_loop np ns addresses)"
proof (rule keepsI)
  fix s
  show "g (fst (idx_loop np ns addresses s)) = g s"
  proof (induction ns arbitrary: addresses s)
    case Nil
    show ?case by simp
  next
    case (Cons n ns)
    obtain s1 r1 where a: "table_select n ''*'' None PyNone s = (s1, r1)"
      by (cases "table_select n ''*'' None PyNone s")
    have d1: "g s1 = g s"
      using keepsD[OF keeps_table_select[OF assms], of n "''*''" None PyNone s] a by simp
    show ?case
    proof (cases r1)
      case (Inl e)
      then show ?thesis using a d1 by simp
    next
      case (Inr translate)
      obtain s2 r2 where b: "idx_sub np n translate addresses s1 = (s2, r2)"
        by (cases "idx_sub np n translate addresses s1")
      have d2: "g s2 = g s1"
        using keepsD[OF keeps_idx_sub[OF assms], of np n translate addresses s1] b by simp
      show ?thesis using a b Inr d1 d2 Cons.IH by (cases r2) simp_all
    qed
  qed
qed

lemma keeps_psql_address_A:
  assumes "db_blind g"
  shows "keeps g (psql_address_A np)"
proof -
  let ?body = "\<lambda>s. case location_data s of
               None \<Rightarrow> (s, Inl (AttributeError ''shape''))
             | Some locs \<Rightarrow>
                 bind (idx_loop np address_fields (new_addresses s (length locs)))
                   (\<lambda>addresses.
                      if length locs = 1
                      then (\<lambda>s'. (s', Inl (TypeError ''iteration over a 0-d array'')))
                      else for_each (\<lambda>a. execute (table_insert ''address'' (Lst address_fields))
                                           (map PyStr a)) addresses)
                   s"
  have "keeps g ?body"
  proof (rule keepsI)
    fix s :: "string machine"
    show "g (fst (?body s)) = g s"
    proof (cases "location_data s")
      case None
      then show ?thesis by simp
    next
      case (Some locs)
      have "keeps g (bind (idx_loop np address_fields (new_addresses s (length locs)))
                   (\<lambda>addresses.
                      if length locs = 1
                      then (\<lambda>s'. (s', Inl (TypeError ''iteration over a 0-d array'')))
                      else for_each (\<lambda>a. execute (table_insert ''address'' (Lst address_fields))
                                           (map PyStr a)) addresses))"
        using assms
        by (intro keeps_bind keeps_idx_loop) (auto intro: keeps_raise keeps_for_each keeps_execute)
      from keepsD[OF this, of s] Some show ?thesis by simp
    qed
  qed
  then show ?thesis
    unfolding psql_address_A_def using assms by (intro keeps_status db_blind_print)
qed

lemma keeps_durable_steps_A: "c \<in> set (steps_A np) \<Longrightarrow> keeps durable c"
  unfolding steps_A_def
  using keeps_durable_load_countries_A keeps_durable_load_locations_A keeps_durable_load_times
    keeps_durable_get_user keeps_durable_get_password keeps_durable_psql_connection
    keeps_psql_tables_A[OF db_blind_durable] keeps_populate_A[OF db_blind_durable]
    keeps_psql_address_A[OF db_blind_durable]
  by auto

lemma keeps_durable_steps_B: "c \<in> set (steps_B np) \<Longrightarrow> keeps durable c"
  unfolding steps_B_def
  using keeps_durable_load_countries_B keeps_durable_load_locations_B keeps_durable_load_times
    keeps_durable_get_user keeps_durable_get_password keeps_durable_psql_connection
    keeps_psql_tables_B[OF db_blind_durable] keeps_populate_B[OF db_blind_durable]
  by auto

text \<open>How a block ends.\<close>

lemma block_append:
  "block (cs @ ds) s =
     (case block cs s of (s', Inl e) \<Rightarrow> (s', Inl e) | (s', Inr _) \<Rightarrow> block ds s')"
  by (induction cs arbitrary: s) (auto split: prod.splits sum.splits)

lemma block_Inr_None: "block cs s = (s', Inr v) \<Longrightarrow> v = PyNone"
  by (induction cs arbitrary: s) (auto split: prod.splits sum.splits)

lemma block_raises:
  "block cs s = (s', Inl e) \<Longrightarrow>
     \<exists>i < length cs. \<exists>si. block (take i cs) s = (si, Inr PyNone) \<and> (cs ! i) si = (s', Inl e)"
proof (induction cs arbitrary: s)
  case Nil
  then show ?case by simp
next
  case (Cons c cs)
  obtain s1 r where m: "c s = (s1, r)" by (cases "c s")
  show ?case
  proof (cases r)
    case (Inl e')
    with Cons.prems m have "s1 = s'" "e' = e" by simp_all
    with m Inl have "block (take 0 (c # cs)) s = (s, Inr PyNone) \<and> ((c # cs) ! 0) s = (s', Inl e)"
      by simp
    then show ?thesis by blast
  next
    case (Inr v)
    with Cons.prems m have "block cs s1 = (s', Inl e)" by simp
    from Cons.IH[OF this] obtain i si where
      i: "i < length cs" "block (take i cs) s1 = (si, Inr PyNone)" "(cs ! i) si = (s', Inl e)"
      by blast
    then have "Suc i < length (c # cs) \<and> block (take (Suc i) (c # cs)) s = (si, Inr PyNone) \<and>
               ((c # cs) ! Suc i) si = (s', Inl e)"
      using m Inr by simp
    then show ?thesis by blast
  qed
qed


section \<open>The example run\<close>

text \<open>The example environment decodes to the text its parser accepts.\<close>

lemma example_parsed:
  "remove_cr (crlf countries_text) = countries_text"
  "remove_cr (crlf locations_text) = locations_text"
  by (simp_all add: remove_cr_def crlf_def countries_text_def locations_text_def)

text \<open>With nothing on standard input the run of variant A ends in \<^verbatim>\<open>get_user\<close>.\<close>

lemma no_answers_A:
  "snd (initiate_db_A example_np_A (example_env\<lparr>stdin := []\<rparr>)) = Inl EOFError"
proof -
  have z: "csv_zipped (example_env\<lparr>stdin := []\<rparr> :: string machine)"
    and c: "fs (example_env\<lparr>stdin := []\<rparr> :: string machine) ''countries.csv.gz'' = Some (Gz (Raw (crlf countries_text)))"
    by (simp_all add: example_env_def example_fs_def)
  have p: "remove_cr (crlf countries_text) = countries_text"
          "remove_cr (crlf locations_text) = locations_text"
    by (simp_all add: remove_cr_def crlf_def countries_text_def locations_text_def)
  show ?thesis
    unfolding initiate_db_A_def steps_A_def
    apply (simp add: load_countries_A_default[OF z c] p example_np_A_def)
    apply (subst load_locations_A_default[of _ "crlf locations_text"])
      apply (simp add: example_env_def)
     apply (simp add: example_env_def example_fs_def)
    apply (simp add: p load_times_eq get_user_def bind_def input_def store_locations_def example_env_def)
    done
qed

section \<open>The order of the steps and the commit\<close>

lemma keeps_durable_prefix:
  assumes "\<And>c. c \<in> set cs \<Longrightarrow> keeps durable c"
  shows "durable (fst (block (take i cs) s)) = durable s"
proof -
  have "keeps durable (block (take i cs))"
    by (rule keeps_block) (use assms in \<open>auto dest: in_set_takeD\<close>)
  then show ?thesis by (rule keepsD)
qed

lemma commit_last:
  assumes k: "\<And>c. c \<in> set cs \<Longrightarrow> keeps durable c"
  shows "case block (cs @ [commit]) s of
     (s', Inr v) \<Rightarrow>
        v = PyNone \<and>
        (\<exists>sn. block cs s = (sn, Inr PyNone) \<and> durable sn = durable s \<and>
              s' = sn\<lparr>committed := tx sn, commits := Suc (commits sn)\<rparr>)
   | (s', Inl e) \<Rightarrow>
        durable s' = durable s \<and>
        (\<exists>i si. i \<le> length cs \<and> block (take i cs) s = (si, Inr PyNone) \<and>
                durable si = durable s \<and> ((cs @ [commit]) ! i) si = (s', Inl e))"
proof -
  obtain sn r where b: "block cs s = (sn, r)" by (cases "block cs s")
  have dn: "durable sn = durable s"
    using keeps_durable_prefix[OF k, of cs "length cs" s] b by simp
  show ?thesis
  proof (cases r)
    case (Inl e)
    from block_raises[OF b[unfolded Inl]] obtain i si where
      i: "i < length cs" "block (take i cs) s = (si, Inr PyNone)" "(cs ! i) si = (sn, Inl e)"
      by blast
    have di: "durable si = durable s"
      using keeps_durable_prefix[OF k, of cs i s] i(2) by simp
    have n: "(cs @ [commit]) ! i = cs ! i" using i(1) by (simp add: nth_append)
    have "block (cs @ [commit]) s = (sn, Inl e)"
      by (simp add: block_append b Inl)
    moreover have "\<exists>i si. i \<le> length cs \<and> block (take i cs) s = (si, Inr PyNone) \<and>
                durable si = durable s \<and> ((cs @ [commit]) ! i) si = (sn, Inl e)"
      using i di n by (intro exI[of _ i] exI[of _ si]) simp
    ultimately show ?thesis using dn by simp
  next
    case (Inr v)
    have v: "v = PyNone" using b[unfolded Inr] by (rule block_Inr_None)
    have a: "block (cs @ [commit]) s = block [commit] sn"
      by (simp add: block_append b Inr)
    show ?thesis
    proof (cases "conn sn")
      case True
      have "block (cs @ [commit]) s =
          (sn\<lparr>committed := tx sn, commits := Suc (commits sn)\<rparr>, Inr PyNone)"
        unfolding a using True by (simp add: commit_def)
      then show ?thesis using b Inr v dn by simp
    next
      case False
      have c: "commit sn = (sn, Inl (AttributeError ''commit''))"
        using False by (simp add: commit_def)
      have "block (cs @ [commit]) s = (sn, Inl (AttributeError ''commit''))"
        unfolding a by (simp add: c)
      moreover have "\<exists>i si. i \<le> length cs \<and> block (take i cs) s = (si, Inr PyNone) \<and>
                durable si = durable s \<and>
                ((cs @ [commit]) ! i) si = (sn, Inl (AttributeError ''commit''))"
        using b Inr v dn c by (intro exI[of _ "length cs"] exI[of _ sn]) simp
      ultimately show ?thesis using dn by simp
    qed
  qed
qed

text \<open>
  C2. \<^verbatim>\<open>initiate_db\<close> calls its steps in order and then \<^verbatim>\<open>self.conn.commit()\<close>,
  with no exception handler. In both variants, for every environment and every state:
  \<^item> when the run returns, every step before the commit has returned, none of them
    committed (the number of commits and the committed database after the last step
    are those at the start), and the final state is the one the single commit makes
    of the state after the last step;
  \<^item> when the run raises \<open>e\<close>, nothing was committed, and \<open>e\<close> is the exception of
    one call, the \<open>i\<close>-th (the commit itself for \<open>i = length steps\<close>): the calls
    before it returned, it raised \<open>e\<close>, and the run ends in the state it left, so that
    no later step ran and none was run again.
\<close>

theorem commit_only_after_every_step:
  "(case initiate_db_A np s of
     (s', Inr v) \<Rightarrow>
        v = PyNone \<and>
        (\<exists>sn. block (steps_A np) s = (sn, Inr PyNone) \<and> durable sn = durable s \<and>
              s' = sn\<lparr>committed := tx sn, commits := Suc (commits sn)\<rparr>)
   | (s', Inl e) \<Rightarrow>
        durable s' = durable s \<and>
        (\<exists>i si. i \<le> length (steps_A np) \<and> block (take i (steps_A np)) s = (si, Inr PyNone) \<and>
                durable si = durable s \<and> ((steps_A np @ [commit]) ! i) si = (s', Inl e))) \<and>
   (case initiate_db_B np' t of
     (t', Inr v) \<Rightarrow>
        v = PyNone \<and>
        (\<exists>tn. block (steps_B np') t = (tn, Inr PyNone) \<and> durable tn = durable t \<and>
              t' = tn\<lparr>committed := tx tn, commits := Suc (commits tn)\<rparr>)
   | (t', Inl e) \<Rightarrow>
        durable t' = durable t \<and>
        (\<exists>i ti. i \<le> length (steps_B np') \<and> block (take i (steps_B np')) t = (ti, Inr PyNone) \<and>
                durable ti = durable t \<and> ((steps_B np' @ [commit]) ! i) ti = (t', Inl e)))"
  unfolding initiate_db_A_def initiate_db_B_def
proof (rule conjI)
  show "case block (steps_A np @ [commit]) s of
     (s', Inr v) \<Rightarrow>
        v = PyNone \<and>
        (\<exists>sn. block (steps_A np) s = (sn, Inr PyNone) \<and> durable sn = durable s \<and>
              s' = sn\<lparr>committed := tx sn, commits := Suc (commits sn)\<rparr>)
   | (s', Inl e) \<Rightarrow>
        durable s' = durable s \<and>
        (\<exists>i si. i \<le> length (steps_A np) \<and> block (take i (steps_A np)) s = (si, Inr PyNone) \<and>
                durable si = durable s \<and> ((steps_A np @ [commit]) ! i) si = (s', Inl e))"
    by (rule commit_last) (rule keeps_durable_steps_A)
  show "case block (steps_B np' @ [commit]) t of
     (t', Inr v) \<Rightarrow>
        v = PyNone \<and>
        (\<exists>tn. block (steps_B np') t = (tn, Inr PyNone) \<and> durable tn = durable t \<and>
              t' = tn\<lparr>committed := tx tn, commits := Suc (commits tn)\<rparr>)
   | (t', Inl e) \<Rightarrow>
        durable t' = durable t \<and>
        (\<exists>i ti. i \<le> length (steps_B np') \<and> block (take i (steps_B np')) t = (ti, Inr PyNone) \<and>
                durable ti = durable t \<and> ((steps_B np' @ [commit]) ! i) ti = (t', Inl e))"
    by (rule commit_last) (rule keeps_durable_steps_B)
qed

theorem commit_only_after_every_step_witness:
  "snd (initiate_db_A example_np_A (example_env\<lparr>stdin := []\<rparr>)) = Inl EOFError \<and>
   commits (fst (initiate_db_A example_np_A (example_env\<lparr>stdin := []\<rparr>))) = 0 \<and>
   committed (fst (initiate_db_A example_np_A (example_env\<lparr>stdin := []\<rparr>))) = Map.empty"
proof -
  obtain s' where r: "initiate_db_A example_np_A (example_env\<lparr>stdin := []\<rparr>) = (s', Inl EOFError)"
    using no_answers_A by (cases "initiate_db_A example_np_A (example_env\<lparr>stdin := []\<rparr>)") auto
  have "durable s' = durable (example_env\<lparr>stdin := []\<rparr> :: string machine)"
    using commit_only_after_every_step[where np = example_np_A and s = "example_env\<lparr>stdin := []\<rparr>"]
    by (simp add: r)
  then have "commits s' = 0 \<and> committed s' = Map.empty"
    by (simp add: durable_def example_env_def)
  then show ?thesis unfolding r by simp
qed

section \<open>Inserts\<close>

lemma add_row_shape:
  assumes "add_row f n t fl vs = Inr t'"
  shows "serial t' = serial t" "schema t' = schema t" "unique t' = unique t"
    "columns t' = columns t" "next_id t' = Suc (next_id t)" "length (rows t') = Suc (length (rows t))"
  using assms by (auto simp: add_row_def columns_def split: sum.splits if_splits)

lemma execute_insert:
  assumes "cur s" "tx s n = Some t" "length fl = length vs" "set fl \<subseteq> set (columns t)"
  shows "execute (InsertInto n fl) vs s =
     (case add_row (sql_cast s) n t fl vs of
        Inl e \<Rightarrow> (s, Inl e)
      | Inr t' \<Rightarrow> (s\<lparr>tx := (tx s)(n \<mapsto> t'), fetched := []\<rparr>, Inr PyNone))"
  using assms by (auto simp: execute_def insert_row_def list_all_iff split: sum.splits)

lemma execute_conditional:
  assumes "cur s" "tx s n = Some t" "length fl = length vs" "set fl \<subseteq> set (columns t)"
  shows "execute (InsertWhereNotExists n fl) (vs @ vs) s =
     (if list_ex (matches (sql_equal s) t fl vs) (rows t) then (s\<lparr>fetched := []\<rparr>, Inr PyNone)
      else (case add_row (sql_cast s) n t fl vs of
              Inl e \<Rightarrow> (s, Inl e)
            | Inr t' \<Rightarrow> (s\<lparr>tx := (tx s)(n \<mapsto> t'), fetched := []\<rparr>, Inr PyNone)))"
  using assms by (auto simp: execute_def insert_row_def list_all_iff split: sum.splits)

lemma for_each_insert:
  assumes "cur s" "tx s n = Some t" "\<And>x. x \<in> set xs \<Longrightarrow> length (ps x) = length fl"
    "set fl \<subseteq> set (columns t)"
  shows "snd (for_each (\<lambda>x. execute (InsertInto n fl) (ps x)) xs s) =
           (case add_rows (sql_cast s) n t fl (map ps xs) of Inl e \<Rightarrow> Inl e | Inr _ \<Rightarrow> Inr PyNone) \<and>
         (\<forall>t'. add_rows (sql_cast s) n t fl (map ps xs) = Inr t' \<longrightarrow>
            tx (fst (for_each (\<lambda>x. execute (InsertInto n fl) (ps x)) xs s)) = (tx s)(n \<mapsto> t'))"
  using assms
proof (induction xs arbitrary: s t)
  case Nil
  then show ?case by (simp add: fun_upd_idem)
next
  case (Cons x xs)
  have e: "execute (InsertInto n fl) (ps x) s =
     (case add_row (sql_cast s) n t fl (ps x) of
        Inl e \<Rightarrow> (s, Inl e)
      | Inr t' \<Rightarrow> (s\<lparr>tx := (tx s)(n \<mapsto> t'), fetched := []\<rparr>, Inr PyNone))"
    using Cons.prems by (intro execute_insert) auto
  show ?case
  proof (cases "add_row (sql_cast s) n t fl (ps x)")
    case (Inl err)
    then show ?thesis using e by simp
  next
    case (Inr t1)
    let ?s1 = "s\<lparr>tx := (tx s)(n \<mapsto> t1), fetched := []\<rparr>"
    have c: "columns t1 = columns t" using Inr by (rule add_row_shape)
    have ih: "snd (for_each (\<lambda>x. execute (InsertInto n fl) (ps x)) xs ?s1) =
           (case add_rows (sql_cast ?s1) n t1 fl (map ps xs) of Inl e \<Rightarrow> Inl e | Inr _ \<Rightarrow> Inr PyNone) \<and>
         (\<forall>t'. add_rows (sql_cast ?s1) n t1 fl (map ps xs) = Inr t' \<longrightarrow>
            tx (fst (for_each (\<lambda>x. execute (InsertInto n fl) (ps x)) xs ?s1)) = (tx ?s1)(n \<mapsto> t'))"
      using Cons.prems c by (intro Cons.IH) auto
    show ?thesis using e Inr ih by simp
  qed
qed

lemma for_each_conditional:
  assumes "cur s" "tx s n = Some t" "\<And>x. x \<in> set xs \<Longrightarrow> length (ps x) = length fl"
    "set fl \<subseteq> set (columns t)"
  shows "snd (for_each (\<lambda>x. execute (InsertWhereNotExists n fl) (ps x @ ps x)) xs s) =
           (case add_rows_absent (sql_cast s) (sql_equal s) n t fl (map ps xs) of
              Inl e \<Rightarrow> Inl e | Inr _ \<Rightarrow> Inr PyNone) \<and>
         (\<forall>t'. add_rows_absent (sql_cast s) (sql_equal s) n t fl (map ps xs) = Inr t' \<longrightarrow>
            tx (fst (for_each (\<lambda>x. execute (InsertWhereNotExists n fl) (ps x @ ps x)) xs s)) =
              (tx s)(n \<mapsto> t'))"
  using assms
proof (induction xs arbitrary: s t)
  case Nil
  then show ?case by (simp add: fun_upd_idem)
next
  case (Cons x xs)
  have e: "execute (InsertWhereNotExists n fl) (ps x @ ps x) s =
     (if list_ex (matches (sql_equal s) t fl (ps x)) (rows t) then (s\<lparr>fetched := []\<rparr>, Inr PyNone)
      else (case add_row (sql_cast s) n t fl (ps x) of
              Inl e \<Rightarrow> (s, Inl e)
            | Inr t' \<Rightarrow> (s\<lparr>tx := (tx s)(n \<mapsto> t'), fetched := []\<rparr>, Inr PyNone)))"
    using Cons.prems by (intro execute_conditional) auto
  show ?case
  proof (cases "list_ex (matches (sql_equal s) t fl (ps x)) (rows t)")
    case True
    let ?s1 = "s\<lparr>fetched := []\<rparr>"
    have ih: "snd (for_each (\<lambda>x. execute (InsertWhereNotExists n fl) (ps x @ ps x)) xs ?s1) =
           (case add_rows_absent (sql_cast ?s1) (sql_equal ?s1) n t fl (map ps xs) of
              Inl e \<Rightarrow> Inl e | Inr _ \<Rightarrow> Inr PyNone) \<and>
         (\<forall>t'. add_rows_absent (sql_cast ?s1) (sql_equal ?s1) n t fl (map ps xs) = Inr t' \<longrightarrow>
            tx (fst (for_each (\<lambda>x. execute (InsertWhereNotExists n fl) (ps x @ ps x)) xs ?s1)) =
              (tx ?s1)(n \<mapsto> t'))"
      using Cons.prems by (intro Cons.IH) auto
    show ?thesis using e True ih by simp
  next
    case False
    show ?thesis
    proof (cases "add_row (sql_cast s) n t fl (ps x)")
      case (Inl err)
      then show ?thesis using e False by simp
    next
      case (Inr t1)
      let ?s1 = "s\<lparr>tx := (tx s)(n \<mapsto> t1), fetched := []\<rparr>"
      have c: "columns t1 = columns t" using Inr by (rule add_row_shape)
      have ih: "snd (for_each (\<lambda>x. execute (InsertWhereNotExists n fl) (ps x @ ps x)) xs ?s1) =
           (case add_rows_absent (sql_cast ?s1) (sql_equal ?s1) n t1 fl (map ps xs) of
              Inl e \<Rightarrow> Inl e | Inr _ \<Rightarrow> Inr PyNone) \<and>
         (\<forall>t'. add_rows_absent (sql_cast ?s1) (sql_equal ?s1) n t1 fl (map ps xs) = Inr t' \<longrightarrow>
            tx (fst (for_each (\<lambda>x. execute (InsertWhereNotExists n fl) (ps x @ ps x)) xs ?s1)) =
              (tx ?s1)(n \<mapsto> t'))"
        using Cons.prems c by (intro Cons.IH) auto
      show ?thesis using e False Inr ih by simp
    qed
  qed
qed

lemma execute_drop:
  "cur s \<Longrightarrow> execute (DropTable n) [] s = (s\<lparr>tx := (tx s)(n := None), fetched := []\<rparr>, Inr PyNone)"
  by (simp add: execute_def)

lemma execute_create:
  "cur s \<Longrightarrow> tx s n = None \<Longrightarrow>
   execute (CreateTable n ser sch uniq) [] s =
     (s\<lparr>tx := (tx s)(n \<mapsto> fresh ser sch uniq), fetched := []\<rparr>, Inr PyNone)"
  by (simp add: execute_def fresh_def)

lemma for_each_drop:
  "cur s \<Longrightarrow> \<exists>fe. for_each (\<lambda>x. execute (DropTable x) []) ns s =
     (s\<lparr>tx := (\<lambda>n. if n \<in> set ns then None else tx s n), fetched := fe\<rparr>, Inr PyNone)"
proof (induction ns arbitrary: s)
  case Nil
  have "for_each (\<lambda>x. execute (DropTable x) []) [] s =
        (s\<lparr>tx := (\<lambda>n. if n \<in> set [] then None else tx s n), fetched := fetched s\<rparr>, Inr PyNone)"
    by simp
  then show ?case by blast
next
  case (Cons n ns)
  let ?s' = "s\<lparr>tx := (tx s)(n := None), fetched := []\<rparr>"
  have "cur ?s'" using Cons.prems by simp
  from Cons.IH[OF this] obtain fe where f: "for_each (\<lambda>x. execute (DropTable x) []) ns ?s' =
     (?s'\<lparr>tx := (\<lambda>m. if m \<in> set ns then None else tx ?s' m), fetched := fe\<rparr>, Inr PyNone)" by blast
  have g: "?s'\<lparr>tx := (\<lambda>m. if m \<in> set ns then None else tx ?s' m), fetched := fe\<rparr> =
           s\<lparr>tx := (\<lambda>m. if m \<in> set (n # ns) then None else tx s m), fetched := fe\<rparr>"
    by (auto simp: fun_eq_iff)
  have "for_each (\<lambda>x. execute (DropTable x) []) (n # ns) s =
     (s\<lparr>tx := (\<lambda>m. if m \<in> set (n # ns) then None else tx s m), fetched := fe\<rparr>, Inr PyNone)"
    using execute_drop[OF Cons.prems, of n] f unfolding g by simp
  then show ?case by blast
qed

lemma for_each_create:
  assumes "cur s" "distinct (map fst ts)" "\<And>x. x \<in> set ts \<Longrightarrow> tx s (fst x) = None"
  shows "\<exists>fe. for_each (\<lambda>x. execute (CreateTable (fst x) ser (snd x) uniq) []) ts s =
     (s\<lparr>tx := tx s ++ map_of (map (\<lambda>x. (fst x, fresh ser (snd x) uniq)) ts), fetched := fe\<rparr>, Inr PyNone)"
  using assms
proof (induction ts arbitrary: s)
  case Nil
  have "for_each (\<lambda>x. execute (CreateTable (fst x) ser (snd x) uniq) []) [] s =
     (s\<lparr>tx := tx s ++ map_of (map (\<lambda>x. (fst x, fresh ser (snd x) uniq)) []), fetched := fetched s\<rparr>, Inr PyNone)"
    by simp
  then show ?case by blast
next
  case (Cons x ts)
  let ?s' = "s\<lparr>tx := (tx s)(fst x \<mapsto> fresh ser (snd x) uniq), fetched := []\<rparr>"
  have e: "execute (CreateTable (fst x) ser (snd x) uniq) [] s = (?s', Inr PyNone)"
    using Cons.prems by (intro execute_create) auto
  have nd: "fst x \<notin> fst ` set ts" using Cons.prems(2) by simp
  have "\<exists>fe. for_each (\<lambda>x. execute (CreateTable (fst x) ser (snd x) uniq) []) ts ?s' =
     (?s'\<lparr>tx := tx ?s' ++ map_of (map (\<lambda>x. (fst x, fresh ser (snd x) uniq)) ts), fetched := fe\<rparr>, Inr PyNone)"
  proof (rule Cons.IH)
    show "cur ?s'" using Cons.prems(1) by simp
    show "distinct (map fst ts)" using Cons.prems(2) by simp
    fix y assume y: "y \<in> set ts"
    then have "fst y \<noteq> fst x" using nd by (metis imageI)
    then show "tx ?s' (fst y) = None" using Cons.prems(3)[of y] y by simp
  qed
  then obtain fe where f: "for_each (\<lambda>x. execute (CreateTable (fst x) ser (snd x) uniq) []) ts ?s' =
     (?s'\<lparr>tx := tx ?s' ++ map_of (map (\<lambda>x. (fst x, fresh ser (snd x) uniq)) ts), fetched := fe\<rparr>, Inr PyNone)"
    by blast
  have "tx ?s' ++ map_of (map (\<lambda>x. (fst x, fresh ser (snd x) uniq)) ts) =
        tx s ++ map_of (map (\<lambda>x. (fst x, fresh ser (snd x) uniq)) (x # ts))"
  proof
    fix m
    show "(tx ?s' ++ map_of (map (\<lambda>x. (fst x, fresh ser (snd x) uniq)) ts)) m =
          (tx s ++ map_of (map (\<lambda>x. (fst x, fresh ser (snd x) uniq)) (x # ts))) m"
    proof (cases "m = fst x")
      case True
      have "map_of (map (\<lambda>x. (fst x, fresh ser (snd x) uniq)) ts) (fst x) = None"
        using nd by (simp add: map_of_eq_None_iff image_image)
      then show ?thesis using True by (simp add: map_add_def)
    next
      case False
      then show ?thesis by (simp add: map_add_def split: option.splits)
    qed
  qed
  then have g: "?s'\<lparr>tx := tx ?s' ++ map_of (map (\<lambda>x. (fst x, fresh ser (snd x) uniq)) ts), fetched := fe\<rparr> =
           s\<lparr>tx := tx s ++ map_of (map (\<lambda>x. (fst x, fresh ser (snd x) uniq)) (x # ts)), fetched := fe\<rparr>"
    by simp
  have "for_each (\<lambda>x. execute (CreateTable (fst x) ser (snd x) uniq) []) (x # ts) s =
     (s\<lparr>tx := tx s ++ map_of (map (\<lambda>x. (fst x, fresh ser (snd x) uniq)) (x # ts)), fetched := fe\<rparr>, Inr PyNone)"
    using e f unfolding g by simp
  then show ?case by blast
qed

lemma status_returns:
  "func (print (execute_msg n) s) = (s', Inr v) \<Longrightarrow> status n func s = (print (complete_msg n) s', Inr PyNone)"
  by (simp add: status_def)

lemma status_raises:
  "func (print (execute_msg n) s) = (s', Inl e) \<Longrightarrow> status n func s = (print (complete_msg n) s', Inl e)"
  by (simp add: status_def)

lemma print_fields [simp]:
  "cur (print msg s) = cur s" "tx (print msg s) = tx s" "conn (print msg s) = conn s"
  "city (print msg s) = city s" "country (print msg s) = country s"
  "latitude (print msg s) = latitude s" "longitude (print msg s) = longitude s"
  "postal_code (print msg s) = postal_code s" "state (print msg s) = state s"
  "time (print msg s) = time s" "location_data (print msg s) = location_data s"
  "committed (print msg s) = committed s" "commits (print msg s) = commits s"
  "uninitialised (print msg s) = uninitialised s"
  "sql_cast (print msg s) = sql_cast s" "sql_equal (print msg s) = sql_equal s"
  by (simp_all add: print_def)

lemma psql_tables_A_run:
  assumes "cur s"
  shows "snd (psql_tables_A s) = Inr PyNone \<and> tx (fst (psql_tables_A s)) = tx s ++ map_of created_A"
proof -
  let ?s0 = "print (execute_msg ''psql_tables'') s"
  have c0: "cur ?s0" using assms by simp
  from for_each_drop[OF c0, of "map fst tables_A"] obtain fe1 where
    1: "for_each (\<lambda>x. execute (table_drop x) []) (map fst tables_A) ?s0 =
        (?s0\<lparr>tx := (\<lambda>n. if n \<in> set (map fst tables_A) then None else tx ?s0 n), fetched := fe1\<rparr>, Inr PyNone)"
    unfolding table_drop_def by blast
  let ?s1 = "?s0\<lparr>tx := (\<lambda>n. if n \<in> set (map fst tables_A) then None else tx ?s0 n), fetched := fe1\<rparr>"
  have "\<exists>fe. for_each (\<lambda>x. execute (CreateTable (fst x) True (snd x) []) []) tables_A ?s1 =
     (?s1\<lparr>tx := tx ?s1 ++ map_of (map (\<lambda>x. (fst x, fresh True (snd x) [])) tables_A), fetched := fe\<rparr>, Inr PyNone)"
    using c0 by (intro for_each_create) (auto simp: tables_A_def)
  then obtain fe2 where
    2: "for_each (\<lambda>x. execute (table_create (fst x) (snd x) True None) []) tables_A ?s1 =
     (?s1\<lparr>tx := tx ?s1 ++ map_of (map (\<lambda>x. (fst x, fresh True (snd x) [])) tables_A), fetched := fe2\<rparr>, Inr PyNone)"
    unfolding table_create_def by auto
  let ?s2 = "?s1\<lparr>tx := tx ?s1 ++ map_of (map (\<lambda>x. (fst x, fresh True (snd x) [])) tables_A), fetched := fe2\<rparr>"
  have c2: "cur ?s2" using assms by simp
  from for_each_drop[OF c2, of "[''address'', ''events'']"] obtain fe3 where
    3: "for_each (\<lambda>x. execute (table_drop x) []) [''address'', ''events''] ?s2 =
        (?s2\<lparr>tx := (\<lambda>n. if n \<in> set [''address'', ''events''] then None else tx ?s2 n), fetched := fe3\<rparr>, Inr PyNone)"
    unfolding table_drop_def by blast
  let ?s3 = "?s2\<lparr>tx := (\<lambda>n. if n \<in> set [''address'', ''events''] then None else tx ?s2 n), fetched := fe3\<rparr>"
  let ?addr = "fresh False
         (map join_pair
            (filter (\<lambda>x. fst x \<in> set [''city'', ''state'', ''postal_code'', ''latitude'', ''longitude''])
               composite_A))
         [''city'', ''state'', ''postal_code'']"
  let ?ev = "fresh False (map join_pair composite_A) [''event'', ''city'', ''postal_code'', ''event_date'']"
  have 4: "execute (table_create ''address''
                     (map join_pair
                        (filter (\<lambda>x. fst x \<in> set [''city'', ''state'', ''postal_code'', ''latitude'',
                                                   ''longitude''])
                           composite_A))
                     False (Some [''city'', ''state'', ''postal_code''])) [] ?s3 =
      (?s3\<lparr>tx := (tx ?s3)(''address'' \<mapsto> ?addr), fetched := []\<rparr>, Inr PyNone)"
    unfolding table_create_def using assms by (subst execute_create) simp_all
  let ?s4 = "?s3\<lparr>tx := (tx ?s3)(''address'' \<mapsto> ?addr), fetched := []\<rparr>"
  have 5: "execute (table_create ''events'' (map join_pair composite_A) False
                     (Some [''event'', ''city'', ''postal_code'', ''event_date''])) [] ?s4 =
      (?s4\<lparr>tx := (tx ?s4)(''events'' \<mapsto> ?ev), fetched := []\<rparr>, Inr PyNone)"
    unfolding table_create_def using assms by (subst execute_create) simp_all
  let ?s5 = "?s4\<lparr>tx := (tx ?s4)(''events'' \<mapsto> ?ev), fetched := []\<rparr>"
  have b: "block
         [for_each (\<lambda>x. execute (table_drop x) []) (map fst tables_A),
          for_each (\<lambda>x. execute (table_create (fst x) (snd x) True None) []) tables_A,
          for_each (\<lambda>x. execute (table_drop x) []) [''address'', ''events''],
          execute (table_create ''address''
                     (map join_pair
                        (filter (\<lambda>x. fst x \<in> set [''city'', ''state'', ''postal_code'', ''latitude'',
                                                   ''longitude''])
                           composite_A))
                     False (Some [''city'', ''state'', ''postal_code''])) [],
          execute (table_create ''events'' (map join_pair composite_A) False
                     (Some [''event'', ''city'', ''postal_code'', ''event_date''])) []] ?s0
        = (?s5, Inr PyNone)"
    by (simp only: block.simps 1 2 3 4 5 prod.case sum.case)
  have r: "psql_tables_A s = (print (complete_msg ''psql_tables'') ?s5, Inr PyNone)"
    unfolding psql_tables_A_def status_def by (simp only: b prod.case sum.case)
  have "tx ?s5 = tx s ++ map_of created_A"
    by (rule ext) (simp add: created_A_def tables_A_def map_add_def)
  with r show ?thesis by simp
qed

lemma block_ConsE:
  assumes "block (c # cs) s = (s', Inr v)"
  obtains s1 v1 where "c s = (s1, Inr v1)" "block cs s1 = (s', Inr v)"
  using assms by (auto split: prod.splits sum.splits)

lemma status_InrE:
  assumes "status n func s = (s', Inr v)"
  obtains s1 v1 where "func (print (execute_msg n) s) = (s1, Inr v1)" "s' = print (complete_msg n) s1"
  using assms by (auto simp: status_def split: prod.splits sum.splits)

lemma bind_InrE:
  assumes "bind m f s = (s', Inr v)"
  obtains s1 a where "m s = (s1, Inr a)" "f a s1 = (s', Inr v)"
  using assms by (auto simp: bind_def split: prod.splits sum.splits)

lemma load_countries_A_returns:
  "load_countries_A np s = (s', Inr v) \<Longrightarrow>
     (\<exists>cs. country s' = Some cs) \<and> uninitialised s' = uninitialised s \<and>
     sql_cast s' = sql_cast s \<and> sql_equal s' = sql_equal s"
  by (auto simp: load_countries_A_def status_def bind_def assign_def unzip_def zip_file_def
      genfromtxt_def print_def
      split: prod.splits sum.splits if_splits option.splits content.splits)

lemma load_countries_B_returns:
  "load_countries_B np s = (s', Inr v) \<Longrightarrow>
     (\<exists>cs. country s' = Some cs) \<and> uninitialised s' = uninitialised s \<and>
     sql_cast s' = sql_cast s \<and> sql_equal s' = sql_equal s"
  by (auto simp: load_countries_B_def status_def bind_def assign_def unzip_def
      genfromtxt_def print_def
      split: prod.splits sum.splits if_splits option.splits content.splits)

lemma load_locations_A_returns:
  "load_locations_A np s = (s', Inr v) \<Longrightarrow>
     (\<exists>locs. holds_locations locs s') \<and> country s' = country s \<and> uninitialised s' = uninitialised s \<and>
     sql_cast s' = sql_cast s \<and> sql_equal s' = sql_equal s"
  by (auto simp: load_locations_A_def status_def bind_def assign_def unzip_def zip_file_def
      genfromtxt_def print_def store_locations_def holds_locations_def
      split: prod.splits sum.splits if_splits option.splits content.splits)

lemma load_locations_B_returns:
  "load_locations_B np s = (s', Inr v) \<Longrightarrow>
     (\<exists>locs. holds_locations locs s') \<and> country s' = country s \<and> uninitialised s' = uninitialised s \<and>
     sql_cast s' = sql_cast s \<and> sql_equal s' = sql_equal s"
  by (auto simp: load_locations_B_def status_def bind_def assign_def unzip_def
      genfromtxt_def print_def store_locations_def holds_locations_def
      split: prod.splits sum.splits if_splits option.splits content.splits)

lemma credentials_and_connection:
  assumes "block [get_user, get_password, psql_connection] s = (s', Inr v)"
  shows "cur s' \<and> conn s' \<and> tx s' = committed s \<and> durable s' = durable s \<and>
         city s' = city s \<and> country s' = country s \<and> latitude s' = latitude s \<and>
         longitude s' = longitude s \<and> postal_code s' = postal_code s \<and> state s' = state s \<and>
         location_data s' = location_data s \<and> time s' = time s \<and> uninitialised s' = uninitialised s \<and>
     sql_cast s' = sql_cast s \<and> sql_equal s' = sql_equal s"
  using assms
  by (auto simp: get_user_def get_password_def psql_connection_def bind_def assign_def input_def
      durable_def split: prod.splits sum.splits if_splits list.splits)

lemma loaded_fields:
  "loaded s' = loaded s \<Longrightarrow>
     cur s' = cur s \<and> conn s' = conn s \<and>
     city s' = city s \<and> country s' = country s \<and> latitude s' = latitude s \<and>
     longitude s' = longitude s \<and> postal_code s' = postal_code s \<and> state s' = state s \<and>
     location_data s' = location_data s \<and> time s' = time s \<and> uninitialised s' = uninitialised s \<and>
     sql_cast s' = sql_cast s \<and> sql_equal s' = sql_equal s"
  by (simp add: loaded_def)

lemma holds_locations_loaded:
  "loaded s' = loaded s \<Longrightarrow> holds_locations locs s' = holds_locations locs s"
  by (simp add: loaded_def holds_locations_def)

lemma columns_fresh_1 [simp]:
  "columns (fresh True [d] u) = [''id'', column_name d]"
  by (simp add: columns_def fresh_def)

lemma columns_fresh_2 [simp]:
  "columns (fresh True [d, e] u) = [''id'', column_name d, column_name e]"
  by (simp add: columns_def fresh_def)

lemma fresh_fields [simp]:
  "serial (fresh ser sch u) = ser" "schema (fresh ser sch u) = sch" "unique (fresh ser sch u) = u"
  "next_id (fresh ser sch u) = 1" "rows (fresh ser sch u) = []"
  by (simp_all add: fresh_def)

lemma column_names [simp]:
  "column_name ''value TEXT'' = ''value''" "column_name ''value CHAR(2)'' = ''value''"
  "column_name ''name TEXT'' = ''name''" "column_name ''value DATE'' = ''value''"
  "column_name ''value TIME'' = ''value''" "column_name ''value DOUBLE PRECISION'' = ''value''"
  "column_name ''value CHAR(5)'' = ''value''"
  "column_name ''city_name TEXT'' = ''city_name''" "column_name ''country_abbr CHAR(2)'' = ''country_abbr''"
  "column_name ''country_name TEXT'' = ''country_name''"
  "column_name ''latitude_value REAL'' = ''latitude_value''"
  "column_name ''longitude_value REAL'' = ''longitude_value''"
  "column_name ''postal_code_value CHAR(5)'' = ''postal_code_value''"
  "column_name ''state_name CHAR(2)'' = ''state_name''" "column_name ''time_value TIME'' = ''time_value''"
  by (simp_all add: column_name_def)

lemma block_step: "snd (c s) = Inr v \<Longrightarrow> block (c # cs) s = block cs (fst (c s))"
  by (cases "c s") simp

lemma psql_tables_B_run:
  assumes "cur s"
  shows "snd (psql_tables_B s) = Inr PyNone \<and> tx (fst (psql_tables_B s)) = tx s ++ map_of created_B"
proof -
  let ?s0 = "print (execute_msg ''psql_tables'') s"
  have c0: "cur ?s0" using assms by simp
  from for_each_drop[OF c0, of "map fst tables_B"] obtain fe1 where
    1: "for_each (\<lambda>x. execute (cmd_drop_table x) []) (map fst tables_B) ?s0 =
        (?s0\<lparr>tx := (\<lambda>n. if n \<in> set (map fst tables_B) then None else tx ?s0 n), fetched := fe1\<rparr>, Inr PyNone)"
    unfolding cmd_drop_table_def by blast
  let ?s1 = "?s0\<lparr>tx := (\<lambda>n. if n \<in> set (map fst tables_B) then None else tx ?s0 n), fetched := fe1\<rparr>"
  have "\<exists>fe. for_each (\<lambda>x. execute (CreateTable (fst x) True (snd x) []) []) tables_B ?s1 =
     (?s1\<lparr>tx := tx ?s1 ++ map_of (map (\<lambda>x. (fst x, fresh True (snd x) [])) tables_B), fetched := fe\<rparr>, Inr PyNone)"
    using c0 by (intro for_each_create) (auto simp: tables_B_def)
  then obtain fe2 where
    2: "for_each (\<lambda>x. execute (cmd_create_serial_table (fst x) (snd x)) []) tables_B ?s1 =
     (?s1\<lparr>tx := tx ?s1 ++ map_of (map (\<lambda>x. (fst x, fresh True (snd x) [])) tables_B), fetched := fe2\<rparr>, Inr PyNone)"
    unfolding cmd_create_serial_table_def by auto
  let ?s2 = "?s1\<lparr>tx := tx ?s1 ++ map_of (map (\<lambda>x. (fst x, fresh True (snd x) [])) tables_B), fetched := fe2\<rparr>"
  have c2: "cur ?s2" using assms by simp
  have 3: "execute (cmd_drop_table ''event'') [] ?s2 =
             (?s2\<lparr>tx := (tx ?s2)(''event'' := None), fetched := []\<rparr>, Inr PyNone)"
    unfolding cmd_drop_table_def by (rule execute_drop[OF c2])
  let ?s3 = "?s2\<lparr>tx := (tx ?s2)(''event'' := None), fetched := []\<rparr>"
  have 4: "execute (CreateTable ''event'' False composite_B []) [] ?s3 =
      (?s3\<lparr>tx := (tx ?s3)(''event'' \<mapsto> fresh False composite_B []), fetched := []\<rparr>, Inr PyNone)"
    using assms by (subst execute_create) simp_all
  let ?s4 = "?s3\<lparr>tx := (tx ?s3)(''event'' \<mapsto> fresh False composite_B []), fetched := []\<rparr>"
  have b: "block
         [for_each (\<lambda>x. execute (cmd_drop_table x) []) (map fst tables_B),
          for_each (\<lambda>x. execute (cmd_create_serial_table (fst x) (snd x)) []) tables_B,
          execute (cmd_drop_table ''event'') [],
          execute (CreateTable ''event'' False composite_B []) []] ?s0
        = (?s4, Inr PyNone)"
    by (simp only: block.simps 1 2 3 4 prod.case sum.case)
  have r: "psql_tables_B s = (print (complete_msg ''psql_tables'') ?s4, Inr PyNone)"
    unfolding psql_tables_B_def status_def by (simp only: b prod.case sum.case)
  have "tx ?s4 = tx s ++ map_of created_B"
    by (rule ext) (simp add: created_B_def tables_B_def map_add_def)
  with r show ?thesis by simp
qed

lemma block_append_InrE:
  assumes "block (cs @ ds) s = (s', Inr v)"
  obtains s1 where "block cs s = (s1, Inr PyNone)" "block ds s1 = (s', Inr v)"
proof -
  obtain s1 r where b: "block cs s = (s1, r)" by (cases "block cs s")
  with assms have "\<exists>w. r = Inr w" by (cases r) (simp_all add: block_append)
  then obtain w where w: "r = Inr w" by blast
  have "w = PyNone" using b w by (auto dest: block_Inr_None)
  with b w assms that show ?thesis by (simp add: block_append)
qed

lemma block_append_run:
  "block cs s = (s1, Inr w) \<Longrightarrow> block (cs @ ds) s = block ds s1"
  by (simp add: block_append)

lemma pre_phase_A:
  assumes "block [load_countries_A np, load_locations_A np, load_times, get_user, get_password,
                  psql_connection] s = (s6, Inr v)"
  shows "\<exists>locs cs. holds_locations locs s6 \<and> country s6 = Some cs \<and>
           time s6 = Some five_minute_times \<and> cur s6 \<and> conn s6 \<and> tx s6 = committed s \<and>
           durable s6 = durable s \<and> uninitialised s6 = uninitialised s \<and>
           sql_cast s6 = sql_cast s \<and> sql_equal s6 = sql_equal s"
proof -
  from assms obtain s1 v1 where 1: "load_countries_A np s = (s1, Inr v1)"
    and b1: "block [load_locations_A np, load_times, get_user, get_password, psql_connection] s1 = (s6, Inr v)"
    by (rule block_ConsE)
  from b1 obtain s2 v2 where 2: "load_locations_A np s1 = (s2, Inr v2)"
    and b2: "block [load_times, get_user, get_password, psql_connection] s2 = (s6, Inr v)"
    by (rule block_ConsE)
  from b2 obtain s3 v3 where 3: "load_times s2 = (s3, Inr v3)"
    and b3: "block [get_user, get_password, psql_connection] s3 = (s6, Inr v)"
    by (rule block_ConsE)
  from load_countries_A_returns[OF 1] obtain cs where cs: "country s1 = Some cs"
    and g1: "uninitialised s1 = uninitialised s" "sql_cast s1 = sql_cast s" "sql_equal s1 = sql_equal s"
    by blast
  from load_locations_A_returns[OF 2] obtain locs where locs: "holds_locations locs s2"
    and c2: "country s2 = country s1"
    and g2: "uninitialised s2 = uninitialised s1" "sql_cast s2 = sql_cast s1" "sql_equal s2 = sql_equal s1"
    by blast
  have d1: "durable s1 = durable s" using keepsD[OF keeps_durable_load_countries_A, of np s] 1 by simp
  have d2: "durable s2 = durable s1" using keepsD[OF keeps_durable_load_locations_A, of np s1] 2 by simp
  have s3: "s3 = s2\<lparr>time := Some five_minute_times,
        stdout := stdout s2 @ [execute_msg ''load_times'' @ [CHR 0x0A], complete_msg ''load_times'' @ [CHR 0x0A]]\<rparr>"
    using 3 by (simp add: load_times_eq)
  have h3: "holds_locations locs s3" "country s3 = Some cs" "time s3 = Some five_minute_times"
    "durable s3 = durable s"
    "uninitialised s3 = uninitialised s" "sql_cast s3 = sql_cast s" "sql_equal s3 = sql_equal s"
    using locs c2 cs d1 d2 g1 g2 by (simp_all add: s3 holds_locations_def durable_def)
  from credentials_and_connection[OF b3] h3 show ?thesis
    by (auto simp: holds_locations_def durable_def)
qed

lemma pre_phase_B:
  assumes "block [load_countries_B np, load_locations_B np, load_times, get_user, get_password,
                  psql_connection] s = (s6, Inr v)"
  shows "\<exists>locs cs. holds_locations locs s6 \<and> country s6 = Some cs \<and>
           time s6 = Some five_minute_times \<and> cur s6 \<and> conn s6 \<and> tx s6 = committed s \<and>
           durable s6 = durable s \<and> uninitialised s6 = uninitialised s \<and>
           sql_cast s6 = sql_cast s \<and> sql_equal s6 = sql_equal s"
proof -
  from assms obtain s1 v1 where 1: "load_countries_B np s = (s1, Inr v1)"
    and b1: "block [load_locations_B np, load_times, get_user, get_password, psql_connection] s1 = (s6, Inr v)"
    by (rule block_ConsE)
  from b1 obtain s2 v2 where 2: "load_locations_B np s1 = (s2, Inr v2)"
    and b2: "block [load_times, get_user, get_password, psql_connection] s2 = (s6, Inr v)"
    by (rule block_ConsE)
  from b2 obtain s3 v3 where 3: "load_times s2 = (s3, Inr v3)"
    and b3: "block [get_user, get_password, psql_connection] s3 = (s6, Inr v)"
    by (rule block_ConsE)
  from load_countries_B_returns[OF 1] obtain cs where cs: "country s1 = Some cs"
    and g1: "uninitialised s1 = uninitialised s" "sql_cast s1 = sql_cast s" "sql_equal s1 = sql_equal s"
    by blast
  from load_locations_B_returns[OF 2] obtain locs where locs: "holds_locations locs s2"
    and c2: "country s2 = country s1"
    and g2: "uninitialised s2 = uninitialised s1" "sql_cast s2 = sql_cast s1" "sql_equal s2 = sql_equal s1"
    by blast
  have d1: "durable s1 = durable s" using keepsD[OF keeps_durable_load_countries_B, of np s] 1 by simp
  have d2: "durable s2 = durable s1" using keepsD[OF keeps_durable_load_locations_B, of np s1] 2 by simp
  have s3: "s3 = s2\<lparr>time := Some five_minute_times,
        stdout := stdout s2 @ [execute_msg ''load_times'' @ [CHR 0x0A], complete_msg ''load_times'' @ [CHR 0x0A]]\<rparr>"
    using 3 by (simp add: load_times_eq)
  have h3: "holds_locations locs s3" "country s3 = Some cs" "time s3 = Some five_minute_times"
    "durable s3 = durable s"
    "uninitialised s3 = uninitialised s" "sql_cast s3 = sql_cast s" "sql_equal s3 = sql_equal s"
    using locs c2 cs d1 d2 g1 g2 by (simp_all add: s3 holds_locations_def durable_def)
  from credentials_and_connection[OF b3] h3 show ?thesis
    by (auto simp: holds_locations_def durable_def)
qed

lemma commit_run:
  "conn s \<Longrightarrow> block [commit] s = (s\<lparr>committed := tx s, commits := Suc (commits s)\<rparr>, Inr PyNone)"
  by (simp add: commit_def)

lemma pre_phase_A_total:
  assumes "csv_zipped s" "fs s ''countries.csv.gz'' = Some (Gz (Raw ct))"
    "fs s ''us_postal_codes.csv.gz'' = Some (Gz (Raw lt))"
    "genfromtxt_countries np (remove_cr ct) = Inr cs"
    "genfromtxt_locations np (remove_cr lt) = Inr locs"
    "stdin s = u # p # rest"
    "(db_name s, Some (if u = [] then ''Tim'' else u), Some p) \<in> set (accepts s)"
  shows "\<exists>s6. block [load_countries_A np, load_locations_A np, load_times, get_user, get_password,
                      psql_connection] s = (s6, Inr PyNone) \<and>
              location_data s6 = Some locs \<and> country s6 = Some cs"
  using assms
  by (simp add: load_countries_A_default load_locations_A_default load_times_eq get_user_def
      get_password_def psql_connection_def bind_def input_def assign_def store_locations_def)

lemma pre_phase_B_total:
  assumes "csv_zipped s" "fs s ''countries.csv.gz'' = Some (Gz (Raw ct))"
    "fs s ''us_postal_codes.csv.gz'' = Some (Gz (Raw lt))"
    "genfromtxt_countries np (remove_cr ct) = Inr cs"
    "genfromtxt_locations np (remove_cr lt) = Inr locs"
    "stdin s = u # p # rest"
    "(db_name s, Some (if u = [] then ''Tim'' else u), Some p) \<in> set (accepts s)"
  shows "\<exists>s6. block [load_countries_B np, load_locations_B np, load_times, get_user, get_password,
                      psql_connection] s = (s6, Inr PyNone) \<and>
              location_data s6 = Some locs \<and> country s6 = Some cs"
  using assms
  by (simp add: load_countries_B_default load_locations_B_default load_times_eq get_user_def
      get_password_def psql_connection_def bind_def input_def assign_def store_locations_def)

lemma holds_locations_unique:
  "holds_locations locs s \<Longrightarrow> location_data s = Some locs' \<Longrightarrow> locs' = locs"
  by (simp add: holds_locations_def)

lemma populate_insert:
  assumes "cur s" "attr s = Some xs" "\<And>msg s. attr (print msg s) = attr s" "tx s n = Some t"
    "\<And>x. length (ps x) = length fl" "set fl \<subseteq> set (columns t)"
  shows "snd (status nm (for_in attr (\<lambda>x. execute (InsertInto n fl) (ps x))) s) =
           (case add_rows (sql_cast s) n t fl (map ps xs) of Inl e \<Rightarrow> Inl e | Inr _ \<Rightarrow> Inr PyNone) \<and>
         (\<forall>t'. add_rows (sql_cast s) n t fl (map ps xs) = Inr t' \<longrightarrow>
            tx (fst (status nm (for_in attr (\<lambda>x. execute (InsertInto n fl) (ps x))) s)) = (tx s)(n \<mapsto> t'))"
proof -
  let ?s0 = "print (execute_msg nm) s"
  let ?f = "for_each (\<lambda>x. execute (InsertInto n fl) (ps x)) xs ?s0"
  have a: "snd ?f = (case add_rows (sql_cast ?s0) n t fl (map ps xs) of Inl e \<Rightarrow> Inl e | Inr _ \<Rightarrow> Inr PyNone) \<and>
         (\<forall>t'. add_rows (sql_cast ?s0) n t fl (map ps xs) = Inr t' \<longrightarrow> tx (fst ?f) = (tx ?s0)(n \<mapsto> t'))"
    using assms by (intro for_each_insert) auto
  have b: "for_in attr (\<lambda>x. execute (InsertInto n fl) (ps x)) ?s0 = ?f"
    using assms(2,3) by (simp add: for_in_def)
  obtain s1 r where c: "?f = (s1, r)" by (cases ?f)
  show ?thesis
    using a unfolding status_def b c
    by (cases r) (auto split: sum.splits)
qed

lemma populate_insert_array:
  assumes "cur s" "attr s = Some xs" "\<And>msg s. attr (print msg s) = attr s" "tx s n = Some t"
    "\<And>x. length (ps x) = length fl" "set fl \<subseteq> set (columns t)" "length xs \<noteq> 1"
  shows "snd (status nm (for_in_array attr (\<lambda>x. execute (InsertInto n fl) (ps x))) s) =
           (case add_rows (sql_cast s) n t fl (map ps xs) of Inl e \<Rightarrow> Inl e | Inr _ \<Rightarrow> Inr PyNone) \<and>
         (\<forall>t'. add_rows (sql_cast s) n t fl (map ps xs) = Inr t' \<longrightarrow>
            tx (fst (status nm (for_in_array attr (\<lambda>x. execute (InsertInto n fl) (ps x))) s)) = (tx s)(n \<mapsto> t'))"
proof -
  have "for_in_array attr (\<lambda>x. execute (InsertInto n fl) (ps x)) (print (execute_msg nm) s) =
        for_in attr (\<lambda>x. execute (InsertInto n fl) (ps x)) (print (execute_msg nm) s)"
    using assms(2,3,7) by (simp add: for_in_array_def for_in_def)
  then have "status nm (for_in_array attr (\<lambda>x. execute (InsertInto n fl) (ps x))) s =
             status nm (for_in attr (\<lambda>x. execute (InsertInto n fl) (ps x))) s"
    by (simp add: status_def)
  then show ?thesis using populate_insert[OF assms(1-6), of nm] by simp
qed

lemma populate_array_0d:
  assumes "attr s = Some xs" "\<And>msg s. attr (print msg s) = attr s" "length xs = 1"
  shows "snd (status nm (for_in_array attr f) s) = Inl (TypeError ''iteration over a 0-d array'')"
  using assms by (simp add: status_def for_in_array_def)

lemma populate_conditional:
  assumes "cur s" "attr s = Some xs" "\<And>msg s. attr (print msg s) = attr s" "tx s n = Some t"
    "\<And>x. length (ps x) = length fl" "set fl \<subseteq> set (columns t)"
  shows "snd (status nm (for_in attr (\<lambda>x. execute (InsertWhereNotExists n fl) (ps x @ ps x))) s) =
           (case add_rows_absent (sql_cast s) (sql_equal s) n t fl (map ps xs) of
              Inl e \<Rightarrow> Inl e | Inr _ \<Rightarrow> Inr PyNone) \<and>
         (\<forall>t'. add_rows_absent (sql_cast s) (sql_equal s) n t fl (map ps xs) = Inr t' \<longrightarrow>
            tx (fst (status nm (for_in attr (\<lambda>x. execute (InsertWhereNotExists n fl) (ps x @ ps x))) s)) =
              (tx s)(n \<mapsto> t'))"
proof -
  let ?s0 = "print (execute_msg nm) s"
  let ?f = "for_each (\<lambda>x. execute (InsertWhereNotExists n fl) (ps x @ ps x)) xs ?s0"
  have a: "snd ?f = (case add_rows_absent (sql_cast ?s0) (sql_equal ?s0) n t fl (map ps xs) of
                       Inl e \<Rightarrow> Inl e | Inr _ \<Rightarrow> Inr PyNone) \<and>
         (\<forall>t'. add_rows_absent (sql_cast ?s0) (sql_equal ?s0) n t fl (map ps xs) = Inr t' \<longrightarrow>
            tx (fst ?f) = (tx ?s0)(n \<mapsto> t'))"
    using assms by (intro for_each_conditional) auto
  have b: "for_in attr (\<lambda>x. execute (InsertWhereNotExists n fl) (ps x @ ps x)) ?s0 = ?f"
    using assms(2,3) by (simp add: for_in_def)
  obtain s1 r where c: "?f = (s1, r)" by (cases ?f)
  show ?thesis
    using a unfolding status_def b c
    by (cases r) (auto split: sum.splits)
qed

lemma populate_conditional_array:
  assumes "cur s" "attr s = Some xs" "\<And>msg s. attr (print msg s) = attr s" "tx s n = Some t"
    "\<And>x. length (ps x) = length fl" "set fl \<subseteq> set (columns t)" "length xs \<noteq> 1"
  shows "snd (status nm (for_in_array attr (\<lambda>x. execute (InsertWhereNotExists n fl) (ps x @ ps x))) s) =
           (case add_rows_absent (sql_cast s) (sql_equal s) n t fl (map ps xs) of
              Inl e \<Rightarrow> Inl e | Inr _ \<Rightarrow> Inr PyNone) \<and>
         (\<forall>t'. add_rows_absent (sql_cast s) (sql_equal s) n t fl (map ps xs) = Inr t' \<longrightarrow>
            tx (fst (status nm (for_in_array attr (\<lambda>x. execute (InsertWhereNotExists n fl) (ps x @ ps x))) s)) =
              (tx s)(n \<mapsto> t'))"
proof -
  have "for_in_array attr (\<lambda>x. execute (InsertWhereNotExists n fl) (ps x @ ps x)) (print (execute_msg nm) s) =
        for_in attr (\<lambda>x. execute (InsertWhereNotExists n fl) (ps x @ ps x)) (print (execute_msg nm) s)"
    using assms(2,3,7) by (simp add: for_in_array_def for_in_def)
  then have "status nm (for_in_array attr (\<lambda>x. execute (InsertWhereNotExists n fl) (ps x @ ps x))) s =
             status nm (for_in attr (\<lambda>x. execute (InsertWhereNotExists n fl) (ps x @ ps x))) s"
    by (simp add: status_def)
  then show ?thesis using populate_conditional[OF assms(1-6), of nm] by simp
qed

lemma empty_filled [simp]: "filled f n sch [] = Inr (fresh True sch [])"
  by (simp add: filled_def)

lemma empty_filled_absent [simp]: "filled_absent f eq n sch [] = Inr (fresh True sch [])"
  by (simp add: filled_absent_def)

lemma collect_map_mem:
  "collect (map g xs) = Inr ys \<Longrightarrow> x \<in> set xs \<Longrightarrow> \<exists>y. g x = Inr y"
  by (induction xs arbitrary: ys) (auto split: sum.splits)

lemma collect_map_Inr:
  "(\<And>x. x \<in> set xs \<Longrightarrow> \<exists>y. g x = Inr y) \<Longrightarrow> \<exists>ys. collect (map g xs) = Inr ys"
proof (induction xs)
  case Nil
  show ?case by simp
next
  case (Cons x xs)
  obtain y where y: "g x = Inr y" using Cons.prems by auto
  obtain ys where ys: "collect (map g xs) = Inr ys" using Cons by auto
  show ?case by (simp add: y ys)
qed

lemma map_of_collect:
  assumes "collect (map (\<lambda>(n, a). case h n a of Inl e \<Rightarrow> Inl e | Inr t \<Rightarrow> Inr (n, t)) xs) = Inr L"
  shows "map_of L n =
     (case map_of xs n of
        None \<Rightarrow> None
      | Some a \<Rightarrow> (case h n a of Inl e \<Rightarrow> None | Inr t \<Rightarrow> Some t))"
  using assms
  by (induction xs arbitrary: L) (auto split: sum.splits)

lemma map_of_lookups_A:
  "lookups_A f locs cs ts = Inr L \<Longrightarrow>
     map_of L n =
       (case map_of tables_A n of
          None \<Rightarrow> None
        | Some sch \<Rightarrow> (case filled f n sch (sent_A locs cs ts n) of Inl e \<Rightarrow> None | Inr t \<Rightarrow> Some t))"
  unfolding lookups_A_def by (rule map_of_collect)

lemma map_of_lookups_B:
  "lookups_B f eq locs cs ts = Inr L \<Longrightarrow>
     map_of L n =
       (case map_of tables_B n of
          None \<Rightarrow> None
        | Some sch \<Rightarrow> (case filled_absent f eq n sch (sent_B locs cs ts n) of Inl e \<Rightarrow> None | Inr t \<Rightarrow> Some t))"
  unfolding lookups_B_def by (rule map_of_collect)

lemma filled_of_lookups_A:
  assumes "lookups_A f locs cs ts = Inr L" "(n, sch) \<in> set tables_A"
  shows "\<exists>t. filled f n sch (sent_A locs cs ts n) = Inr t"
proof -
  from collect_map_mem[OF assms(1)[unfolded lookups_A_def] assms(2)]
  show ?thesis by (cases "filled f n sch (sent_A locs cs ts n)") auto
qed

lemma filled_of_lookups_B:
  assumes "lookups_B f eq locs cs ts = Inr L" "(n, sch) \<in> set tables_B"
  shows "\<exists>t. filled_absent f eq n sch (sent_B locs cs ts n) = Inr t"
proof -
  from collect_map_mem[OF assms(1)[unfolded lookups_B_def] assms(2)]
  show ?thesis by (cases "filled_absent f eq n sch (sent_B locs cs ts n)") auto
qed

lemma created_A_eq:
  "created_A = map (\<lambda>x. (fst x, fresh True (snd x) [])) tables_A @ composites_A"
  by (simp add: created_A_def composites_A_def address_created_def events_created_def composite_A_def join_pair_def)

lemma created_B_eq:
  "created_B = map (\<lambda>x. (fst x, fresh True (snd x) [])) tables_B @ composites_B"
  by (simp add: created_B_def composites_B_def)

lemma psql_city_A_run:
  assumes "cur s" "city s = Some xs" "tx s ''city'' = Some (fresh True [''value TEXT''] [])"
  shows "snd (psql_city_A s) = (case filled (sql_cast s) ''city'' [''value TEXT''] (map (\<lambda>x. [PyStr x]) xs) of Inl e \<Rightarrow> Inl e | Inr _ \<Rightarrow> Inr PyNone) \<and>
         (\<forall>t'. filled (sql_cast s) ''city'' [''value TEXT''] (map (\<lambda>x. [PyStr x]) xs) = Inr t' \<longrightarrow> tx (fst (psql_city_A s)) = (tx s)(''city'' \<mapsto> t'))"
  unfolding psql_city_A_def table_insert_def filled_def str_or_list.case
  using populate_insert[where s = s and attr = city and xs = xs and n = "''city''"
      and t = "fresh True [''value TEXT''] []" and ps = "\<lambda>x. [PyStr x]" and fl = "[''value'']"
      and nm = "''psql_city''"] assms
  by simp

lemma psql_country_A_run:
  assumes "cur s" "country s = Some xs" "tx s ''country'' = Some (fresh True [''value CHAR(2)'', ''name TEXT''] [])" "length xs \<noteq> 1"
  shows "snd (psql_country_A s) = (case filled (sql_cast s) ''country'' [''value CHAR(2)'', ''name TEXT''] (map (\<lambda>x. [PyStr (fst x), PyStr (snd x)]) xs) of Inl e \<Rightarrow> Inl e | Inr _ \<Rightarrow> Inr PyNone) \<and>
         (\<forall>t'. filled (sql_cast s) ''country'' [''value CHAR(2)'', ''name TEXT''] (map (\<lambda>x. [PyStr (fst x), PyStr (snd x)]) xs) = Inr t' \<longrightarrow> tx (fst (psql_country_A s)) = (tx s)(''country'' \<mapsto> t'))"
  unfolding psql_country_A_def table_insert_def filled_def str_or_list.case
  using populate_insert_array[where s = s and attr = country and xs = xs and n = "''country''"
      and t = "fresh True [''value CHAR(2)'', ''name TEXT''] []" and ps = "\<lambda>x. [PyStr (fst x), PyStr (snd x)]" and fl = "[''value'', ''name'']"
      and nm = "''psql_country''"] assms
  by simp

lemma psql_country_A_0d:
  assumes "country s = Some xs" "length xs = 1"
  shows "snd (psql_country_A s) = Inl (TypeError ''iteration over a 0-d array'')"
  unfolding psql_country_A_def using assms by (intro populate_array_0d) simp_all

lemma psql_latitude_A_run:
  assumes "cur s" "latitude s = Some xs" "tx s ''latitude'' = Some (fresh True [''value DOUBLE PRECISION''] [])"
  shows "snd (psql_latitude_A s) = (case filled (sql_cast s) ''latitude'' [''value DOUBLE PRECISION''] (map (\<lambda>x. [PyStr x]) xs) of Inl e \<Rightarrow> Inl e | Inr _ \<Rightarrow> Inr PyNone) \<and>
         (\<forall>t'. filled (sql_cast s) ''latitude'' [''value DOUBLE PRECISION''] (map (\<lambda>x. [PyStr x]) xs) = Inr t' \<longrightarrow> tx (fst (psql_latitude_A s)) = (tx s)(''latitude'' \<mapsto> t'))"
  unfolding psql_latitude_A_def table_insert_def filled_def str_or_list.case
  using populate_insert[where s = s and attr = latitude and xs = xs and n = "''latitude''"
      and t = "fresh True [''value DOUBLE PRECISION''] []" and ps = "\<lambda>x. [PyStr x]" and fl = "[''value'']"
      and nm = "''psql_latitude''"] assms
  by simp

lemma psql_longitude_A_run:
  assumes "cur s" "longitude s = Some xs" "tx s ''longitude'' = Some (fresh True [''value DOUBLE PRECISION''] [])"
  shows "snd (psql_longitude_A s) = (case filled (sql_cast s) ''longitude'' [''value DOUBLE PRECISION''] (map (\<lambda>x. [PyStr x]) xs) of Inl e \<Rightarrow> Inl e | Inr _ \<Rightarrow> Inr PyNone) \<and>
         (\<forall>t'. filled (sql_cast s) ''longitude'' [''value DOUBLE PRECISION''] (map (\<lambda>x. [PyStr x]) xs) = Inr t' \<longrightarrow> tx (fst (psql_longitude_A s)) = (tx s)(''longitude'' \<mapsto> t'))"
  unfolding psql_longitude_A_def table_insert_def filled_def str_or_list.case
  using populate_insert[where s = s and attr = longitude and xs = xs and n = "''longitude''"
      and t = "fresh True [''value DOUBLE PRECISION''] []" and ps = "\<lambda>x. [PyStr x]" and fl = "[''value'']"
      and nm = "''psql_longitude''"] assms
  by simp

lemma psql_postal_code_A_run:
  assumes "cur s" "postal_code s = Some xs" "tx s ''postal_code'' = Some (fresh True [''value CHAR(5)''] [])"
  shows "snd (psql_postal_code_A s) = (case filled (sql_cast s) ''postal_code'' [''value CHAR(5)''] (map (\<lambda>x. [PyStr x]) xs) of Inl e \<Rightarrow> Inl e | Inr _ \<Rightarrow> Inr PyNone) \<and>
         (\<forall>t'. filled (sql_cast s) ''postal_code'' [''value CHAR(5)''] (map (\<lambda>x. [PyStr x]) xs) = Inr t' \<longrightarrow> tx (fst (psql_postal_code_A s)) = (tx s)(''postal_code'' \<mapsto> t'))"
  unfolding psql_postal_code_A_def table_insert_def filled_def str_or_list.case
  using populate_insert[where s = s and attr = postal_code and xs = xs and n = "''postal_code''"
      and t = "fresh True [''value CHAR(5)''] []" and ps = "\<lambda>x. [PyStr x]" and fl = "[''value'']"
      and nm = "''psql_postal_code''"] assms
  by simp

lemma psql_state_A_run:
  assumes "cur s" "state s = Some xs" "tx s ''state'' = Some (fresh True [''value CHAR(2)''] [])"
  shows "snd (psql_state_A s) = (case filled (sql_cast s) ''state'' [''value CHAR(2)''] (map (\<lambda>x. [PyStr x]) xs) of Inl e \<Rightarrow> Inl e | Inr _ \<Rightarrow> Inr PyNone) \<and>
         (\<forall>t'. filled (sql_cast s) ''state'' [''value CHAR(2)''] (map (\<lambda>x. [PyStr x]) xs) = Inr t' \<longrightarrow> tx (fst (psql_state_A s)) = (tx s)(''state'' \<mapsto> t'))"
  unfolding psql_state_A_def table_insert_def filled_def str_or_list.case
  using populate_insert[where s = s and attr = state and xs = xs and n = "''state''"
      and t = "fresh True [''value CHAR(2)''] []" and ps = "\<lambda>x. [PyStr x]" and fl = "[''value'']"
      and nm = "''psql_state''"] assms
  by simp

lemma psql_times_A_run:
  assumes "cur s" "time s = Some xs" "tx s ''event_time'' = Some (fresh True [''value TIME''] [])"
  shows "snd (psql_times_A s) = (case filled (sql_cast s) ''event_time'' [''value TIME''] (map (\<lambda>x. [PyTime x]) xs) of Inl e \<Rightarrow> Inl e | Inr _ \<Rightarrow> Inr PyNone) \<and>
         (\<forall>t'. filled (sql_cast s) ''event_time'' [''value TIME''] (map (\<lambda>x. [PyTime x]) xs) = Inr t' \<longrightarrow> tx (fst (psql_times_A s)) = (tx s)(''event_time'' \<mapsto> t'))"
  unfolding psql_times_A_def table_insert_def filled_def str_or_list.case
  using populate_insert[where s = s and attr = time and xs = xs and n = "''event_time''"
      and t = "fresh True [''value TIME''] []" and ps = "\<lambda>x. [PyTime x]" and fl = "[''value'']"
      and nm = "''psql_times''"] assms
  by simp

lemma psql_city_B_run:
  assumes "cur s" "city s = Some xs" "tx s ''city'' = Some (fresh True [''city_name TEXT''] [])"
  shows "snd (psql_city_B s) = (case filled_absent (sql_cast s) (sql_equal s) ''city'' [''city_name TEXT''] (map (\<lambda>x. [PyStr x]) xs) of Inl e \<Rightarrow> Inl e | Inr _ \<Rightarrow> Inr PyNone) \<and>
         (\<forall>t'. filled_absent (sql_cast s) (sql_equal s) ''city'' [''city_name TEXT''] (map (\<lambda>x. [PyStr x]) xs) = Inr t' \<longrightarrow> tx (fst (psql_city_B s)) = (tx s)(''city'' \<mapsto> t'))"
  unfolding psql_city_B_def cmd_single_field_def filled_absent_def str_or_list.case
  using populate_conditional[where s = s and attr = city and xs = xs and n = "''city''"
      and t = "fresh True [''city_name TEXT''] []" and ps = "\<lambda>x. [PyStr x]" and fl = "[''city_name'']"
      and nm = "''psql_city''"] assms
  by simp

lemma psql_country_B_run:
  assumes "cur s" "country s = Some xs" "tx s ''country'' = Some (fresh True [''country_abbr CHAR(2)'', ''country_name TEXT''] [])" "length xs \<noteq> 1"
  shows "snd (psql_country_B s) = (case filled_absent (sql_cast s) (sql_equal s) ''country'' [''country_abbr CHAR(2)'', ''country_name TEXT''] (map (\<lambda>x. [PyStr (fst x), PyStr (snd x)]) xs) of Inl e \<Rightarrow> Inl e | Inr _ \<Rightarrow> Inr PyNone) \<and>
         (\<forall>t'. filled_absent (sql_cast s) (sql_equal s) ''country'' [''country_abbr CHAR(2)'', ''country_name TEXT''] (map (\<lambda>x. [PyStr (fst x), PyStr (snd x)]) xs) = Inr t' \<longrightarrow> tx (fst (psql_country_B s)) = (tx s)(''country'' \<mapsto> t'))"
  unfolding psql_country_B_def cmd_double_field_def filled_absent_def str_or_list.case
  using populate_conditional_array[where s = s and attr = country and xs = xs and n = "''country''"
      and t = "fresh True [''country_abbr CHAR(2)'', ''country_name TEXT''] []" and ps = "\<lambda>x. [PyStr (fst x), PyStr (snd x)]" and fl = "[''country_abbr'', ''country_name'']"
      and nm = "''psql_country''"] assms
  by simp

lemma psql_country_B_0d:
  assumes "country s = Some xs" "length xs = 1"
  shows "snd (psql_country_B s) = Inl (TypeError ''iteration over a 0-d array'')"
  unfolding psql_country_B_def using assms by (intro populate_array_0d) simp_all

lemma psql_latitude_B_run:
  assumes "cur s" "latitude s = Some xs" "tx s ''latitude'' = Some (fresh True [''latitude_value REAL''] [])"
  shows "snd (psql_latitude_B s) = (case filled_absent (sql_cast s) (sql_equal s) ''latitude'' [''latitude_value REAL''] (map (\<lambda>x. [PyFloat x]) xs) of Inl e \<Rightarrow> Inl e | Inr _ \<Rightarrow> Inr PyNone) \<and>
         (\<forall>t'. filled_absent (sql_cast s) (sql_equal s) ''latitude'' [''latitude_value REAL''] (map (\<lambda>x. [PyFloat x]) xs) = Inr t' \<longrightarrow> tx (fst (psql_latitude_B s)) = (tx s)(''latitude'' \<mapsto> t'))"
  unfolding psql_latitude_B_def cmd_single_field_def filled_absent_def str_or_list.case
  using populate_conditional[where s = s and attr = latitude and xs = xs and n = "''latitude''"
      and t = "fresh True [''latitude_value REAL''] []" and ps = "\<lambda>x. [PyFloat x]" and fl = "[''latitude_value'']"
      and nm = "''psql_latitude''"] assms
  by simp

lemma psql_longitude_B_run:
  assumes "cur s" "longitude s = Some xs" "tx s ''longitude'' = Some (fresh True [''longitude_value REAL''] [])"
  shows "snd (psql_longitude_B s) = (case filled_absent (sql_cast s) (sql_equal s) ''longitude'' [''longitude_value REAL''] (map (\<lambda>x. [PyFloat x]) xs) of Inl e \<Rightarrow> Inl e | Inr _ \<Rightarrow> Inr PyNone) \<and>
         (\<forall>t'. filled_absent (sql_cast s) (sql_equal s) ''longitude'' [''longitude_value REAL''] (map (\<lambda>x. [PyFloat x]) xs) = Inr t' \<longrightarrow> tx (fst (psql_longitude_B s)) = (tx s)(''longitude'' \<mapsto> t'))"
  unfolding psql_longitude_B_def cmd_single_field_def filled_absent_def str_or_list.case
  using populate_conditional[where s = s and attr = longitude and xs = xs and n = "''longitude''"
      and t = "fresh True [''longitude_value REAL''] []" and ps = "\<lambda>x. [PyFloat x]" and fl = "[''longitude_value'']"
      and nm = "''psql_longitude''"] assms
  by simp

lemma psql_postal_code_B_run:
  assumes "cur s" "postal_code s = Some xs" "tx s ''postal_code'' = Some (fresh True [''postal_code_value CHAR(5)''] [])"
  shows "snd (psql_postal_code_B s) = (case filled_absent (sql_cast s) (sql_equal s) ''postal_code'' [''postal_code_value CHAR(5)''] (map (\<lambda>x. [PyStr x]) xs) of Inl e \<Rightarrow> Inl e | Inr _ \<Rightarrow> Inr PyNone) \<and>
         (\<forall>t'. filled_absent (sql_cast s) (sql_equal s) ''postal_code'' [''postal_code_value CHAR(5)''] (map (\<lambda>x. [PyStr x]) xs) = Inr t' \<longrightarrow> tx (fst (psql_postal_code_B s)) = (tx s)(''postal_code'' \<mapsto> t'))"
  unfolding psql_postal_code_B_def cmd_single_field_def filled_absent_def str_or_list.case
  using populate_conditional[where s = s and attr = postal_code and xs = xs and n = "''postal_code''"
      and t = "fresh True [''postal_code_value CHAR(5)''] []" and ps = "\<lambda>x. [PyStr x]" and fl = "[''postal_code_value'']"
      and nm = "''psql_postal_code''"] assms
  by simp

lemma psql_state_B_run:
  assumes "cur s" "state s = Some xs" "tx s ''state'' = Some (fresh True [''state_name CHAR(2)''] [])"
  shows "snd (psql_state_B s) = (case filled_absent (sql_cast s) (sql_equal s) ''state'' [''state_name CHAR(2)''] (map (\<lambda>x. [PyStr x]) xs) of Inl e \<Rightarrow> Inl e | Inr _ \<Rightarrow> Inr PyNone) \<and>
         (\<forall>t'. filled_absent (sql_cast s) (sql_equal s) ''state'' [''state_name CHAR(2)''] (map (\<lambda>x. [PyStr x]) xs) = Inr t' \<longrightarrow> tx (fst (psql_state_B s)) = (tx s)(''state'' \<mapsto> t'))"
  unfolding psql_state_B_def cmd_single_field_def filled_absent_def str_or_list.case
  using populate_conditional[where s = s and attr = state and xs = xs and n = "''state''"
      and t = "fresh True [''state_name CHAR(2)''] []" and ps = "\<lambda>x. [PyStr x]" and fl = "[''state_name'']"
      and nm = "''psql_state''"] assms
  by simp

lemma psql_times_B_run:
  assumes "cur s" "time s = Some xs" "tx s ''times'' = Some (fresh True [''time_value TIME''] [])"
  shows "snd (psql_times_B s) = (case filled_absent (sql_cast s) (sql_equal s) ''times'' [''time_value TIME''] (map (\<lambda>x. [PyTime x]) xs) of Inl e \<Rightarrow> Inl e | Inr _ \<Rightarrow> Inr PyNone) \<and>
         (\<forall>t'. filled_absent (sql_cast s) (sql_equal s) ''times'' [''time_value TIME''] (map (\<lambda>x. [PyTime x]) xs) = Inr t' \<longrightarrow> tx (fst (psql_times_B s)) = (tx s)(''times'' \<mapsto> t'))"
  unfolding psql_times_B_def cmd_single_field_def filled_absent_def str_or_list.case
  using populate_conditional[where s = s and attr = time and xs = xs and n = "''times''"
      and t = "fresh True [''time_value TIME''] []" and ps = "\<lambda>x. [PyTime x]" and fl = "[''time_value'']"
      and nm = "''psql_times''"] assms
  by simp

lemma db_phase_A:
  assumes "cur s" "holds_locations locs s" "country s = Some cs" "time s = Some ts"
    "block [psql_tables_A, psql_city_A, psql_country_A, psql_latitude_A, psql_longitude_A, psql_postal_code_A, psql_state_A, psql_times_A] s = (s', Inr v)"
  shows "length cs \<noteq> 1 \<and> loaded s' = loaded s \<and> durable s' = durable s \<and>
         (\<exists>L. lookups_A (sql_cast s) locs cs ts = Inr L \<and> tx s' = tx s ++ map_of (L @ composites_A))"
proof -
  note bl = db_blind_loaded db_blind_durable
  have h: "location_data s = Some locs" "city s = Some (np_unique (map loc_city locs))"
    "state s = Some (np_unique (map loc_state locs))"
    "postal_code s = Some (np_unique (map loc_postal_code locs))"
    "latitude s = Some (np_unique (map loc_latitude locs))"
    "longitude s = Some (np_unique (map loc_longitude locs))"
    using assms(2) by (simp_all add: holds_locations_def)
  define s1 where "s1 = fst (psql_tables_A s)"
  have r1: "snd (psql_tables_A s) = Inr PyNone" and t1: "tx s1 = tx s ++ map_of created_A"
    using psql_tables_A_run[OF assms(1)] by (simp_all add: s1_def)
  have e1: "block (psql_tables_A # cs) s = block cs s1" for cs
    unfolding s1_def using r1 by (rule block_step)
  have l1: "loaded s1 = loaded s" and d1: "durable s1 = durable s"
    unfolding s1_def
    by (rule keepsD[OF keeps_psql_tables_A[OF bl(1)]], rule keepsD[OF keeps_psql_tables_A[OF bl(2)]])
  note f1 = loaded_fields[OF l1]
  have b1: "block [psql_city_A, psql_country_A, psql_latitude_A, psql_longitude_A, psql_postal_code_A, psql_state_A, psql_times_A] s1 = (s', Inr v)"
    using assms(5) unfolding e1 .
  from b1 obtain s2 v2 where p2: "psql_city_A s1 = (s2, Inr v2)"
    and b2: "block [psql_country_A, psql_latitude_A, psql_longitude_A, psql_postal_code_A, psql_state_A, psql_times_A] s2 = (s', Inr v)"
    by (rule block_ConsE)
  have sc2: "sql_cast s1 = sql_cast s" "sql_equal s1 = sql_equal s" using f1 by simp_all
  have q2: "snd (psql_city_A s1) = (case filled (sql_cast s1) ''city'' [''value TEXT''] (map (\<lambda>x. [PyStr x]) (np_unique (map loc_city locs))) of Inl e \<Rightarrow> Inl e | Inr _ \<Rightarrow> Inr PyNone) \<and>
         (\<forall>t'. filled (sql_cast s1) ''city'' [''value TEXT''] (map (\<lambda>x. [PyStr x]) (np_unique (map loc_city locs))) = Inr t' \<longrightarrow> tx (fst (psql_city_A s1)) = (tx s1)(''city'' \<mapsto> t'))"
    using f1 assms h by (intro psql_city_A_run) (simp_all add: t1 created_A_eq tables_A_def map_add_def)
  obtain u2 where c2: "filled (sql_cast s) ''city'' [''value TEXT''] (map (\<lambda>x. [PyStr x]) (np_unique (map loc_city locs))) = Inr u2"
    using q2 p2 unfolding sc2 by (cases "filled (sql_cast s) ''city'' [''value TEXT''] (map (\<lambda>x. [PyStr x]) (np_unique (map loc_city locs)))") simp_all
  have t2: "tx s2 = (tx s1)(''city'' \<mapsto> u2)"
    using q2 c2 p2 unfolding sc2 by simp
  have l2: "loaded s2 = loaded s" and d2: "durable s2 = durable s"
    using keepsD[OF keeps_populate_A(1)[OF bl(1)], of s1] keepsD[OF keeps_populate_A(1)[OF bl(2)], of s1] l1 d1 p2
    by simp_all
  note f2 = loaded_fields[OF l2]
  from b2 obtain s3 v3 where p3: "psql_country_A s2 = (s3, Inr v3)"
    and b3: "block [psql_latitude_A, psql_longitude_A, psql_postal_code_A, psql_state_A, psql_times_A] s3 = (s', Inr v)"
    by (rule block_ConsE)
  have sc3: "sql_cast s2 = sql_cast s" "sql_equal s2 = sql_equal s" using f2 by simp_all
  have n3: "length cs \<noteq> 1"
  proof
    assume "length cs = 1"
    then have "snd (psql_country_A s2) = Inl (TypeError ''iteration over a 0-d array'')"
      using f2 assms(3) by (intro psql_country_A_0d) simp_all
    with p3 show False by simp
  qed
  have q3: "snd (psql_country_A s2) = (case filled (sql_cast s2) ''country'' [''value CHAR(2)'', ''name TEXT''] (map (\<lambda>x. [PyStr (fst x), PyStr (snd x)]) (cs)) of Inl e \<Rightarrow> Inl e | Inr _ \<Rightarrow> Inr PyNone) \<and>
         (\<forall>t'. filled (sql_cast s2) ''country'' [''value CHAR(2)'', ''name TEXT''] (map (\<lambda>x. [PyStr (fst x), PyStr (snd x)]) (cs)) = Inr t' \<longrightarrow> tx (fst (psql_country_A s2)) = (tx s2)(''country'' \<mapsto> t'))"
    using f2 assms h n3 by (intro psql_country_A_run) (simp_all add: t1 t2 created_A_eq tables_A_def map_add_def)
  obtain u3 where c3: "filled (sql_cast s) ''country'' [''value CHAR(2)'', ''name TEXT''] (map (\<lambda>x. [PyStr (fst x), PyStr (snd x)]) (cs)) = Inr u3"
    using q3 p3 unfolding sc3 by (cases "filled (sql_cast s) ''country'' [''value CHAR(2)'', ''name TEXT''] (map (\<lambda>x. [PyStr (fst x), PyStr (snd x)]) (cs))") simp_all
  have t3: "tx s3 = (tx s2)(''country'' \<mapsto> u3)"
    using q3 c3 p3 unfolding sc3 by simp
  have l3: "loaded s3 = loaded s" and d3: "durable s3 = durable s"
    using keepsD[OF keeps_populate_A(2)[OF bl(1)], of s2] keepsD[OF keeps_populate_A(2)[OF bl(2)], of s2] l2 d2 p3
    by simp_all
  note f3 = loaded_fields[OF l3]
  from b3 obtain s4 v4 where p4: "psql_latitude_A s3 = (s4, Inr v4)"
    and b4: "block [psql_longitude_A, psql_postal_code_A, psql_state_A, psql_times_A] s4 = (s', Inr v)"
    by (rule block_ConsE)
  have sc4: "sql_cast s3 = sql_cast s" "sql_equal s3 = sql_equal s" using f3 by simp_all
  have q4: "snd (psql_latitude_A s3) = (case filled (sql_cast s3) ''latitude'' [''value DOUBLE PRECISION''] (map (\<lambda>x. [PyStr x]) (np_unique (map loc_latitude locs))) of Inl e \<Rightarrow> Inl e | Inr _ \<Rightarrow> Inr PyNone) \<and>
         (\<forall>t'. filled (sql_cast s3) ''latitude'' [''value DOUBLE PRECISION''] (map (\<lambda>x. [PyStr x]) (np_unique (map loc_latitude locs))) = Inr t' \<longrightarrow> tx (fst (psql_latitude_A s3)) = (tx s3)(''latitude'' \<mapsto> t'))"
    using f3 assms h by (intro psql_latitude_A_run) (simp_all add: t1 t2 t3 created_A_eq tables_A_def map_add_def)
  obtain u4 where c4: "filled (sql_cast s) ''latitude'' [''value DOUBLE PRECISION''] (map (\<lambda>x. [PyStr x]) (np_unique (map loc_latitude locs))) = Inr u4"
    using q4 p4 unfolding sc4 by (cases "filled (sql_cast s) ''latitude'' [''value DOUBLE PRECISION''] (map (\<lambda>x. [PyStr x]) (np_unique (map loc_latitude locs)))") simp_all
  have t4: "tx s4 = (tx s3)(''latitude'' \<mapsto> u4)"
    using q4 c4 p4 unfolding sc4 by simp
  have l4: "loaded s4 = loaded s" and d4: "durable s4 = durable s"
    using keepsD[OF keeps_populate_A(3)[OF bl(1)], of s3] keepsD[OF keeps_populate_A(3)[OF bl(2)], of s3] l3 d3 p4
    by simp_all
  note f4 = loaded_fields[OF l4]
  from b4 obtain s5 v5 where p5: "psql_longitude_A s4 = (s5, Inr v5)"
    and b5: "block [psql_postal_code_A, psql_state_A, psql_times_A] s5 = (s', Inr v)"
    by (rule block_ConsE)
  have sc5: "sql_cast s4 = sql_cast s" "sql_equal s4 = sql_equal s" using f4 by simp_all
  have q5: "snd (psql_longitude_A s4) = (case filled (sql_cast s4) ''longitude'' [''value DOUBLE PRECISION''] (map (\<lambda>x. [PyStr x]) (np_unique (map loc_longitude locs))) of Inl e \<Rightarrow> Inl e | Inr _ \<Rightarrow> Inr PyNone) \<and>
         (\<forall>t'. filled (sql_cast s4) ''longitude'' [''value DOUBLE PRECISION''] (map (\<lambda>x. [PyStr x]) (np_unique (map loc_longitude locs))) = Inr t' \<longrightarrow> tx (fst (psql_longitude_A s4)) = (tx s4)(''longitude'' \<mapsto> t'))"
    using f4 assms h by (intro psql_longitude_A_run) (simp_all add: t1 t2 t3 t4 created_A_eq tables_A_def map_add_def)
  obtain u5 where c5: "filled (sql_cast s) ''longitude'' [''value DOUBLE PRECISION''] (map (\<lambda>x. [PyStr x]) (np_unique (map loc_longitude locs))) = Inr u5"
    using q5 p5 unfolding sc5 by (cases "filled (sql_cast s) ''longitude'' [''value DOUBLE PRECISION''] (map (\<lambda>x. [PyStr x]) (np_unique (map loc_longitude locs)))") simp_all
  have t5: "tx s5 = (tx s4)(''longitude'' \<mapsto> u5)"
    using q5 c5 p5 unfolding sc5 by simp
  have l5: "loaded s5 = loaded s" and d5: "durable s5 = durable s"
    using keepsD[OF keeps_populate_A(4)[OF bl(1)], of s4] keepsD[OF keeps_populate_A(4)[OF bl(2)], of s4] l4 d4 p5
    by simp_all
  note f5 = loaded_fields[OF l5]
  from b5 obtain s6 v6 where p6: "psql_postal_code_A s5 = (s6, Inr v6)"
    and b6: "block [psql_state_A, psql_times_A] s6 = (s', Inr v)"
    by (rule block_ConsE)
  have sc6: "sql_cast s5 = sql_cast s" "sql_equal s5 = sql_equal s" using f5 by simp_all
  have q6: "snd (psql_postal_code_A s5) = (case filled (sql_cast s5) ''postal_code'' [''value CHAR(5)''] (map (\<lambda>x. [PyStr x]) (np_unique (map loc_postal_code locs))) of Inl e \<Rightarrow> Inl e | Inr _ \<Rightarrow> Inr PyNone) \<and>
         (\<forall>t'. filled (sql_cast s5) ''postal_code'' [''value CHAR(5)''] (map (\<lambda>x. [PyStr x]) (np_unique (map loc_postal_code locs))) = Inr t' \<longrightarrow> tx (fst (psql_postal_code_A s5)) = (tx s5)(''postal_code'' \<mapsto> t'))"
    using f5 assms h by (intro psql_postal_code_A_run) (simp_all add: t1 t2 t3 t4 t5 created_A_eq tables_A_def map_add_def)
  obtain u6 where c6: "filled (sql_cast s) ''postal_code'' [''value CHAR(5)''] (map (\<lambda>x. [PyStr x]) (np_unique (map loc_postal_code locs))) = Inr u6"
    using q6 p6 unfolding sc6 by (cases "filled (sql_cast s) ''postal_code'' [''value CHAR(5)''] (map (\<lambda>x. [PyStr x]) (np_unique (map loc_postal_code locs)))") simp_all
  have t6: "tx s6 = (tx s5)(''postal_code'' \<mapsto> u6)"
    using q6 c6 p6 unfolding sc6 by simp
  have l6: "loaded s6 = loaded s" and d6: "durable s6 = durable s"
    using keepsD[OF keeps_populate_A(5)[OF bl(1)], of s5] keepsD[OF keeps_populate_A(5)[OF bl(2)], of s5] l5 d5 p6
    by simp_all
  note f6 = loaded_fields[OF l6]
  from b6 obtain s7 v7 where p7: "psql_state_A s6 = (s7, Inr v7)"
    and b7: "block [psql_times_A] s7 = (s', Inr v)"
    by (rule block_ConsE)
  have sc7: "sql_cast s6 = sql_cast s" "sql_equal s6 = sql_equal s" using f6 by simp_all
  have q7: "snd (psql_state_A s6) = (case filled (sql_cast s6) ''state'' [''value CHAR(2)''] (map (\<lambda>x. [PyStr x]) (np_unique (map loc_state locs))) of Inl e \<Rightarrow> Inl e | Inr _ \<Rightarrow> Inr PyNone) \<and>
         (\<forall>t'. filled (sql_cast s6) ''state'' [''value CHAR(2)''] (map (\<lambda>x. [PyStr x]) (np_unique (map loc_state locs))) = Inr t' \<longrightarrow> tx (fst (psql_state_A s6)) = (tx s6)(''state'' \<mapsto> t'))"
    using f6 assms h by (intro psql_state_A_run) (simp_all add: t1 t2 t3 t4 t5 t6 created_A_eq tables_A_def map_add_def)
  obtain u7 where c7: "filled (sql_cast s) ''state'' [''value CHAR(2)''] (map (\<lambda>x. [PyStr x]) (np_unique (map loc_state locs))) = Inr u7"
    using q7 p7 unfolding sc7 by (cases "filled (sql_cast s) ''state'' [''value CHAR(2)''] (map (\<lambda>x. [PyStr x]) (np_unique (map loc_state locs)))") simp_all
  have t7: "tx s7 = (tx s6)(''state'' \<mapsto> u7)"
    using q7 c7 p7 unfolding sc7 by simp
  have l7: "loaded s7 = loaded s" and d7: "durable s7 = durable s"
    using keepsD[OF keeps_populate_A(6)[OF bl(1)], of s6] keepsD[OF keeps_populate_A(6)[OF bl(2)], of s6] l6 d6 p7
    by simp_all
  note f7 = loaded_fields[OF l7]
  from b7 obtain s8 v8 where p8: "psql_times_A s7 = (s8, Inr v8)"
    and b8: "block [] s8 = (s', Inr v)"
    by (rule block_ConsE)
  have sc8: "sql_cast s7 = sql_cast s" "sql_equal s7 = sql_equal s" using f7 by simp_all
  have q8: "snd (psql_times_A s7) = (case filled (sql_cast s7) ''event_time'' [''value TIME''] (map (\<lambda>x. [PyTime x]) (ts)) of Inl e \<Rightarrow> Inl e | Inr _ \<Rightarrow> Inr PyNone) \<and>
         (\<forall>t'. filled (sql_cast s7) ''event_time'' [''value TIME''] (map (\<lambda>x. [PyTime x]) (ts)) = Inr t' \<longrightarrow> tx (fst (psql_times_A s7)) = (tx s7)(''event_time'' \<mapsto> t'))"
    using f7 assms h by (intro psql_times_A_run) (simp_all add: t1 t2 t3 t4 t5 t6 t7 created_A_eq tables_A_def map_add_def)
  obtain u8 where c8: "filled (sql_cast s) ''event_time'' [''value TIME''] (map (\<lambda>x. [PyTime x]) (ts)) = Inr u8"
    using q8 p8 unfolding sc8 by (cases "filled (sql_cast s) ''event_time'' [''value TIME''] (map (\<lambda>x. [PyTime x]) (ts))") simp_all
  have t8: "tx s8 = (tx s7)(''event_time'' \<mapsto> u8)"
    using q8 c8 p8 unfolding sc8 by simp
  have l8: "loaded s8 = loaded s" and d8: "durable s8 = durable s"
    using keepsD[OF keeps_populate_A(7)[OF bl(1)], of s7] keepsD[OF keeps_populate_A(7)[OF bl(2)], of s7] l7 d7 p8
    by simp_all
  note f8 = loaded_fields[OF l8]
  have s': "s' = s8" using b8 by simp
  have "\<exists>L. lookups_A (sql_cast s) locs cs ts = Inr L"
    unfolding lookups_A_def
    by (rule collect_map_Inr) (auto simp: tables_A_def sent_A_def c2 c3 c4 c5 c6 c7 c8)
  then obtain L where L: "lookups_A (sql_cast s) locs cs ts = Inr L" by blast
  have "tx s8 = tx s ++ map_of (L @ composites_A)"
    by (intro ext)
       (simp add: t1 t2 t3 t4 t5 t6 t7 t8 created_A_eq map_add_def map_of_append
          map_of_lookups_A[OF L] tables_A_def sent_A_def c2 c3 c4 c5 c6 c7 c8 composites_A_def)
  with L n3 l8 d8 show ?thesis unfolding s' by blast
qed

lemma db_phase_A_total:
  assumes "cur s" "holds_locations locs s" "country s = Some cs" "time s = Some ts"
    "length cs \<noteq> 1" "lookups_A (sql_cast s) locs cs ts = Inr L"
  shows "\<exists>s'. block [psql_tables_A, psql_city_A, psql_country_A, psql_latitude_A, psql_longitude_A, psql_postal_code_A, psql_state_A, psql_times_A] s = (s', Inr PyNone) \<and>
              loaded s' = loaded s \<and> durable s' = durable s \<and>
              tx s' = tx s ++ map_of (L @ composites_A)"
proof -
  note bl = db_blind_loaded db_blind_durable
  have h: "location_data s = Some locs" "city s = Some (np_unique (map loc_city locs))"
    "state s = Some (np_unique (map loc_state locs))"
    "postal_code s = Some (np_unique (map loc_postal_code locs))"
    "latitude s = Some (np_unique (map loc_latitude locs))"
    "longitude s = Some (np_unique (map loc_longitude locs))"
    using assms(2) by (simp_all add: holds_locations_def)
  define s1 where "s1 = fst (psql_tables_A s)"
  have r1: "snd (psql_tables_A s) = Inr PyNone" and t1: "tx s1 = tx s ++ map_of created_A"
    using psql_tables_A_run[OF assms(1)] by (simp_all add: s1_def)
  have e1: "block (psql_tables_A # cs) s = block cs s1" for cs
    unfolding s1_def using r1 by (rule block_step)
  have l1: "loaded s1 = loaded s" and d1: "durable s1 = durable s"
    unfolding s1_def
    by (rule keepsD[OF keeps_psql_tables_A[OF bl(1)]], rule keepsD[OF keeps_psql_tables_A[OF bl(2)]])
  note f1 = loaded_fields[OF l1]
  have ex1: "\<exists>t. filled (sql_cast s) ''city'' [''value TEXT''] (map (\<lambda>x. [PyStr x]) (np_unique (map loc_city locs))) = Inr t"
    using filled_of_lookups_A[OF assms(6), of "''city''" "[''value TEXT'']"]
    by (simp add: tables_A_def sent_A_def)
  have ex2: "\<exists>t. filled (sql_cast s) ''country'' [''value CHAR(2)'', ''name TEXT''] (map (\<lambda>x. [PyStr (fst x), PyStr (snd x)]) (cs)) = Inr t"
    using filled_of_lookups_A[OF assms(6), of "''country''" "[''value CHAR(2)'', ''name TEXT'']"]
    by (simp add: tables_A_def sent_A_def)
  have ex3: "\<exists>t. filled (sql_cast s) ''latitude'' [''value DOUBLE PRECISION''] (map (\<lambda>x. [PyStr x]) (np_unique (map loc_latitude locs))) = Inr t"
    using filled_of_lookups_A[OF assms(6), of "''latitude''" "[''value DOUBLE PRECISION'']"]
    by (simp add: tables_A_def sent_A_def)
  have ex4: "\<exists>t. filled (sql_cast s) ''longitude'' [''value DOUBLE PRECISION''] (map (\<lambda>x. [PyStr x]) (np_unique (map loc_longitude locs))) = Inr t"
    using filled_of_lookups_A[OF assms(6), of "''longitude''" "[''value DOUBLE PRECISION'']"]
    by (simp add: tables_A_def sent_A_def)
  have ex5: "\<exists>t. filled (sql_cast s) ''postal_code'' [''value CHAR(5)''] (map (\<lambda>x. [PyStr x]) (np_unique (map loc_postal_code locs))) = Inr t"
    using filled_of_lookups_A[OF assms(6), of "''postal_code''" "[''value CHAR(5)'']"]
    by (simp add: tables_A_def sent_A_def)
  have ex6: "\<exists>t. filled (sql_cast s) ''state'' [''value CHAR(2)''] (map (\<lambda>x. [PyStr x]) (np_unique (map loc_state locs))) = Inr t"
    using filled_of_lookups_A[OF assms(6), of "''state''" "[''value CHAR(2)'']"]
    by (simp add: tables_A_def sent_A_def)
  have ex7: "\<exists>t. filled (sql_cast s) ''event_time'' [''value TIME''] (map (\<lambda>x. [PyTime x]) (ts)) = Inr t"
    using filled_of_lookups_A[OF assms(6), of "''event_time''" "[''value TIME'']"]
    by (simp add: tables_A_def sent_A_def)
  from ex1 obtain u2 where c2: "filled (sql_cast s) ''city'' [''value TEXT''] (map (\<lambda>x. [PyStr x]) (np_unique (map loc_city locs))) = Inr u2" by blast
  define s2 where "s2 = fst (psql_city_A s1)"
  have q2: "snd (psql_city_A s1) = (case filled (sql_cast s1) ''city'' [''value TEXT''] (map (\<lambda>x. [PyStr x]) (np_unique (map loc_city locs))) of Inl e \<Rightarrow> Inl e | Inr _ \<Rightarrow> Inr PyNone) \<and>
         (\<forall>t'. filled (sql_cast s1) ''city'' [''value TEXT''] (map (\<lambda>x. [PyStr x]) (np_unique (map loc_city locs))) = Inr t' \<longrightarrow> tx (fst (psql_city_A s1)) = (tx s1)(''city'' \<mapsto> t'))"
    using f1 assms h by (intro psql_city_A_run) (simp_all add: t1 created_A_eq tables_A_def map_add_def)
  have sc2: "sql_cast s1 = sql_cast s" "sql_equal s1 = sql_equal s" using f1 by simp_all
  have r2: "snd (psql_city_A s1) = Inr PyNone" and t2: "tx s2 = (tx s1)(''city'' \<mapsto> u2)"
    using q2 c2 unfolding sc2 s2_def by simp_all
  have e2: "block (psql_city_A # cs) s1 = block cs s2" for cs
    unfolding s2_def using r2 by (rule block_step)
  have l2: "loaded s2 = loaded s" and d2: "durable s2 = durable s"
    unfolding s2_def
    using keepsD[OF keeps_populate_A(1)[OF bl(1)], of s1] keepsD[OF keeps_populate_A(1)[OF bl(2)], of s1] l1 d1
    by simp_all
  note f2 = loaded_fields[OF l2]
  from ex2 obtain u3 where c3: "filled (sql_cast s) ''country'' [''value CHAR(2)'', ''name TEXT''] (map (\<lambda>x. [PyStr (fst x), PyStr (snd x)]) (cs)) = Inr u3" by blast
  define s3 where "s3 = fst (psql_country_A s2)"
  have q3: "snd (psql_country_A s2) = (case filled (sql_cast s2) ''country'' [''value CHAR(2)'', ''name TEXT''] (map (\<lambda>x. [PyStr (fst x), PyStr (snd x)]) (cs)) of Inl e \<Rightarrow> Inl e | Inr _ \<Rightarrow> Inr PyNone) \<and>
         (\<forall>t'. filled (sql_cast s2) ''country'' [''value CHAR(2)'', ''name TEXT''] (map (\<lambda>x. [PyStr (fst x), PyStr (snd x)]) (cs)) = Inr t' \<longrightarrow> tx (fst (psql_country_A s2)) = (tx s2)(''country'' \<mapsto> t'))"
    using f2 assms h by (intro psql_country_A_run) (simp_all add: t1 t2 created_A_eq tables_A_def map_add_def)
  have sc3: "sql_cast s2 = sql_cast s" "sql_equal s2 = sql_equal s" using f2 by simp_all
  have r3: "snd (psql_country_A s2) = Inr PyNone" and t3: "tx s3 = (tx s2)(''country'' \<mapsto> u3)"
    using q3 c3 unfolding sc3 s3_def by simp_all
  have e3: "block (psql_country_A # cs) s2 = block cs s3" for cs
    unfolding s3_def using r3 by (rule block_step)
  have l3: "loaded s3 = loaded s" and d3: "durable s3 = durable s"
    unfolding s3_def
    using keepsD[OF keeps_populate_A(2)[OF bl(1)], of s2] keepsD[OF keeps_populate_A(2)[OF bl(2)], of s2] l2 d2
    by simp_all
  note f3 = loaded_fields[OF l3]
  from ex3 obtain u4 where c4: "filled (sql_cast s) ''latitude'' [''value DOUBLE PRECISION''] (map (\<lambda>x. [PyStr x]) (np_unique (map loc_latitude locs))) = Inr u4" by blast
  define s4 where "s4 = fst (psql_latitude_A s3)"
  have q4: "snd (psql_latitude_A s3) = (case filled (sql_cast s3) ''latitude'' [''value DOUBLE PRECISION''] (map (\<lambda>x. [PyStr x]) (np_unique (map loc_latitude locs))) of Inl e \<Rightarrow> Inl e | Inr _ \<Rightarrow> Inr PyNone) \<and>
         (\<forall>t'. filled (sql_cast s3) ''latitude'' [''value DOUBLE PRECISION''] (map (\<lambda>x. [PyStr x]) (np_unique (map loc_latitude locs))) = Inr t' \<longrightarrow> tx (fst (psql_latitude_A s3)) = (tx s3)(''latitude'' \<mapsto> t'))"
    using f3 assms h by (intro psql_latitude_A_run) (simp_all add: t1 t2 t3 created_A_eq tables_A_def map_add_def)
  have sc4: "sql_cast s3 = sql_cast s" "sql_equal s3 = sql_equal s" using f3 by simp_all
  have r4: "snd (psql_latitude_A s3) = Inr PyNone" and t4: "tx s4 = (tx s3)(''latitude'' \<mapsto> u4)"
    using q4 c4 unfolding sc4 s4_def by simp_all
  have e4: "block (psql_latitude_A # cs) s3 = block cs s4" for cs
    unfolding s4_def using r4 by (rule block_step)
  have l4: "loaded s4 = loaded s" and d4: "durable s4 = durable s"
    unfolding s4_def
    using keepsD[OF keeps_populate_A(3)[OF bl(1)], of s3] keepsD[OF keeps_populate_A(3)[OF bl(2)], of s3] l3 d3
    by simp_all
  note f4 = loaded_fields[OF l4]
  from ex4 obtain u5 where c5: "filled (sql_cast s) ''longitude'' [''value DOUBLE PRECISION''] (map (\<lambda>x. [PyStr x]) (np_unique (map loc_longitude locs))) = Inr u5" by blast
  define s5 where "s5 = fst (psql_longitude_A s4)"
  have q5: "snd (psql_longitude_A s4) = (case filled (sql_cast s4) ''longitude'' [''value DOUBLE PRECISION''] (map (\<lambda>x. [PyStr x]) (np_unique (map loc_longitude locs))) of Inl e \<Rightarrow> Inl e | Inr _ \<Rightarrow> Inr PyNone) \<and>
         (\<forall>t'. filled (sql_cast s4) ''longitude'' [''value DOUBLE PRECISION''] (map (\<lambda>x. [PyStr x]) (np_unique (map loc_longitude locs))) = Inr t' \<longrightarrow> tx (fst (psql_longitude_A s4)) = (tx s4)(''longitude'' \<mapsto> t'))"
    using f4 assms h by (intro psql_longitude_A_run) (simp_all add: t1 t2 t3 t4 created_A_eq tables_A_def map_add_def)
  have sc5: "sql_cast s4 = sql_cast s" "sql_equal s4 = sql_equal s" using f4 by simp_all
  have r5: "snd (psql_longitude_A s4) = Inr PyNone" and t5: "tx s5 = (tx s4)(''longitude'' \<mapsto> u5)"
    using q5 c5 unfolding sc5 s5_def by simp_all
  have e5: "block (psql_longitude_A # cs) s4 = block cs s5" for cs
    unfolding s5_def using r5 by (rule block_step)
  have l5: "loaded s5 = loaded s" and d5: "durable s5 = durable s"
    unfolding s5_def
    using keepsD[OF keeps_populate_A(4)[OF bl(1)], of s4] keepsD[OF keeps_populate_A(4)[OF bl(2)], of s4] l4 d4
    by simp_all
  note f5 = loaded_fields[OF l5]
  from ex5 obtain u6 where c6: "filled (sql_cast s) ''postal_code'' [''value CHAR(5)''] (map (\<lambda>x. [PyStr x]) (np_unique (map loc_postal_code locs))) = Inr u6" by blast
  define s6 where "s6 = fst (psql_postal_code_A s5)"
  have q6: "snd (psql_postal_code_A s5) = (case filled (sql_cast s5) ''postal_code'' [''value CHAR(5)''] (map (\<lambda>x. [PyStr x]) (np_unique (map loc_postal_code locs))) of Inl e \<Rightarrow> Inl e | Inr _ \<Rightarrow> Inr PyNone) \<and>
         (\<forall>t'. filled (sql_cast s5) ''postal_code'' [''value CHAR(5)''] (map (\<lambda>x. [PyStr x]) (np_unique (map loc_postal_code locs))) = Inr t' \<longrightarrow> tx (fst (psql_postal_code_A s5)) = (tx s5)(''postal_code'' \<mapsto> t'))"
    using f5 assms h by (intro psql_postal_code_A_run) (simp_all add: t1 t2 t3 t4 t5 created_A_eq tables_A_def map_add_def)
  have sc6: "sql_cast s5 = sql_cast s" "sql_equal s5 = sql_equal s" using f5 by simp_all
  have r6: "snd (psql_postal_code_A s5) = Inr PyNone" and t6: "tx s6 = (tx s5)(''postal_code'' \<mapsto> u6)"
    using q6 c6 unfolding sc6 s6_def by simp_all
  have e6: "block (psql_postal_code_A # cs) s5 = block cs s6" for cs
    unfolding s6_def using r6 by (rule block_step)
  have l6: "loaded s6 = loaded s" and d6: "durable s6 = durable s"
    unfolding s6_def
    using keepsD[OF keeps_populate_A(5)[OF bl(1)], of s5] keepsD[OF keeps_populate_A(5)[OF bl(2)], of s5] l5 d5
    by simp_all
  note f6 = loaded_fields[OF l6]
  from ex6 obtain u7 where c7: "filled (sql_cast s) ''state'' [''value CHAR(2)''] (map (\<lambda>x. [PyStr x]) (np_unique (map loc_state locs))) = Inr u7" by blast
  define s7 where "s7 = fst (psql_state_A s6)"
  have q7: "snd (psql_state_A s6) = (case filled (sql_cast s6) ''state'' [''value CHAR(2)''] (map (\<lambda>x. [PyStr x]) (np_unique (map loc_state locs))) of Inl e \<Rightarrow> Inl e | Inr _ \<Rightarrow> Inr PyNone) \<and>
         (\<forall>t'. filled (sql_cast s6) ''state'' [''value CHAR(2)''] (map (\<lambda>x. [PyStr x]) (np_unique (map loc_state locs))) = Inr t' \<longrightarrow> tx (fst (psql_state_A s6)) = (tx s6)(''state'' \<mapsto> t'))"
    using f6 assms h by (intro psql_state_A_run) (simp_all add: t1 t2 t3 t4 t5 t6 created_A_eq tables_A_def map_add_def)
  have sc7: "sql_cast s6 = sql_cast s" "sql_equal s6 = sql_equal s" using f6 by simp_all
  have r7: "snd (psql_state_A s6) = Inr PyNone" and t7: "tx s7 = (tx s6)(''state'' \<mapsto> u7)"
    using q7 c7 unfolding sc7 s7_def by simp_all
  have e7: "block (psql_state_A # cs) s6 = block cs s7" for cs
    unfolding s7_def using r7 by (rule block_step)
  have l7: "loaded s7 = loaded s" and d7: "durable s7 = durable s"
    unfolding s7_def
    using keepsD[OF keeps_populate_A(6)[OF bl(1)], of s6] keepsD[OF keeps_populate_A(6)[OF bl(2)], of s6] l6 d6
    by simp_all
  note f7 = loaded_fields[OF l7]
  from ex7 obtain u8 where c8: "filled (sql_cast s) ''event_time'' [''value TIME''] (map (\<lambda>x. [PyTime x]) (ts)) = Inr u8" by blast
  define s8 where "s8 = fst (psql_times_A s7)"
  have q8: "snd (psql_times_A s7) = (case filled (sql_cast s7) ''event_time'' [''value TIME''] (map (\<lambda>x. [PyTime x]) (ts)) of Inl e \<Rightarrow> Inl e | Inr _ \<Rightarrow> Inr PyNone) \<and>
         (\<forall>t'. filled (sql_cast s7) ''event_time'' [''value TIME''] (map (\<lambda>x. [PyTime x]) (ts)) = Inr t' \<longrightarrow> tx (fst (psql_times_A s7)) = (tx s7)(''event_time'' \<mapsto> t'))"
    using f7 assms h by (intro psql_times_A_run) (simp_all add: t1 t2 t3 t4 t5 t6 t7 created_A_eq tables_A_def map_add_def)
  have sc8: "sql_cast s7 = sql_cast s" "sql_equal s7 = sql_equal s" using f7 by simp_all
  have r8: "snd (psql_times_A s7) = Inr PyNone" and t8: "tx s8 = (tx s7)(''event_time'' \<mapsto> u8)"
    using q8 c8 unfolding sc8 s8_def by simp_all
  have e8: "block (psql_times_A # cs) s7 = block cs s8" for cs
    unfolding s8_def using r8 by (rule block_step)
  have l8: "loaded s8 = loaded s" and d8: "durable s8 = durable s"
    unfolding s8_def
    using keepsD[OF keeps_populate_A(7)[OF bl(1)], of s7] keepsD[OF keeps_populate_A(7)[OF bl(2)], of s7] l7 d7
    by simp_all
  note f8 = loaded_fields[OF l8]
  have b: "block [psql_tables_A, psql_city_A, psql_country_A, psql_latitude_A, psql_longitude_A, psql_postal_code_A, psql_state_A, psql_times_A] s = (s8, Inr PyNone)"
    unfolding e1 e2 e3 e4 e5 e6 e7 e8 by simp
  have "tx s8 = tx s ++ map_of (L @ composites_A)"
    by (intro ext)
       (simp add: t1 t2 t3 t4 t5 t6 t7 t8 created_A_eq map_add_def map_of_append
          map_of_lookups_A[OF assms(6)] tables_A_def sent_A_def c2 c3 c4 c5 c6 c7 c8 composites_A_def)
  with b l8 d8 show ?thesis by blast
qed

lemma db_phase_B:
  assumes "cur s" "holds_locations locs s" "country s = Some cs" "time s = Some ts"
    "block [psql_tables_B, psql_city_B, psql_country_B, psql_latitude_B, psql_longitude_B, psql_postal_code_B, psql_state_B, psql_times_B] s = (s', Inr v)"
  shows "length cs \<noteq> 1 \<and> loaded s' = loaded s \<and> durable s' = durable s \<and>
         (\<exists>L. lookups_B (sql_cast s) (sql_equal s) locs cs ts = Inr L \<and> tx s' = tx s ++ map_of (L @ composites_B))"
proof -
  note bl = db_blind_loaded db_blind_durable
  have h: "location_data s = Some locs" "city s = Some (np_unique (map loc_city locs))"
    "state s = Some (np_unique (map loc_state locs))"
    "postal_code s = Some (np_unique (map loc_postal_code locs))"
    "latitude s = Some (np_unique (map loc_latitude locs))"
    "longitude s = Some (np_unique (map loc_longitude locs))"
    using assms(2) by (simp_all add: holds_locations_def)
  define s1 where "s1 = fst (psql_tables_B s)"
  have r1: "snd (psql_tables_B s) = Inr PyNone" and t1: "tx s1 = tx s ++ map_of created_B"
    using psql_tables_B_run[OF assms(1)] by (simp_all add: s1_def)
  have e1: "block (psql_tables_B # cs) s = block cs s1" for cs
    unfolding s1_def using r1 by (rule block_step)
  have l1: "loaded s1 = loaded s" and d1: "durable s1 = durable s"
    unfolding s1_def
    by (rule keepsD[OF keeps_psql_tables_B[OF bl(1)]], rule keepsD[OF keeps_psql_tables_B[OF bl(2)]])
  note f1 = loaded_fields[OF l1]
  have b1: "block [psql_city_B, psql_country_B, psql_latitude_B, psql_longitude_B, psql_postal_code_B, psql_state_B, psql_times_B] s1 = (s', Inr v)"
    using assms(5) unfolding e1 .
  from b1 obtain s2 v2 where p2: "psql_city_B s1 = (s2, Inr v2)"
    and b2: "block [psql_country_B, psql_latitude_B, psql_longitude_B, psql_postal_code_B, psql_state_B, psql_times_B] s2 = (s', Inr v)"
    by (rule block_ConsE)
  have sc2: "sql_cast s1 = sql_cast s" "sql_equal s1 = sql_equal s" using f1 by simp_all
  have q2: "snd (psql_city_B s1) = (case filled_absent (sql_cast s1) (sql_equal s1) ''city'' [''city_name TEXT''] (map (\<lambda>x. [PyStr x]) (np_unique (map loc_city locs))) of Inl e \<Rightarrow> Inl e | Inr _ \<Rightarrow> Inr PyNone) \<and>
         (\<forall>t'. filled_absent (sql_cast s1) (sql_equal s1) ''city'' [''city_name TEXT''] (map (\<lambda>x. [PyStr x]) (np_unique (map loc_city locs))) = Inr t' \<longrightarrow> tx (fst (psql_city_B s1)) = (tx s1)(''city'' \<mapsto> t'))"
    using f1 assms h by (intro psql_city_B_run) (simp_all add: t1 created_B_eq tables_B_def map_add_def)
  obtain u2 where c2: "filled_absent (sql_cast s) (sql_equal s) ''city'' [''city_name TEXT''] (map (\<lambda>x. [PyStr x]) (np_unique (map loc_city locs))) = Inr u2"
    using q2 p2 unfolding sc2 by (cases "filled_absent (sql_cast s) (sql_equal s) ''city'' [''city_name TEXT''] (map (\<lambda>x. [PyStr x]) (np_unique (map loc_city locs)))") simp_all
  have t2: "tx s2 = (tx s1)(''city'' \<mapsto> u2)"
    using q2 c2 p2 unfolding sc2 by simp
  have l2: "loaded s2 = loaded s" and d2: "durable s2 = durable s"
    using keepsD[OF keeps_populate_B(1)[OF bl(1)], of s1] keepsD[OF keeps_populate_B(1)[OF bl(2)], of s1] l1 d1 p2
    by simp_all
  note f2 = loaded_fields[OF l2]
  from b2 obtain s3 v3 where p3: "psql_country_B s2 = (s3, Inr v3)"
    and b3: "block [psql_latitude_B, psql_longitude_B, psql_postal_code_B, psql_state_B, psql_times_B] s3 = (s', Inr v)"
    by (rule block_ConsE)
  have sc3: "sql_cast s2 = sql_cast s" "sql_equal s2 = sql_equal s" using f2 by simp_all
  have n3: "length cs \<noteq> 1"
  proof
    assume "length cs = 1"
    then have "snd (psql_country_B s2) = Inl (TypeError ''iteration over a 0-d array'')"
      using f2 assms(3) by (intro psql_country_B_0d) simp_all
    with p3 show False by simp
  qed
  have q3: "snd (psql_country_B s2) = (case filled_absent (sql_cast s2) (sql_equal s2) ''country'' [''country_abbr CHAR(2)'', ''country_name TEXT''] (map (\<lambda>x. [PyStr (fst x), PyStr (snd x)]) (cs)) of Inl e \<Rightarrow> Inl e | Inr _ \<Rightarrow> Inr PyNone) \<and>
         (\<forall>t'. filled_absent (sql_cast s2) (sql_equal s2) ''country'' [''country_abbr CHAR(2)'', ''country_name TEXT''] (map (\<lambda>x. [PyStr (fst x), PyStr (snd x)]) (cs)) = Inr t' \<longrightarrow> tx (fst (psql_country_B s2)) = (tx s2)(''country'' \<mapsto> t'))"
    using f2 assms h n3 by (intro psql_country_B_run) (simp_all add: t1 t2 created_B_eq tables_B_def map_add_def)
  obtain u3 where c3: "filled_absent (sql_cast s) (sql_equal s) ''country'' [''country_abbr CHAR(2)'', ''country_name TEXT''] (map (\<lambda>x. [PyStr (fst x), PyStr (snd x)]) (cs)) = Inr u3"
    using q3 p3 unfolding sc3 by (cases "filled_absent (sql_cast s) (sql_equal s) ''country'' [''country_abbr CHAR(2)'', ''country_name TEXT''] (map (\<lambda>x. [PyStr (fst x), PyStr (snd x)]) (cs))") simp_all
  have t3: "tx s3 = (tx s2)(''country'' \<mapsto> u3)"
    using q3 c3 p3 unfolding sc3 by simp
  have l3: "loaded s3 = loaded s" and d3: "durable s3 = durable s"
    using keepsD[OF keeps_populate_B(2)[OF bl(1)], of s2] keepsD[OF keeps_populate_B(2)[OF bl(2)], of s2] l2 d2 p3
    by simp_all
  note f3 = loaded_fields[OF l3]
  from b3 obtain s4 v4 where p4: "psql_latitude_B s3 = (s4, Inr v4)"
    and b4: "block [psql_longitude_B, psql_postal_code_B, psql_state_B, psql_times_B] s4 = (s', Inr v)"
    by (rule block_ConsE)
  have sc4: "sql_cast s3 = sql_cast s" "sql_equal s3 = sql_equal s" using f3 by simp_all
  have q4: "snd (psql_latitude_B s3) = (case filled_absent (sql_cast s3) (sql_equal s3) ''latitude'' [''latitude_value REAL''] (map (\<lambda>x. [PyFloat x]) (np_unique (map loc_latitude locs))) of Inl e \<Rightarrow> Inl e | Inr _ \<Rightarrow> Inr PyNone) \<and>
         (\<forall>t'. filled_absent (sql_cast s3) (sql_equal s3) ''latitude'' [''latitude_value REAL''] (map (\<lambda>x. [PyFloat x]) (np_unique (map loc_latitude locs))) = Inr t' \<longrightarrow> tx (fst (psql_latitude_B s3)) = (tx s3)(''latitude'' \<mapsto> t'))"
    using f3 assms h by (intro psql_latitude_B_run) (simp_all add: t1 t2 t3 created_B_eq tables_B_def map_add_def)
  obtain u4 where c4: "filled_absent (sql_cast s) (sql_equal s) ''latitude'' [''latitude_value REAL''] (map (\<lambda>x. [PyFloat x]) (np_unique (map loc_latitude locs))) = Inr u4"
    using q4 p4 unfolding sc4 by (cases "filled_absent (sql_cast s) (sql_equal s) ''latitude'' [''latitude_value REAL''] (map (\<lambda>x. [PyFloat x]) (np_unique (map loc_latitude locs)))") simp_all
  have t4: "tx s4 = (tx s3)(''latitude'' \<mapsto> u4)"
    using q4 c4 p4 unfolding sc4 by simp
  have l4: "loaded s4 = loaded s" and d4: "durable s4 = durable s"
    using keepsD[OF keeps_populate_B(3)[OF bl(1)], of s3] keepsD[OF keeps_populate_B(3)[OF bl(2)], of s3] l3 d3 p4
    by simp_all
  note f4 = loaded_fields[OF l4]
  from b4 obtain s5 v5 where p5: "psql_longitude_B s4 = (s5, Inr v5)"
    and b5: "block [psql_postal_code_B, psql_state_B, psql_times_B] s5 = (s', Inr v)"
    by (rule block_ConsE)
  have sc5: "sql_cast s4 = sql_cast s" "sql_equal s4 = sql_equal s" using f4 by simp_all
  have q5: "snd (psql_longitude_B s4) = (case filled_absent (sql_cast s4) (sql_equal s4) ''longitude'' [''longitude_value REAL''] (map (\<lambda>x. [PyFloat x]) (np_unique (map loc_longitude locs))) of Inl e \<Rightarrow> Inl e | Inr _ \<Rightarrow> Inr PyNone) \<and>
         (\<forall>t'. filled_absent (sql_cast s4) (sql_equal s4) ''longitude'' [''longitude_value REAL''] (map (\<lambda>x. [PyFloat x]) (np_unique (map loc_longitude locs))) = Inr t' \<longrightarrow> tx (fst (psql_longitude_B s4)) = (tx s4)(''longitude'' \<mapsto> t'))"
    using f4 assms h by (intro psql_longitude_B_run) (simp_all add: t1 t2 t3 t4 created_B_eq tables_B_def map_add_def)
  obtain u5 where c5: "filled_absent (sql_cast s) (sql_equal s) ''longitude'' [''longitude_value REAL''] (map (\<lambda>x. [PyFloat x]) (np_unique (map loc_longitude locs))) = Inr u5"
    using q5 p5 unfolding sc5 by (cases "filled_absent (sql_cast s) (sql_equal s) ''longitude'' [''longitude_value REAL''] (map (\<lambda>x. [PyFloat x]) (np_unique (map loc_longitude locs)))") simp_all
  have t5: "tx s5 = (tx s4)(''longitude'' \<mapsto> u5)"
    using q5 c5 p5 unfolding sc5 by simp
  have l5: "loaded s5 = loaded s" and d5: "durable s5 = durable s"
    using keepsD[OF keeps_populate_B(4)[OF bl(1)], of s4] keepsD[OF keeps_populate_B(4)[OF bl(2)], of s4] l4 d4 p5
    by simp_all
  note f5 = loaded_fields[OF l5]
  from b5 obtain s6 v6 where p6: "psql_postal_code_B s5 = (s6, Inr v6)"
    and b6: "block [psql_state_B, psql_times_B] s6 = (s', Inr v)"
    by (rule block_ConsE)
  have sc6: "sql_cast s5 = sql_cast s" "sql_equal s5 = sql_equal s" using f5 by simp_all
  have q6: "snd (psql_postal_code_B s5) = (case filled_absent (sql_cast s5) (sql_equal s5) ''postal_code'' [''postal_code_value CHAR(5)''] (map (\<lambda>x. [PyStr x]) (np_unique (map loc_postal_code locs))) of Inl e \<Rightarrow> Inl e | Inr _ \<Rightarrow> Inr PyNone) \<and>
         (\<forall>t'. filled_absent (sql_cast s5) (sql_equal s5) ''postal_code'' [''postal_code_value CHAR(5)''] (map (\<lambda>x. [PyStr x]) (np_unique (map loc_postal_code locs))) = Inr t' \<longrightarrow> tx (fst (psql_postal_code_B s5)) = (tx s5)(''postal_code'' \<mapsto> t'))"
    using f5 assms h by (intro psql_postal_code_B_run) (simp_all add: t1 t2 t3 t4 t5 created_B_eq tables_B_def map_add_def)
  obtain u6 where c6: "filled_absent (sql_cast s) (sql_equal s) ''postal_code'' [''postal_code_value CHAR(5)''] (map (\<lambda>x. [PyStr x]) (np_unique (map loc_postal_code locs))) = Inr u6"
    using q6 p6 unfolding sc6 by (cases "filled_absent (sql_cast s) (sql_equal s) ''postal_code'' [''postal_code_value CHAR(5)''] (map (\<lambda>x. [PyStr x]) (np_unique (map loc_postal_code locs)))") simp_all
  have t6: "tx s6 = (tx s5)(''postal_code'' \<mapsto> u6)"
    using q6 c6 p6 unfolding sc6 by simp
  have l6: "loaded s6 = loaded s" and d6: "durable s6 = durable s"
    using keepsD[OF keeps_populate_B(5)[OF bl(1)], of s5] keepsD[OF keeps_populate_B(5)[OF bl(2)], of s5] l5 d5 p6
    by simp_all
  note f6 = loaded_fields[OF l6]
  from b6 obtain s7 v7 where p7: "psql_state_B s6 = (s7, Inr v7)"
    and b7: "block [psql_times_B] s7 = (s', Inr v)"
    by (rule block_ConsE)
  have sc7: "sql_cast s6 = sql_cast s" "sql_equal s6 = sql_equal s" using f6 by simp_all
  have q7: "snd (psql_state_B s6) = (case filled_absent (sql_cast s6) (sql_equal s6) ''state'' [''state_name CHAR(2)''] (map (\<lambda>x. [PyStr x]) (np_unique (map loc_state locs))) of Inl e \<Rightarrow> Inl e | Inr _ \<Rightarrow> Inr PyNone) \<and>
         (\<forall>t'. filled_absent (sql_cast s6) (sql_equal s6) ''state'' [''state_name CHAR(2)''] (map (\<lambda>x. [PyStr x]) (np_unique (map loc_state locs))) = Inr t' \<longrightarrow> tx (fst (psql_state_B s6)) = (tx s6)(''state'' \<mapsto> t'))"
    using f6 assms h by (intro psql_state_B_run) (simp_all add: t1 t2 t3 t4 t5 t6 created_B_eq tables_B_def map_add_def)
  obtain u7 where c7: "filled_absent (sql_cast s) (sql_equal s) ''state'' [''state_name CHAR(2)''] (map (\<lambda>x. [PyStr x]) (np_unique (map loc_state locs))) = Inr u7"
    using q7 p7 unfolding sc7 by (cases "filled_absent (sql_cast s) (sql_equal s) ''state'' [''state_name CHAR(2)''] (map (\<lambda>x. [PyStr x]) (np_unique (map loc_state locs)))") simp_all
  have t7: "tx s7 = (tx s6)(''state'' \<mapsto> u7)"
    using q7 c7 p7 unfolding sc7 by simp
  have l7: "loaded s7 = loaded s" and d7: "durable s7 = durable s"
    using keepsD[OF keeps_populate_B(6)[OF bl(1)], of s6] keepsD[OF keeps_populate_B(6)[OF bl(2)], of s6] l6 d6 p7
    by simp_all
  note f7 = loaded_fields[OF l7]
  from b7 obtain s8 v8 where p8: "psql_times_B s7 = (s8, Inr v8)"
    and b8: "block [] s8 = (s', Inr v)"
    by (rule block_ConsE)
  have sc8: "sql_cast s7 = sql_cast s" "sql_equal s7 = sql_equal s" using f7 by simp_all
  have q8: "snd (psql_times_B s7) = (case filled_absent (sql_cast s7) (sql_equal s7) ''times'' [''time_value TIME''] (map (\<lambda>x. [PyTime x]) (ts)) of Inl e \<Rightarrow> Inl e | Inr _ \<Rightarrow> Inr PyNone) \<and>
         (\<forall>t'. filled_absent (sql_cast s7) (sql_equal s7) ''times'' [''time_value TIME''] (map (\<lambda>x. [PyTime x]) (ts)) = Inr t' \<longrightarrow> tx (fst (psql_times_B s7)) = (tx s7)(''times'' \<mapsto> t'))"
    using f7 assms h by (intro psql_times_B_run) (simp_all add: t1 t2 t3 t4 t5 t6 t7 created_B_eq tables_B_def map_add_def)
  obtain u8 where c8: "filled_absent (sql_cast s) (sql_equal s) ''times'' [''time_value TIME''] (map (\<lambda>x. [PyTime x]) (ts)) = Inr u8"
    using q8 p8 unfolding sc8 by (cases "filled_absent (sql_cast s) (sql_equal s) ''times'' [''time_value TIME''] (map (\<lambda>x. [PyTime x]) (ts))") simp_all
  have t8: "tx s8 = (tx s7)(''times'' \<mapsto> u8)"
    using q8 c8 p8 unfolding sc8 by simp
  have l8: "loaded s8 = loaded s" and d8: "durable s8 = durable s"
    using keepsD[OF keeps_populate_B(7)[OF bl(1)], of s7] keepsD[OF keeps_populate_B(7)[OF bl(2)], of s7] l7 d7 p8
    by simp_all
  note f8 = loaded_fields[OF l8]
  have s': "s' = s8" using b8 by simp
  have "\<exists>L. lookups_B (sql_cast s) (sql_equal s) locs cs ts = Inr L"
    unfolding lookups_B_def
    by (rule collect_map_Inr) (auto simp: tables_B_def sent_B_def c2 c3 c4 c5 c6 c7 c8)
  then obtain L where L: "lookups_B (sql_cast s) (sql_equal s) locs cs ts = Inr L" by blast
  have "tx s8 = tx s ++ map_of (L @ composites_B)"
    by (intro ext)
       (simp add: t1 t2 t3 t4 t5 t6 t7 t8 created_B_eq map_add_def map_of_append
          map_of_lookups_B[OF L] tables_B_def sent_B_def c2 c3 c4 c5 c6 c7 c8 composites_B_def)
  with L n3 l8 d8 show ?thesis unfolding s' by blast
qed

lemma db_phase_B_total:
  assumes "cur s" "holds_locations locs s" "country s = Some cs" "time s = Some ts"
    "length cs \<noteq> 1" "lookups_B (sql_cast s) (sql_equal s) locs cs ts = Inr L"
  shows "\<exists>s'. block [psql_tables_B, psql_city_B, psql_country_B, psql_latitude_B, psql_longitude_B, psql_postal_code_B, psql_state_B, psql_times_B] s = (s', Inr PyNone) \<and>
              loaded s' = loaded s \<and> durable s' = durable s \<and>
              tx s' = tx s ++ map_of (L @ composites_B)"
proof -
  note bl = db_blind_loaded db_blind_durable
  have h: "location_data s = Some locs" "city s = Some (np_unique (map loc_city locs))"
    "state s = Some (np_unique (map loc_state locs))"
    "postal_code s = Some (np_unique (map loc_postal_code locs))"
    "latitude s = Some (np_unique (map loc_latitude locs))"
    "longitude s = Some (np_unique (map loc_longitude locs))"
    using assms(2) by (simp_all add: holds_locations_def)
  define s1 where "s1 = fst (psql_tables_B s)"
  have r1: "snd (psql_tables_B s) = Inr PyNone" and t1: "tx s1 = tx s ++ map_of created_B"
    using psql_tables_B_run[OF assms(1)] by (simp_all add: s1_def)
  have e1: "block (psql_tables_B # cs) s = block cs s1" for cs
    unfolding s1_def using r1 by (rule block_step)
  have l1: "loaded s1 = loaded s" and d1: "durable s1 = durable s"
    unfolding s1_def
    by (rule keepsD[OF keeps_psql_tables_B[OF bl(1)]], rule keepsD[OF keeps_psql_tables_B[OF bl(2)]])
  note f1 = loaded_fields[OF l1]
  have ex1: "\<exists>t. filled_absent (sql_cast s) (sql_equal s) ''city'' [''city_name TEXT''] (map (\<lambda>x. [PyStr x]) (np_unique (map loc_city locs))) = Inr t"
    using filled_of_lookups_B[OF assms(6), of "''city''" "[''city_name TEXT'']"]
    by (simp add: tables_B_def sent_B_def)
  have ex2: "\<exists>t. filled_absent (sql_cast s) (sql_equal s) ''country'' [''country_abbr CHAR(2)'', ''country_name TEXT''] (map (\<lambda>x. [PyStr (fst x), PyStr (snd x)]) (cs)) = Inr t"
    using filled_of_lookups_B[OF assms(6), of "''country''" "[''country_abbr CHAR(2)'', ''country_name TEXT'']"]
    by (simp add: tables_B_def sent_B_def)
  have ex3: "\<exists>t. filled_absent (sql_cast s) (sql_equal s) ''latitude'' [''latitude_value REAL''] (map (\<lambda>x. [PyFloat x]) (np_unique (map loc_latitude locs))) = Inr t"
    using filled_of_lookups_B[OF assms(6), of "''latitude''" "[''latitude_value REAL'']"]
    by (simp add: tables_B_def sent_B_def)
  have ex4: "\<exists>t. filled_absent (sql_cast s) (sql_equal s) ''longitude'' [''longitude_value REAL''] (map (\<lambda>x. [PyFloat x]) (np_unique (map loc_longitude locs))) = Inr t"
    using filled_of_lookups_B[OF assms(6), of "''longitude''" "[''longitude_value REAL'']"]
    by (simp add: tables_B_def sent_B_def)
  have ex5: "\<exists>t. filled_absent (sql_cast s) (sql_equal s) ''postal_code'' [''postal_code_value CHAR(5)''] (map (\<lambda>x. [PyStr x]) (np_unique (map loc_postal_code locs))) = Inr t"
    using filled_of_lookups_B[OF assms(6), of "''postal_code''" "[''postal_code_value CHAR(5)'']"]
    by (simp add: tables_B_def sent_B_def)
  have ex6: "\<exists>t. filled_absent (sql_cast s) (sql_equal s) ''state'' [''state_name CHAR(2)''] (map (\<lambda>x. [PyStr x]) (np_unique (map loc_state locs))) = Inr t"
    using filled_of_lookups_B[OF assms(6), of "''state''" "[''state_name CHAR(2)'']"]
    by (simp add: tables_B_def sent_B_def)
  have ex7: "\<exists>t. filled_absent (sql_cast s) (sql_equal s) ''times'' [''time_value TIME''] (map (\<lambda>x. [PyTime x]) (ts)) = Inr t"
    using filled_of_lookups_B[OF assms(6), of "''times''" "[''time_value TIME'']"]
    by (simp add: tables_B_def sent_B_def)
  from ex1 obtain u2 where c2: "filled_absent (sql_cast s) (sql_equal s) ''city'' [''city_name TEXT''] (map (\<lambda>x. [PyStr x]) (np_unique (map loc_city locs))) = Inr u2" by blast
  define s2 where "s2 = fst (psql_city_B s1)"
  have q2: "snd (psql_city_B s1) = (case filled_absent (sql_cast s1) (sql_equal s1) ''city'' [''city_name TEXT''] (map (\<lambda>x. [PyStr x]) (np_unique (map loc_city locs))) of Inl e \<Rightarrow> Inl e | Inr _ \<Rightarrow> Inr PyNone) \<and>
         (\<forall>t'. filled_absent (sql_cast s1) (sql_equal s1) ''city'' [''city_name TEXT''] (map (\<lambda>x. [PyStr x]) (np_unique (map loc_city locs))) = Inr t' \<longrightarrow> tx (fst (psql_city_B s1)) = (tx s1)(''city'' \<mapsto> t'))"
    using f1 assms h by (intro psql_city_B_run) (simp_all add: t1 created_B_eq tables_B_def map_add_def)
  have sc2: "sql_cast s1 = sql_cast s" "sql_equal s1 = sql_equal s" using f1 by simp_all
  have r2: "snd (psql_city_B s1) = Inr PyNone" and t2: "tx s2 = (tx s1)(''city'' \<mapsto> u2)"
    using q2 c2 unfolding sc2 s2_def by simp_all
  have e2: "block (psql_city_B # cs) s1 = block cs s2" for cs
    unfolding s2_def using r2 by (rule block_step)
  have l2: "loaded s2 = loaded s" and d2: "durable s2 = durable s"
    unfolding s2_def
    using keepsD[OF keeps_populate_B(1)[OF bl(1)], of s1] keepsD[OF keeps_populate_B(1)[OF bl(2)], of s1] l1 d1
    by simp_all
  note f2 = loaded_fields[OF l2]
  from ex2 obtain u3 where c3: "filled_absent (sql_cast s) (sql_equal s) ''country'' [''country_abbr CHAR(2)'', ''country_name TEXT''] (map (\<lambda>x. [PyStr (fst x), PyStr (snd x)]) (cs)) = Inr u3" by blast
  define s3 where "s3 = fst (psql_country_B s2)"
  have q3: "snd (psql_country_B s2) = (case filled_absent (sql_cast s2) (sql_equal s2) ''country'' [''country_abbr CHAR(2)'', ''country_name TEXT''] (map (\<lambda>x. [PyStr (fst x), PyStr (snd x)]) (cs)) of Inl e \<Rightarrow> Inl e | Inr _ \<Rightarrow> Inr PyNone) \<and>
         (\<forall>t'. filled_absent (sql_cast s2) (sql_equal s2) ''country'' [''country_abbr CHAR(2)'', ''country_name TEXT''] (map (\<lambda>x. [PyStr (fst x), PyStr (snd x)]) (cs)) = Inr t' \<longrightarrow> tx (fst (psql_country_B s2)) = (tx s2)(''country'' \<mapsto> t'))"
    using f2 assms h by (intro psql_country_B_run) (simp_all add: t1 t2 created_B_eq tables_B_def map_add_def)
  have sc3: "sql_cast s2 = sql_cast s" "sql_equal s2 = sql_equal s" using f2 by simp_all
  have r3: "snd (psql_country_B s2) = Inr PyNone" and t3: "tx s3 = (tx s2)(''country'' \<mapsto> u3)"
    using q3 c3 unfolding sc3 s3_def by simp_all
  have e3: "block (psql_country_B # cs) s2 = block cs s3" for cs
    unfolding s3_def using r3 by (rule block_step)
  have l3: "loaded s3 = loaded s" and d3: "durable s3 = durable s"
    unfolding s3_def
    using keepsD[OF keeps_populate_B(2)[OF bl(1)], of s2] keepsD[OF keeps_populate_B(2)[OF bl(2)], of s2] l2 d2
    by simp_all
  note f3 = loaded_fields[OF l3]
  from ex3 obtain u4 where c4: "filled_absent (sql_cast s) (sql_equal s) ''latitude'' [''latitude_value REAL''] (map (\<lambda>x. [PyFloat x]) (np_unique (map loc_latitude locs))) = Inr u4" by blast
  define s4 where "s4 = fst (psql_latitude_B s3)"
  have q4: "snd (psql_latitude_B s3) = (case filled_absent (sql_cast s3) (sql_equal s3) ''latitude'' [''latitude_value REAL''] (map (\<lambda>x. [PyFloat x]) (np_unique (map loc_latitude locs))) of Inl e \<Rightarrow> Inl e | Inr _ \<Rightarrow> Inr PyNone) \<and>
         (\<forall>t'. filled_absent (sql_cast s3) (sql_equal s3) ''latitude'' [''latitude_value REAL''] (map (\<lambda>x. [PyFloat x]) (np_unique (map loc_latitude locs))) = Inr t' \<longrightarrow> tx (fst (psql_latitude_B s3)) = (tx s3)(''latitude'' \<mapsto> t'))"
    using f3 assms h by (intro psql_latitude_B_run) (simp_all add: t1 t2 t3 created_B_eq tables_B_def map_add_def)
  have sc4: "sql_cast s3 = sql_cast s" "sql_equal s3 = sql_equal s" using f3 by simp_all
  have r4: "snd (psql_latitude_B s3) = Inr PyNone" and t4: "tx s4 = (tx s3)(''latitude'' \<mapsto> u4)"
    using q4 c4 unfolding sc4 s4_def by simp_all
  have e4: "block (psql_latitude_B # cs) s3 = block cs s4" for cs
    unfolding s4_def using r4 by (rule block_step)
  have l4: "loaded s4 = loaded s" and d4: "durable s4 = durable s"
    unfolding s4_def
    using keepsD[OF keeps_populate_B(3)[OF bl(1)], of s3] keepsD[OF keeps_populate_B(3)[OF bl(2)], of s3] l3 d3
    by simp_all
  note f4 = loaded_fields[OF l4]
  from ex4 obtain u5 where c5: "filled_absent (sql_cast s) (sql_equal s) ''longitude'' [''longitude_value REAL''] (map (\<lambda>x. [PyFloat x]) (np_unique (map loc_longitude locs))) = Inr u5" by blast
  define s5 where "s5 = fst (psql_longitude_B s4)"
  have q5: "snd (psql_longitude_B s4) = (case filled_absent (sql_cast s4) (sql_equal s4) ''longitude'' [''longitude_value REAL''] (map (\<lambda>x. [PyFloat x]) (np_unique (map loc_longitude locs))) of Inl e \<Rightarrow> Inl e | Inr _ \<Rightarrow> Inr PyNone) \<and>
         (\<forall>t'. filled_absent (sql_cast s4) (sql_equal s4) ''longitude'' [''longitude_value REAL''] (map (\<lambda>x. [PyFloat x]) (np_unique (map loc_longitude locs))) = Inr t' \<longrightarrow> tx (fst (psql_longitude_B s4)) = (tx s4)(''longitude'' \<mapsto> t'))"
    using f4 assms h by (intro psql_longitude_B_run) (simp_all add: t1 t2 t3 t4 created_B_eq tables_B_def map_add_def)
  have sc5: "sql_cast s4 = sql_cast s" "sql_equal s4 = sql_equal s" using f4 by simp_all
  have r5: "snd (psql_longitude_B s4) = Inr PyNone" and t5: "tx s5 = (tx s4)(''longitude'' \<mapsto> u5)"
    using q5 c5 unfolding sc5 s5_def by simp_all
  have e5: "block (psql_longitude_B # cs) s4 = block cs s5" for cs
    unfolding s5_def using r5 by (rule block_step)
  have l5: "loaded s5 = loaded s" and d5: "durable s5 = durable s"
    unfolding s5_def
    using keepsD[OF keeps_populate_B(4)[OF bl(1)], of s4] keepsD[OF keeps_populate_B(4)[OF bl(2)], of s4] l4 d4
    by simp_all
  note f5 = loaded_fields[OF l5]
  from ex5 obtain u6 where c6: "filled_absent (sql_cast s) (sql_equal s) ''postal_code'' [''postal_code_value CHAR(5)''] (map (\<lambda>x. [PyStr x]) (np_unique (map loc_postal_code locs))) = Inr u6" by blast
  define s6 where "s6 = fst (psql_postal_code_B s5)"
  have q6: "snd (psql_postal_code_B s5) = (case filled_absent (sql_cast s5) (sql_equal s5) ''postal_code'' [''postal_code_value CHAR(5)''] (map (\<lambda>x. [PyStr x]) (np_unique (map loc_postal_code locs))) of Inl e \<Rightarrow> Inl e | Inr _ \<Rightarrow> Inr PyNone) \<and>
         (\<forall>t'. filled_absent (sql_cast s5) (sql_equal s5) ''postal_code'' [''postal_code_value CHAR(5)''] (map (\<lambda>x. [PyStr x]) (np_unique (map loc_postal_code locs))) = Inr t' \<longrightarrow> tx (fst (psql_postal_code_B s5)) = (tx s5)(''postal_code'' \<mapsto> t'))"
    using f5 assms h by (intro psql_postal_code_B_run) (simp_all add: t1 t2 t3 t4 t5 created_B_eq tables_B_def map_add_def)
  have sc6: "sql_cast s5 = sql_cast s" "sql_equal s5 = sql_equal s" using f5 by simp_all
  have r6: "snd (psql_postal_code_B s5) = Inr PyNone" and t6: "tx s6 = (tx s5)(''postal_code'' \<mapsto> u6)"
    using q6 c6 unfolding sc6 s6_def by simp_all
  have e6: "block (psql_postal_code_B # cs) s5 = block cs s6" for cs
    unfolding s6_def using r6 by (rule block_step)
  have l6: "loaded s6 = loaded s" and d6: "durable s6 = durable s"
    unfolding s6_def
    using keepsD[OF keeps_populate_B(5)[OF bl(1)], of s5] keepsD[OF keeps_populate_B(5)[OF bl(2)], of s5] l5 d5
    by simp_all
  note f6 = loaded_fields[OF l6]
  from ex6 obtain u7 where c7: "filled_absent (sql_cast s) (sql_equal s) ''state'' [''state_name CHAR(2)''] (map (\<lambda>x. [PyStr x]) (np_unique (map loc_state locs))) = Inr u7" by blast
  define s7 where "s7 = fst (psql_state_B s6)"
  have q7: "snd (psql_state_B s6) = (case filled_absent (sql_cast s6) (sql_equal s6) ''state'' [''state_name CHAR(2)''] (map (\<lambda>x. [PyStr x]) (np_unique (map loc_state locs))) of Inl e \<Rightarrow> Inl e | Inr _ \<Rightarrow> Inr PyNone) \<and>
         (\<forall>t'. filled_absent (sql_cast s6) (sql_equal s6) ''state'' [''state_name CHAR(2)''] (map (\<lambda>x. [PyStr x]) (np_unique (map loc_state locs))) = Inr t' \<longrightarrow> tx (fst (psql_state_B s6)) = (tx s6)(''state'' \<mapsto> t'))"
    using f6 assms h by (intro psql_state_B_run) (simp_all add: t1 t2 t3 t4 t5 t6 created_B_eq tables_B_def map_add_def)
  have sc7: "sql_cast s6 = sql_cast s" "sql_equal s6 = sql_equal s" using f6 by simp_all
  have r7: "snd (psql_state_B s6) = Inr PyNone" and t7: "tx s7 = (tx s6)(''state'' \<mapsto> u7)"
    using q7 c7 unfolding sc7 s7_def by simp_all
  have e7: "block (psql_state_B # cs) s6 = block cs s7" for cs
    unfolding s7_def using r7 by (rule block_step)
  have l7: "loaded s7 = loaded s" and d7: "durable s7 = durable s"
    unfolding s7_def
    using keepsD[OF keeps_populate_B(6)[OF bl(1)], of s6] keepsD[OF keeps_populate_B(6)[OF bl(2)], of s6] l6 d6
    by simp_all
  note f7 = loaded_fields[OF l7]
  from ex7 obtain u8 where c8: "filled_absent (sql_cast s) (sql_equal s) ''times'' [''time_value TIME''] (map (\<lambda>x. [PyTime x]) (ts)) = Inr u8" by blast
  define s8 where "s8 = fst (psql_times_B s7)"
  have q8: "snd (psql_times_B s7) = (case filled_absent (sql_cast s7) (sql_equal s7) ''times'' [''time_value TIME''] (map (\<lambda>x. [PyTime x]) (ts)) of Inl e \<Rightarrow> Inl e | Inr _ \<Rightarrow> Inr PyNone) \<and>
         (\<forall>t'. filled_absent (sql_cast s7) (sql_equal s7) ''times'' [''time_value TIME''] (map (\<lambda>x. [PyTime x]) (ts)) = Inr t' \<longrightarrow> tx (fst (psql_times_B s7)) = (tx s7)(''times'' \<mapsto> t'))"
    using f7 assms h by (intro psql_times_B_run) (simp_all add: t1 t2 t3 t4 t5 t6 t7 created_B_eq tables_B_def map_add_def)
  have sc8: "sql_cast s7 = sql_cast s" "sql_equal s7 = sql_equal s" using f7 by simp_all
  have r8: "snd (psql_times_B s7) = Inr PyNone" and t8: "tx s8 = (tx s7)(''times'' \<mapsto> u8)"
    using q8 c8 unfolding sc8 s8_def by simp_all
  have e8: "block (psql_times_B # cs) s7 = block cs s8" for cs
    unfolding s8_def using r8 by (rule block_step)
  have l8: "loaded s8 = loaded s" and d8: "durable s8 = durable s"
    unfolding s8_def
    using keepsD[OF keeps_populate_B(7)[OF bl(1)], of s7] keepsD[OF keeps_populate_B(7)[OF bl(2)], of s7] l7 d7
    by simp_all
  note f8 = loaded_fields[OF l8]
  have b: "block [psql_tables_B, psql_city_B, psql_country_B, psql_latitude_B, psql_longitude_B, psql_postal_code_B, psql_state_B, psql_times_B] s = (s8, Inr PyNone)"
    unfolding e1 e2 e3 e4 e5 e6 e7 e8 by simp
  have "tx s8 = tx s ++ map_of (L @ composites_B)"
    by (intro ext)
       (simp add: t1 t2 t3 t4 t5 t6 t7 t8 created_B_eq map_add_def map_of_append
          map_of_lookups_B[OF assms(6)] tables_B_def sent_B_def c2 c3 c4 c5 c6 c7 c8 composites_B_def)
  with b l8 d8 show ?thesis by blast
qed

lemma run_B:
  assumes "initiate_db_B np s = (s', Inr v)"
  shows "\<exists>locs cs L. holds_locations locs s' \<and> country s' = Some cs \<and> length cs \<noteq> 1 \<and>
           commits s' = Suc (commits s) \<and>
           lookups_B (sql_cast s) (sql_equal s) locs cs five_minute_times = Inr L \<and>
           committed s' = committed s ++ map_of (L @ composites_B)"
proof -
  let ?pre = "[load_countries_B np, load_locations_B np, load_times, get_user, get_password,
               psql_connection]"
  let ?db = "[psql_tables_B, psql_city_B, psql_country_B, psql_latitude_B, psql_longitude_B,
              psql_postal_code_B, psql_state_B, psql_times_B]"
  have split: "initiate_db_B np = block (?pre @ (?db @ [commit]))"
    by (simp add: initiate_db_B_def steps_B_def)
  from assms obtain s6 where p: "block ?pre s = (s6, Inr PyNone)"
    and r: "block (?db @ [commit]) s6 = (s', Inr v)"
    unfolding split by (rule block_append_InrE)
  from pre_phase_B[OF p] obtain locs cs where f6: "holds_locations locs s6" "country s6 = Some cs"
    "time s6 = Some five_minute_times" "cur s6" "conn s6" "tx s6 = committed s" "durable s6 = durable s"
    "sql_cast s6 = sql_cast s" "sql_equal s6 = sql_equal s"
    by blast
  from r obtain s14 where d1: "block ?db s6 = (s14, Inr PyNone)" and c: "block [commit] s14 = (s', Inr v)"
    by (rule block_append_InrE)
  from db_phase_B[OF f6(4,1,2,3) d1] obtain L where d: "length cs \<noteq> 1"
    "loaded s14 = loaded s6" "durable s14 = durable s6"
    "lookups_B (sql_cast s6) (sql_equal s6) locs cs five_minute_times = Inr L"
    "tx s14 = tx s6 ++ map_of (L @ composites_B)" by blast
  note f14 = loaded_fields[OF d(2)]
  have s': "s' = s14\<lparr>committed := tx s14, commits := Suc (commits s14)\<rparr>"
    using c commit_run[of s14] f14 f6(5) by simp
  have "holds_locations locs s'" using f6(1) holds_locations_loaded[OF d(2), of locs]
    by (simp add: s' holds_locations_def)
  moreover have "country s' = Some cs" using f14 f6(2) by (simp add: s')
  moreover have "commits s' = Suc (commits s)" using d(3) f6(7) by (simp add: s' durable_def)
  moreover have "committed s' = committed s ++ map_of (L @ composites_B)"
    using d(5) f6(6) by (simp add: s')
  ultimately show ?thesis using d(1,4) unfolding f6(8,9) by blast
qed

lemma run_B_total:
  assumes "csv_zipped s" "fs s ''countries.csv.gz'' = Some (Gz (Raw ct))"
    "fs s ''us_postal_codes.csv.gz'' = Some (Gz (Raw lt))"
    "genfromtxt_countries np (remove_cr ct) = Inr cs"
    "genfromtxt_locations np (remove_cr lt) = Inr locs"
    "stdin s = u # p # rest"
    "(db_name s, Some (if u = [] then ''Tim'' else u), Some p) \<in> set (accepts s)"
    "length cs \<noteq> 1"
    "lookups_B (sql_cast s) (sql_equal s) locs cs five_minute_times = Inr L"
  shows "\<exists>s'. initiate_db_B np s = (s', Inr PyNone) \<and> commits s' = Suc (commits s) \<and>
              location_data s' = Some locs \<and> country s' = Some cs \<and>
              committed s' = committed s ++ map_of (L @ composites_B)"
proof -
  let ?pre = "[load_countries_B np, load_locations_B np, load_times, get_user, get_password,
               psql_connection]"
  let ?db = "[psql_tables_B, psql_city_B, psql_country_B, psql_latitude_B, psql_longitude_B,
              psql_postal_code_B, psql_state_B, psql_times_B]"
  have split: "initiate_db_B np = block (?pre @ (?db @ [commit]))"
    by (simp add: initiate_db_B_def steps_B_def)
  from pre_phase_B_total[OF assms(1-7)] obtain s6 where p: "block ?pre s = (s6, Inr PyNone)"
    and l6: "location_data s6 = Some locs" "country s6 = Some cs" by blast
  from pre_phase_B[OF p] obtain locs' cs' where f6: "holds_locations locs' s6" "country s6 = Some cs'"
    "time s6 = Some five_minute_times" "cur s6" "conn s6" "tx s6 = committed s" "durable s6 = durable s"
    "sql_cast s6 = sql_cast s" "sql_equal s6 = sql_equal s"
    by blast
  have e: "locs' = locs" "cs' = cs" using holds_locations_unique[OF f6(1) l6(1)] f6(2) l6(2) by simp_all
  have lk: "lookups_B (sql_cast s6) (sql_equal s6) locs' cs' five_minute_times = Inr L"
    using assms(9) unfolding e f6(8,9) .
  have n1: "length cs' \<noteq> 1" using assms(8) e by simp
  from db_phase_B_total[OF f6(4,1,2,3) n1 lk] obtain s14 where d: "block ?db s6 = (s14, Inr PyNone)"
    "loaded s14 = loaded s6" "durable s14 = durable s6"
    "tx s14 = tx s6 ++ map_of (L @ composites_B)" by blast
  note f14 = loaded_fields[OF d(2)]
  have c: "conn s14" using f14 f6(5) by simp
  have "initiate_db_B np s = (s14\<lparr>committed := tx s14, commits := Suc (commits s14)\<rparr>, Inr PyNone)"
    unfolding split block_append_run[OF p] block_append_run[OF d(1)] by (rule commit_run[OF c])
  moreover have "commits s14 = commits s" using d(3) f6(7) by (simp add: durable_def)
  moreover have "location_data s14 = Some locs" "country s14 = Some cs" using f14 l6 by simp_all
  ultimately show ?thesis using d(4) f6(6) by simp
qed

lemma substitute_resolve:
  assumes "\<And>vals. vals \<in> set found \<Longrightarrow> 2 \<le> length vals" "length mask_vals = length addresses"
  shows "substitute fstr k mask_vals found addresses =
     Inr (map (\<lambda>(m, a). case resolve fstr found m of Some c \<Rightarrow> a[k := c] | None \<Rightarrow> a)
            (zip mask_vals addresses))"
  using assms
proof (induction found arbitrary: addresses)
  case Nil
  have "map (\<lambda>(m, a). a) (zip mask_vals addresses) = addresses"
    using Nil(2) by (intro nth_equalityI) simp_all
  then show ?case by simp
next
  case (Cons vals rest)
  have "2 \<le> length vals" using Cons.prems(1) by simp
  then obtain v0 v1 vs where v: "vals = v0 # v1 # vs"
    by (cases vals; cases "tl vals") auto
  let ?upd = "\<lambda>(m, a). if m = py_str fstr v1 then a[k := take 6 (py_str fstr v0)] else a"
  let ?a1 = "map ?upd (zip mask_vals addresses)"
  have l: "length mask_vals = length ?a1" using Cons.prems(2) by simp
  have ih: "substitute fstr k mask_vals rest ?a1 =
     Inr (map (\<lambda>(m, a). case resolve fstr rest m of Some c \<Rightarrow> a[k := c] | None \<Rightarrow> a)
            (zip mask_vals ?a1))"
    using Cons.prems(1) l by (intro Cons.IH) auto
  have e: "map (\<lambda>(m, a). case resolve fstr rest m of Some c \<Rightarrow> a[k := c] | None \<Rightarrow> a)
            (zip mask_vals ?a1) =
           map (\<lambda>(m, a). case resolve fstr (vals # rest) m of Some c \<Rightarrow> a[k := c] | None \<Rightarrow> a)
            (zip mask_vals addresses)"
    using Cons.prems(2)
    by (intro nth_equalityI) (auto simp: v split: option.splits)
  show ?case using ih e by (simp add: v)
qed

lemma table_select_all:
  "cur s \<Longrightarrow> tx s n = Some t \<Longrightarrow>
   table_select n ''*'' None v s = (s\<lparr>fetched := []\<rparr>, Inr (rows t))"
  by (simp add: table_select_def bind_def execute_def fetchall_def)

lemma idx_step:
  assumes "cur s" "location_data s = Some locs" "tx s n = Some t" "location_field n = Some get"
    "address_column n = Some k" "\<And>r. r \<in> set (rows t) \<Longrightarrow> 2 \<le> length r"
    "length addresses = length locs"
  shows "\<exists>s1 s2 tr. table_select n ''*'' None PyNone s = (s1, Inr tr) \<and>
           idx_sub np n tr addresses s1 =
             (s2, Inr (map (\<lambda>(r, a). case resolve (float_str np) (rows t) (get r) of
                                       Some c \<Rightarrow> a[k := c] | None \<Rightarrow> a) (zip locs addresses))) \<and>
           tx s2 = tx s \<and> loaded s2 = loaded s \<and> durable s2 = durable s"
proof -
  let ?s1 = "s\<lparr>fetched := []\<rparr>"
  let ?s2 = "(print (''   '' @ n) ?s1)\<lparr>fetched := []\<rparr>"
  have 1: "table_select n ''*'' None PyNone s = (?s1, Inr (rows t))"
    using assms(1,3) by (rule table_select_all)
  have 2: "table_select n ''*'' None PyNone (print (''   '' @ n) ?s1) = (?s2, Inr (rows t))"
    using assms(1,3) by (intro table_select_all) simp_all
  have 3: "substitute (float_str np) k (map get locs) (rows t) addresses =
     Inr (map (\<lambda>(m, a). case resolve (float_str np) (rows t) m of Some c \<Rightarrow> a[k := c] | None \<Rightarrow> a)
            (zip (map get locs) addresses))"
    using assms(6,7) by (intro substitute_resolve) simp_all
  have 4: "map (\<lambda>(m, a). case resolve (float_str np) (rows t) m of Some c \<Rightarrow> a[k := c] | None \<Rightarrow> a)
            (zip (map get locs) addresses) =
           map (\<lambda>(r, a). case resolve (float_str np) (rows t) (get r) of
                            Some c \<Rightarrow> a[k := c] | None \<Rightarrow> a) (zip locs addresses)"
    by (intro nth_equalityI) simp_all
  have 5: "idx_sub np n (rows t) addresses ?s1 =
     (?s2, Inr (map (\<lambda>(r, a). case resolve (float_str np) (rows t) (get r) of
                            Some c \<Rightarrow> a[k := c] | None \<Rightarrow> a) (zip locs addresses)))"
    using assms(2,4,5) 2 3 4 by (simp add: idx_sub_def)
  have "tx ?s2 = tx s \<and> loaded ?s2 = loaded s \<and> durable ?s2 = durable s"
    by (simp add: loaded_def durable_def)
  with 1 5 show ?thesis by blast
qed

lemma address_columns [simp]:
  "address_column ''postal_code'' = Some 0" "address_column ''city'' = Some 1"
  "address_column ''state'' = Some 2" "address_column ''latitude'' = Some 3"
  "address_column ''longitude'' = Some 4"
  by (simp_all add: address_column_def address_fields_def upt_rec)

lemma location_fields [simp]:
  "location_field ''postal_code'' = Some loc_postal_code" "location_field ''city'' = Some loc_city"
  "location_field ''state'' = Some loc_state" "location_field ''latitude'' = Some loc_latitude"
  "location_field ''longitude'' = Some loc_longitude"
  by (simp_all add: location_field_def)

lemma idx_loop_Cons:
  assumes "table_select n ''*'' None PyNone s = (s1, Inr tr)"
    "idx_sub np n tr addresses s1 = (s2, Inr addresses')"
  shows "idx_loop np (n # ns) addresses s = idx_loop np ns addresses' s2"
  using assms by simp

lemma idx_loop_run:
  assumes "cur s" "location_data s = Some locs"
    "tx s ''postal_code'' = Some t0" "\<And>r. r \<in> set (rows t0) \<Longrightarrow> 2 \<le> length r"
    "tx s ''city'' = Some t1" "\<And>r. r \<in> set (rows t1) \<Longrightarrow> 2 \<le> length r"
    "tx s ''state'' = Some t2" "\<And>r. r \<in> set (rows t2) \<Longrightarrow> 2 \<le> length r"
    "tx s ''latitude'' = Some t3" "\<And>r. r \<in> set (rows t3) \<Longrightarrow> 2 \<le> length r"
    "tx s ''longitude'' = Some t4" "\<And>r. r \<in> set (rows t4) \<Longrightarrow> 2 \<le> length r"
  shows "\<exists>s'. idx_loop np address_fields (new_addresses s (length locs)) s =
                (s', Inr (address_cells (float_str np) (uninitialised s) (tx s) locs)) \<and>
              tx s' = tx s \<and> loaded s' = loaded s \<and> durable s' = durable s"
proof -
  let ?f = "float_str np"
  let ?a0 = "new_addresses s (length locs)"
  let ?a1 = "map (\<lambda>(r, a). case resolve ?f (rows t0) (loc_postal_code r) of Some c \<Rightarrow> a[0 := c] | None \<Rightarrow> a) (zip locs ?a0)"
  let ?a2 = "map (\<lambda>(r, a). case resolve ?f (rows t1) (loc_city r) of Some c \<Rightarrow> a[1 := c] | None \<Rightarrow> a) (zip locs ?a1)"
  let ?a3 = "map (\<lambda>(r, a). case resolve ?f (rows t2) (loc_state r) of Some c \<Rightarrow> a[2 := c] | None \<Rightarrow> a) (zip locs ?a2)"
  let ?a4 = "map (\<lambda>(r, a). case resolve ?f (rows t3) (loc_latitude r) of Some c \<Rightarrow> a[3 := c] | None \<Rightarrow> a) (zip locs ?a3)"
  let ?a5 = "map (\<lambda>(r, a). case resolve ?f (rows t4) (loc_longitude r) of Some c \<Rightarrow> a[4 := c] | None \<Rightarrow> a) (zip locs ?a4)"
  have l0: "length ?a0 = length locs" by (simp add: new_addresses_def)
  obtain u1 s1 tr1 where 1: "table_select ''postal_code'' ''*'' None PyNone s = (u1, Inr tr1)"
    "idx_sub np ''postal_code'' tr1 ?a0 u1 = (s1, Inr ?a1)"
    "tx s1 = tx s" "loaded s1 = loaded s" "durable s1 = durable s"
    using idx_step[OF assms(1,2,3) location_fields(1) address_columns(1) assms(4) l0, of np]
    by blast
  note f1 = loaded_fields[OF 1(4)]
  have c1: "cur s1" "location_data s1 = Some locs" using f1 assms(1,2) by simp_all
  have l1: "length ?a1 = length locs" using l0 by simp
  have x1: "tx s1 ''city'' = Some t1" using assms(5) 1(3) by simp
  obtain u2 s2 tr2 where 2: "table_select ''city'' ''*'' None PyNone s1 = (u2, Inr tr2)"
    "idx_sub np ''city'' tr2 ?a1 u2 = (s2, Inr ?a2)"
    "tx s2 = tx s1" "loaded s2 = loaded s1" "durable s2 = durable s1"
    using idx_step[OF c1 x1 location_fields(2) address_columns(2) assms(6) l1, of np]
    by blast
  note f2 = loaded_fields[OF 2(4)]
  have c2: "cur s2" "location_data s2 = Some locs" using f2 c1 by simp_all
  have l2: "length ?a2 = length locs" using l0 by simp
  have x2: "tx s2 ''state'' = Some t2" using assms(7) 1(3) 2(3) by simp
  obtain u3 s3 tr3 where 3: "table_select ''state'' ''*'' None PyNone s2 = (u3, Inr tr3)"
    "idx_sub np ''state'' tr3 ?a2 u3 = (s3, Inr ?a3)"
    "tx s3 = tx s2" "loaded s3 = loaded s2" "durable s3 = durable s2"
    using idx_step[OF c2 x2 location_fields(3) address_columns(3) assms(8) l2, of np]
    by blast
  note f3 = loaded_fields[OF 3(4)]
  have c3: "cur s3" "location_data s3 = Some locs" using f3 c2 by simp_all
  have l3: "length ?a3 = length locs" using l0 by simp
  have x3: "tx s3 ''latitude'' = Some t3" using assms(9) 1(3) 2(3) 3(3) by simp
  obtain u4 s4 tr4 where 4: "table_select ''latitude'' ''*'' None PyNone s3 = (u4, Inr tr4)"
    "idx_sub np ''latitude'' tr4 ?a3 u4 = (s4, Inr ?a4)"
    "tx s4 = tx s3" "loaded s4 = loaded s3" "durable s4 = durable s3"
    using idx_step[OF c3 x3 location_fields(4) address_columns(4) assms(10) l3, of np]
    by blast
  note f4 = loaded_fields[OF 4(4)]
  have c4: "cur s4" "location_data s4 = Some locs" using f4 c3 by simp_all
  have l4: "length ?a4 = length locs" using l0 by simp
  have x4: "tx s4 ''longitude'' = Some t4" using assms(11) 1(3) 2(3) 3(3) 4(3) by simp
  obtain u5 s5 tr5 where 5: "table_select ''longitude'' ''*'' None PyNone s4 = (u5, Inr tr5)"
    "idx_sub np ''longitude'' tr5 ?a4 u5 = (s5, Inr ?a5)"
    "tx s5 = tx s4" "loaded s5 = loaded s4" "durable s5 = durable s4"
    using idx_step[OF c4 x4 location_fields(5) address_columns(5) assms(12) l4, of np]
    by blast
  have run: "idx_loop np address_fields ?a0 s = (s5, Inr ?a5)"
    unfolding address_fields_def idx_loop_Cons[OF 1(1,2)] idx_loop_Cons[OF 2(1,2)]
      idx_loop_Cons[OF 3(1,2)] idx_loop_Cons[OF 4(1,2)] idx_loop_Cons[OF 5(1,2)]
    by simp
  have "?a5 = address_cells ?f (uninitialised s) (tx s) locs"
  proof (rule nth_equalityI)
    show "length ?a5 = length (address_cells ?f (uninitialised s) (tx s) locs)"
      by (simp add: address_cells_def new_addresses_def)
  next
    fix j assume "j < length ?a5"
    then have j: "j < length locs" by (simp add: new_addresses_def)
    show "?a5 ! j = address_cells ?f (uninitialised s) (tx s) locs ! j"
      using j assms(3,5,7,9,11)
      by (simp add: address_cells_def new_addresses_def address_fields_def split: option.splits)
  qed
  moreover have "tx s5 = tx s" "loaded s5 = loaded s" "durable s5 = durable s"
    using 1 2 3 4 5 by simp_all
  ultimately show ?thesis using run by auto
qed

lemma new_row_length [simp]: "length (new_row t fl ws) = length (columns t)"
  by (simp add: new_row_def)

lemma add_row_rows:
  assumes "add_row f n t fl vs = Inr t'"
  shows "\<exists>ws. cast_row f t fl vs = Inr ws \<and> \<not> violates t (new_row t fl ws) \<and>
              rows t' = rows t @ [new_row t fl ws]"
  using assms by (auto simp: add_row_def split: sum.splits if_splits)

lemma add_rows_row_length:
  assumes "add_rows f n t fl pss = Inr t'" "\<And>r. r \<in> set (rows t) \<Longrightarrow> length r = length (columns t)"
    "r \<in> set (rows t')"
  shows "length r = length (columns t)"
  using assms
proof (induction pss arbitrary: t)
  case Nil
  then show ?case by simp
next
  case (Cons vs pss)
  from Cons.prems(1) obtain t1 where 1: "add_row f n t fl vs = Inr t1"
    and 2: "add_rows f n t1 fl pss = Inr t'"
    by (auto split: sum.splits)
  have c: "columns t1 = columns t" using 1 by (rule add_row_shape)
  from add_row_rows[OF 1] obtain ws where ws: "rows t1 = rows t @ [new_row t fl ws]" by blast
  have "length r = length (columns t1)"
  proof (rule Cons.IH[OF 2 _ Cons.prems(3)])
    fix r' assume "r' \<in> set (rows t1)"
    then show "length r' = length (columns t1)"
      using ws Cons.prems(2) c by auto
  qed
  then show ?case using c by simp
qed

lemma filled_row_length:
  assumes "filled f n sch pss = Inr t" "r \<in> set (rows t)"
  shows "length r = Suc (length sch)"
proof -
  have "length r = length (columns (fresh True sch []))"
    using assms(1)[unfolded filled_def] _ assms(2) by (rule add_rows_row_length) simp
  then show ?thesis by (simp add: columns_def)
qed

lemma address_cells_cong:
  assumes "\<And>n. n \<in> set address_fields \<Longrightarrow> db n = db' n"
  shows "address_cells fstr un db locs = address_cells fstr un db' locs"
  unfolding address_cells_def using assms by (intro map_cong refl) simp

lemma address_cells_length:
  "a \<in> set (address_cells fstr un db locs) \<Longrightarrow> length a = 5"
  by (auto simp: address_cells_def address_fields_def)

lemma psql_address_A_run:
  assumes "cur s" "location_data s = Some locs"
    "tx s ''postal_code'' = Some t0" "\<And>r. r \<in> set (rows t0) \<Longrightarrow> 2 \<le> length r"
    "tx s ''city'' = Some t1" "\<And>r. r \<in> set (rows t1) \<Longrightarrow> 2 \<le> length r"
    "tx s ''state'' = Some t2" "\<And>r. r \<in> set (rows t2) \<Longrightarrow> 2 \<le> length r"
    "tx s ''latitude'' = Some t3" "\<And>r. r \<in> set (rows t3) \<Longrightarrow> 2 \<le> length r"
    "tx s ''longitude'' = Some t4" "\<And>r. r \<in> set (rows t4) \<Longrightarrow> 2 \<le> length r"
    "tx s ''address'' = Some ta" "set address_fields \<subseteq> set (columns ta)"
  shows "snd (psql_address_A np s) =
           (if length locs = 1 then Inl (TypeError ''iteration over a 0-d array'')
            else case add_rows (sql_cast s) ''address'' ta address_fields
                        (map (map PyStr) (address_cells (float_str np) (uninitialised s) (tx s) locs)) of
                   Inl e \<Rightarrow> Inl e
                 | Inr _ \<Rightarrow> Inr PyNone) \<and>
         (\<forall>t'. length locs \<noteq> 1 \<and>
                add_rows (sql_cast s) ''address'' ta address_fields
                  (map (map PyStr) (address_cells (float_str np) (uninitialised s) (tx s) locs)) = Inr t' \<longrightarrow>
                tx (fst (psql_address_A np s)) = (tx s)(''address'' \<mapsto> t'))"
proof -
  let ?s0 = "print (execute_msg ''psql_address'') s"
  let ?cells = "address_cells (float_str np) (uninitialised s) (tx s) locs"
  have c0: "cur ?s0" "location_data ?s0 = Some locs" using assms(1,2) by simp_all
  have "\<exists>s'. idx_loop np address_fields (new_addresses ?s0 (length locs)) ?s0 =
                (s', Inr (address_cells (float_str np) (uninitialised ?s0) (tx ?s0) locs)) \<and>
              tx s' = tx ?s0 \<and> loaded s' = loaded ?s0 \<and> durable s' = durable ?s0"
    using c0 assms(3-12) by (intro idx_loop_run) simp_all
  then obtain s1 where 1: "idx_loop np address_fields (new_addresses ?s0 (length locs)) ?s0 = (s1, Inr ?cells)"
     "tx s1 = tx s" "loaded s1 = loaded ?s0"
    by auto
  note f1 = loaded_fields[OF 1(3)]
  have c1: "cur s1" "sql_cast s1 = sql_cast s" using f1 c0 by simp_all
  have a1: "tx s1 ''address'' = Some ta" using assms(13) 1(2) by simp
  let ?ins = "for_each (\<lambda>a. execute (InsertInto ''address'' address_fields) (map PyStr a)) ?cells s1"
  have 2: "snd ?ins =
           (case add_rows (sql_cast s1) ''address'' ta address_fields (map (map PyStr) ?cells) of
              Inl e \<Rightarrow> Inl e | Inr _ \<Rightarrow> Inr PyNone) \<and>
         (\<forall>t'. add_rows (sql_cast s1) ''address'' ta address_fields (map (map PyStr) ?cells) = Inr t' \<longrightarrow>
            tx (fst ?ins) = (tx s1)(''address'' \<mapsto> t'))"
    using c1(1) a1 assms(14)
    by (intro for_each_insert) (auto dest: address_cells_length simp: address_fields_def)
  obtain s2 r2 where i: "?ins = (s2, r2)" by (cases ?ins)
  show ?thesis
  proof (cases "length locs = 1")
    case True
    then show ?thesis
      using c0(2) 1(1) by (simp add: psql_address_A_def status_def bind_def)
  next
    case False
    have "psql_address_A np s = (print (complete_msg ''psql_address'') s2,
                                 case r2 of Inl e \<Rightarrow> Inl e | Inr _ \<Rightarrow> Inr PyNone)"
      using c0(2) 1(1) i False
      by (cases r2) (simp_all add: psql_address_A_def status_def bind_def table_insert_def)
    then show ?thesis
      using 2 False unfolding i c1(2) 1(2)
      by (cases r2) (auto split: sum.splits)
  qed
qed

lemma lookup_of_lookups_A:
  assumes "lookups_A f locs cs ts = Inr L" "map_of tables_A n = Some sch"
  shows "\<exists>t. map_of L n = Some t \<and> filled f n sch (sent_A locs cs ts n) = Inr t \<and>
             (\<forall>r \<in> set (rows t). 2 \<le> length r)"
proof -
  have m: "(n, sch) \<in> set tables_A" using assms(2) by (rule map_of_SomeD)
  from filled_of_lookups_A[OF assms(1) m] obtain t where t: "filled f n sch (sent_A locs cs ts n) = Inr t"
    by blast
  have "map_of L n = Some t" using map_of_lookups_A[OF assms(1), of n] assms(2) t by simp
  moreover have "\<forall>r \<in> set (rows t). 2 \<le> length r"
  proof
    fix r assume "r \<in> set (rows t)"
    from filled_row_length[OF t this] have "length r = Suc (length sch)" .
    moreover have "sch \<noteq> []" using m by (auto simp: tables_A_def)
    ultimately show "2 \<le> length r" by (cases sch) simp_all
  qed
  ultimately show ?thesis using t by blast
qed

lemma address_phase_A:
  assumes "cur s" "location_data s = Some locs" "lookups_A f locs cs ts = Inr L"
    "tx s = db ++ map_of (L @ composites_A)"
  shows "snd (psql_address_A np s) =
           (if length locs = 1 then Inl (TypeError ''iteration over a 0-d array'')
            else case address_filled (sql_cast s) (float_str np) (uninitialised s) L locs of
                   Inl e \<Rightarrow> Inl e
                 | Inr _ \<Rightarrow> Inr PyNone) \<and>
         (\<forall>ta. length locs \<noteq> 1 \<and>
                address_filled (sql_cast s) (float_str np) (uninitialised s) L locs = Inr ta \<longrightarrow>
                tx (fst (psql_address_A np s)) = db ++ map_of (final_A L ta))"
proof -
  from lookup_of_lookups_A[OF assms(3), of "''postal_code''" "[''value CHAR(5)'']"]
  obtain t0 where t0: "map_of L ''postal_code'' = Some t0" "\<forall>r \<in> set (rows t0). 2 \<le> length r"
    by (auto simp: tables_A_def)
  from lookup_of_lookups_A[OF assms(3), of "''city''" "[''value TEXT'']"]
  obtain t1 where t1: "map_of L ''city'' = Some t1" "\<forall>r \<in> set (rows t1). 2 \<le> length r"
    by (auto simp: tables_A_def)
  from lookup_of_lookups_A[OF assms(3), of "''state''" "[''value CHAR(2)'']"]
  obtain t2 where t2: "map_of L ''state'' = Some t2" "\<forall>r \<in> set (rows t2). 2 \<le> length r"
    by (auto simp: tables_A_def)
  from lookup_of_lookups_A[OF assms(3), of "''latitude''" "[''value DOUBLE PRECISION'']"]
  obtain t3 where t3: "map_of L ''latitude'' = Some t3" "\<forall>r \<in> set (rows t3). 2 \<le> length r"
    by (auto simp: tables_A_def)
  from lookup_of_lookups_A[OF assms(3), of "''longitude''" "[''value DOUBLE PRECISION'']"]
  obtain t4 where t4: "map_of L ''longitude'' = Some t4" "\<forall>r \<in> set (rows t4). 2 \<le> length r"
    by (auto simp: tables_A_def)
  have na: "map_of L ''address'' = None"
    using map_of_lookups_A[OF assms(3), of "''address''"] by (simp add: tables_A_def)
  have x: "tx s ''postal_code'' = Some t0" "tx s ''city'' = Some t1" "tx s ''state'' = Some t2"
    "tx s ''latitude'' = Some t3" "tx s ''longitude'' = Some t4"
    "tx s ''address'' = Some address_created"
    using t0(1) t1(1) t2(1) t3(1) t4(1) na
    by (simp_all add: assms(4) map_add_def composites_A_def)
  have col: "set address_fields \<subseteq> set (columns address_created)"
    by (simp add: address_fields_def address_created_def columns_def fresh_def column_name_def)
  have cc: "address_cells (float_str np) (uninitialised s) (tx s) locs =
            address_cells (float_str np) (uninitialised s) (map_of L) locs"
    using x t0(1) t1(1) t2(1) t3(1) t4(1)
    by (intro address_cells_cong) (auto simp: address_fields_def)
  have run: "snd (psql_address_A np s) =
           (if length locs = 1 then Inl (TypeError ''iteration over a 0-d array'')
            else case add_rows (sql_cast s) ''address'' address_created address_fields
                        (map (map PyStr) (address_cells (float_str np) (uninitialised s) (tx s) locs)) of
                   Inl e \<Rightarrow> Inl e
                 | Inr _ \<Rightarrow> Inr PyNone) \<and>
         (\<forall>t'. length locs \<noteq> 1 \<and>
                add_rows (sql_cast s) ''address'' address_created address_fields
                  (map (map PyStr) (address_cells (float_str np) (uninitialised s) (tx s) locs)) = Inr t' \<longrightarrow>
                tx (fst (psql_address_A np s)) = (tx s)(''address'' \<mapsto> t'))"
    using assms(1,2) x(1) _ x(2) _ x(3) _ x(4) _ x(5) _ x(6) col
    by (rule psql_address_A_run) (use t0(2) t1(2) t2(2) t3(2) t4(2) in auto)
  have fin: "(tx s)(''address'' \<mapsto> ta) = db ++ map_of (final_A L ta)" for ta
    by (rule ext) (simp add: assms(4) final_A_def composites_A_def map_add_def na split: option.splits)
  show ?thesis
    using run unfolding cc address_filled_def[symmetric] fin .
qed

lemma run_A:
  assumes "initiate_db_A np s = (s', Inr v)"
  shows "\<exists>locs cs L ta. holds_locations locs s' \<and> country s' = Some cs \<and> length cs \<noteq> 1 \<and>
           length locs \<noteq> 1 \<and> commits s' = Suc (commits s) \<and>
           lookups_A (sql_cast s) locs cs five_minute_times = Inr L \<and>
           address_filled (sql_cast s) (float_str np) (uninitialised s) L locs = Inr ta \<and>
           committed s' = committed s ++ map_of (final_A L ta)"
proof -
  let ?pre = "[load_countries_A np, load_locations_A np, load_times, get_user, get_password,
               psql_connection]"
  let ?db = "[psql_tables_A, psql_city_A, psql_country_A, psql_latitude_A, psql_longitude_A,
              psql_postal_code_A, psql_state_A, psql_times_A]"
  have split: "initiate_db_A np = block (?pre @ (?db @ [psql_address_A np, commit]))"
    by (simp add: initiate_db_A_def steps_A_def)
  from assms obtain s6 where p: "block ?pre s = (s6, Inr PyNone)"
    and r: "block (?db @ [psql_address_A np, commit]) s6 = (s', Inr v)"
    unfolding split by (rule block_append_InrE)
  from pre_phase_A[OF p] obtain locs cs where f6: "holds_locations locs s6" "country s6 = Some cs"
    "time s6 = Some five_minute_times" "cur s6" "conn s6" "tx s6 = committed s" "durable s6 = durable s"
    "uninitialised s6 = uninitialised s" "sql_cast s6 = sql_cast s" "sql_equal s6 = sql_equal s"
    by blast
  from r obtain s14 where d1: "block ?db s6 = (s14, Inr PyNone)"
    and r2: "block [psql_address_A np, commit] s14 = (s', Inr v)"
    by (rule block_append_InrE)
  from db_phase_A[OF f6(4,1,2,3) d1] obtain L where d: "length cs \<noteq> 1"
    "loaded s14 = loaded s6" "durable s14 = durable s6"
    "lookups_A (sql_cast s6) locs cs five_minute_times = Inr L"
    "tx s14 = tx s6 ++ map_of (L @ composites_A)" by blast
  note f14 = loaded_fields[OF d(2)]
  have h14: "holds_locations locs s14" using f6(1) holds_locations_loaded[OF d(2)] by simp
  have c14: "cur s14" "location_data s14 = Some locs"
    using f14 f6(4) h14 by (simp_all add: holds_locations_def)
  have g14: "sql_cast s14 = sql_cast s" "uninitialised s14 = uninitialised s"
    using f14 f6(8,9) by simp_all
  from r2 obtain s15 v15 where a: "psql_address_A np s14 = (s15, Inr v15)"
    and c: "block [commit] s15 = (s', Inr v)"
    by (rule block_ConsE)
  note ph = address_phase_A[OF c14 d(4) d(5), of np, unfolded g14]
  have n: "length locs \<noteq> 1" using ph a by (auto split: if_splits)
  obtain ta where ta: "address_filled (sql_cast s) (float_str np) (uninitialised s) L locs = Inr ta"
    using ph a n by (cases "address_filled (sql_cast s) (float_str np) (uninitialised s) L locs") simp_all
  have t15: "tx s15 = tx s6 ++ map_of (final_A L ta)" using ph a n ta by simp
  have l15: "loaded s15 = loaded s14" and d15: "durable s15 = durable s14"
    using keepsD[OF keeps_psql_address_A[OF db_blind_loaded], of np s14]
      keepsD[OF keeps_psql_address_A[OF db_blind_durable], of np s14] a by simp_all
  note f15 = loaded_fields[OF l15]
  have s': "s' = s15\<lparr>committed := tx s15, commits := Suc (commits s15)\<rparr>"
    using c commit_run[of s15] f15 f14 f6(5) by simp
  have "holds_locations locs s'" using h14 holds_locations_loaded[OF l15, of locs]
    by (simp add: s' holds_locations_def)
  moreover have "country s' = Some cs" using f15 f14 f6(2) by (simp add: s')
  moreover have "commits s' = Suc (commits s)" using d15 d(3) f6(7) by (simp add: s' durable_def)
  moreover have "committed s' = committed s ++ map_of (final_A L ta)"
    using t15 f6(6) by (simp add: s')
  ultimately show ?thesis using d(1) n d(4)[unfolded f6(9)] ta by blast
qed

lemma run_A_total:
  assumes "csv_zipped s" "fs s ''countries.csv.gz'' = Some (Gz (Raw ct))"
    "fs s ''us_postal_codes.csv.gz'' = Some (Gz (Raw lt))"
    "genfromtxt_countries np (remove_cr ct) = Inr cs"
    "genfromtxt_locations np (remove_cr lt) = Inr locs"
    "stdin s = u # p # rest"
    "(db_name s, Some (if u = [] then ''Tim'' else u), Some p) \<in> set (accepts s)"
    "length cs \<noteq> 1" "length locs \<noteq> 1"
    "lookups_A (sql_cast s) locs cs five_minute_times = Inr L"
    "address_filled (sql_cast s) (float_str np) (uninitialised s) L locs = Inr ta"
  shows "\<exists>s'. initiate_db_A np s = (s', Inr PyNone) \<and> commits s' = Suc (commits s) \<and>
              location_data s' = Some locs \<and> country s' = Some cs \<and>
              committed s' = committed s ++ map_of (final_A L ta)"
proof -
  let ?pre = "[load_countries_A np, load_locations_A np, load_times, get_user, get_password,
               psql_connection]"
  let ?db = "[psql_tables_A, psql_city_A, psql_country_A, psql_latitude_A, psql_longitude_A,
              psql_postal_code_A, psql_state_A, psql_times_A]"
  have split: "initiate_db_A np = block (?pre @ (?db @ [psql_address_A np, commit]))"
    by (simp add: initiate_db_A_def steps_A_def)
  from pre_phase_A_total[OF assms(1-7)] obtain s6 where p: "block ?pre s = (s6, Inr PyNone)"
    and l6: "location_data s6 = Some locs" "country s6 = Some cs" by blast
  from pre_phase_A[OF p] obtain locs' cs' where f6: "holds_locations locs' s6" "country s6 = Some cs'"
    "time s6 = Some five_minute_times" "cur s6" "conn s6" "tx s6 = committed s" "durable s6 = durable s"
    "uninitialised s6 = uninitialised s" "sql_cast s6 = sql_cast s" "sql_equal s6 = sql_equal s"
    by blast
  have e: "locs' = locs" "cs' = cs" using holds_locations_unique[OF f6(1) l6(1)] f6(2) l6(2) by simp_all
  have lk: "lookups_A (sql_cast s6) locs' cs' five_minute_times = Inr L"
    using assms(10) unfolding e f6(9) .
  have n1: "length cs' \<noteq> 1" using assms(8) e by simp
  from db_phase_A_total[OF f6(4,1,2,3) n1 lk] obtain s14 where d: "block ?db s6 = (s14, Inr PyNone)"
    "loaded s14 = loaded s6" "durable s14 = durable s6"
    "tx s14 = tx s6 ++ map_of (L @ composites_A)" by blast
  note f14 = loaded_fields[OF d(2)]
  have c14: "cur s14" "location_data s14 = Some locs" using f14 f6(4) l6(1) by simp_all
  have g14: "sql_cast s14 = sql_cast s" "uninitialised s14 = uninitialised s"
    using f14 f6(8,9) by simp_all
  note ph = address_phase_A[OF c14 lk[unfolded e f6(9)] d(4), of np, unfolded g14]
  define s15 where "s15 = fst (psql_address_A np s14)"
  have a: "psql_address_A np s14 = (s15, Inr PyNone)"
    using ph assms(9,11) unfolding s15_def by (cases "psql_address_A np s14") simp
  have t15: "tx s15 = tx s6 ++ map_of (final_A L ta)" using ph assms(9,11) by (simp add: s15_def)
  have l15: "loaded s15 = loaded s14" and d15: "durable s15 = durable s14"
    using keepsD[OF keeps_psql_address_A[OF db_blind_loaded], of np s14]
      keepsD[OF keeps_psql_address_A[OF db_blind_durable], of np s14] a by simp_all
  note f15 = loaded_fields[OF l15]
  have c: "conn s15" using f15 f14 f6(5) by simp
  have "block [psql_address_A np, commit] s14 =
          (s15\<lparr>committed := tx s15, commits := Suc (commits s15)\<rparr>, Inr PyNone)"
    using a commit_run[OF c] by simp
  then have "initiate_db_A np s = (s15\<lparr>committed := tx s15, commits := Suc (commits s15)\<rparr>, Inr PyNone)"
    unfolding split block_append_run[OF p] block_append_run[OF d(1)] .
  moreover have "commits s15 = commits s" using d15 d(3) f6(7) by (simp add: durable_def)
  moreover have "location_data s15 = Some locs" "country s15 = Some cs" using f15 f14 l6 by simp_all
  ultimately show ?thesis using t15 f6(6) by simp
qed

lemma map_of_zip_map:
  assumes "distinct fl" "length fl = length vs"
  shows "map (\<lambda>c. case map_of (zip fl vs) c of Some v \<Rightarrow> v | None \<Rightarrow> d c) fl = vs"
proof (rule nth_equalityI)
  show "length (map (\<lambda>c. case map_of (zip fl vs) c of Some v \<Rightarrow> v | None \<Rightarrow> d c) fl) = length vs"
    using assms by simp
next
  fix i assume "i < length (map (\<lambda>c. case map_of (zip fl vs) c of Some v \<Rightarrow> v | None \<Rightarrow> d c) fl)"
  then have i: "i < length vs" using assms by simp
  have "map_of (zip fl vs) (fl ! i) = Some (vs ! i)"
    using assms i by (intro map_of_zip_nth) auto
  then show "map (\<lambda>c. case map_of (zip fl vs) c of Some v \<Rightarrow> v | None \<Rightarrow> d c) fl ! i = vs ! i"
    using i assms by simp
qed

lemma new_row_serial:
  assumes "columns t = ''id'' # fl" "''id'' \<notin> set fl" "distinct fl" "length vs = length fl" "serial t"
  shows "new_row t fl vs = PyInt (int (next_id t)) # vs"
proof -
  have idn: "map_of (zip fl vs) ''id'' = None"
    using assms(2,4) by (simp add: map_of_zip_is_None)
  have "map (\<lambda>c. case map_of (zip fl vs) c of Some v \<Rightarrow> v
                  | None \<Rightarrow> if serial t \<and> c = ''id'' then PyInt (int (next_id t)) else PyNone) fl = vs"
    using assms by (intro map_of_zip_map) auto
  then show ?thesis
    using assms(1,5) by (simp add: new_row_def idn)
qed

lemma appended_Nil [simp]: "appended t [] = t"
  by (simp add: appended_def)

lemma appended_Cons:
  "appended t (vs # vss) =
     appended (t\<lparr>next_id := Suc (next_id t), rows := rows t @ [PyInt (int (next_id t)) # vs]\<rparr>) vss"
proof -
  have "[next_id t..<next_id t + length (vs # vss)] = next_id t # [Suc (next_id t)..<Suc (next_id t) + length vss]"
    by (simp add: upt_conv_Cons del: upt_Suc)
  then show ?thesis
    by (simp add: appended_def del: upt_Suc)
qed

lemma columns_update [simp]:
  "columns (t\<lparr>next_id := k, rows := r\<rparr>) = columns t"
  by (simp add: columns_def)

lemma cell_new_row:
  assumes "columns t = ''id'' # fl" "''id'' \<notin> set fl" "distinct fl" "length vs = length fl"
    "i < length fl"
  shows "cell t (k # vs) (fl ! i) = Some (vs ! i)"
proof -
  have "fl ! i \<noteq> ''id''" using assms(2,5) by (metis nth_mem)
  moreover have "map_of (zip fl vs) (fl ! i) = Some (vs ! i)"
    using assms by (intro map_of_zip_nth) auto
  ultimately show ?thesis using assms(1) by (simp add: cell_def)
qed

lemma collect_length: "collect xs = Inr ys \<Longrightarrow> length ys = length xs"
  by (induction xs arbitrary: ys) (auto split: sum.splits)

lemma collect_map_all:
  "(\<And>x. x \<in> set xs \<Longrightarrow> g x = Inr (h x)) \<Longrightarrow> collect (map g xs) = Inr (map h xs)"
  by (induction xs) simp_all

lemma find_distinct:
  "distinct (map g xs) \<Longrightarrow> d \<in> set xs \<Longrightarrow> find (\<lambda>x. g x = g d) xs = Some d"
  by (induction xs) (auto simp: image_iff)

lemma column_decl_name:
  assumes "distinct (map column_name (schema t))" "d \<in> set (schema t)"
  shows "column_decl t (column_name d) = Some d"
  unfolding column_decl_def using assms by (rule find_distinct)

lemma cast_row_schema:
  assumes "distinct (map column_name (schema t))" "length vs = length (schema t)"
  shows "cast_row f t (map column_name (schema t)) vs = stored_row f (schema t) vs"
proof -
  have "map (\<lambda>(c, v). case column_decl t c of Some d \<Rightarrow> f d v | None \<Rightarrow> Inr v)
            (zip (map column_name (schema t)) vs) =
        map (\<lambda>(d, v). f d v) (zip (schema t) vs)"
    using assms(2)
    by (intro nth_equalityI) (simp_all add: column_decl_name[OF assms(1)])
  then show ?thesis by (simp add: cast_row_def stored_row_def)
qed

lemma stored_row_length: "stored_row f sch vs = Inr ws \<Longrightarrow> length ws = min (length sch) (length vs)"
  unfolding stored_row_def by (drule collect_length) simp

lemma lookup_shape_columns: "lookup_shape t \<Longrightarrow> columns t = ''id'' # map column_name (schema t)"
  by (simp add: lookup_shape_def columns_def)

lemma add_row_lookup:
  assumes "lookup_shape t" "length vs = length (schema t)"
  shows "add_row f n t (map column_name (schema t)) vs =
     (case stored_row f (schema t) vs of
        Inl e \<Rightarrow> Inl e
      | Inr ws \<Rightarrow> Inr (t\<lparr>next_id := Suc (next_id t), rows := rows t @ [PyInt (int (next_id t)) # ws]\<rparr>))"
proof (cases "stored_row f (schema t) vs")
  case (Inl e)
  then show ?thesis
    using assms by (simp add: add_row_def cast_row_schema lookup_shape_def)
next
  case (Inr ws)
  have l: "length ws = length (map column_name (schema t))"
    using stored_row_length[OF Inr] assms(2) by simp
  have "new_row t (map column_name (schema t)) ws = PyInt (int (next_id t)) # ws"
    using assms(1) l by (intro new_row_serial) (simp_all add: lookup_shape_def columns_def)
  then show ?thesis
    using assms Inr by (simp add: add_row_def cast_row_schema lookup_shape_def violates_def)
qed

lemma lookup_shape_update [simp]:
  "lookup_shape (t\<lparr>next_id := k, rows := r\<rparr>) = lookup_shape t"
  by (simp add: lookup_shape_def)

lemma add_rows_lookup:
  assumes "lookup_shape t" "\<And>vs. vs \<in> set pss \<Longrightarrow> length vs = length (schema t)"
  shows "add_rows f n t (map column_name (schema t)) pss =
     (case cast_all f (schema t) pss of Inl e \<Rightarrow> Inl e | Inr wss \<Rightarrow> Inr (appended t wss))"
  using assms
proof (induction pss arbitrary: t)
  case Nil
  then show ?case by (simp add: cast_all_def)
next
  case (Cons vs pss)
  have a: "add_row f n t (map column_name (schema t)) vs =
     (case stored_row f (schema t) vs of
        Inl e \<Rightarrow> Inl e
      | Inr ws \<Rightarrow> Inr (t\<lparr>next_id := Suc (next_id t), rows := rows t @ [PyInt (int (next_id t)) # ws]\<rparr>))"
    using Cons.prems by (intro add_row_lookup) auto
  show ?case
  proof (cases "stored_row f (schema t) vs")
    case (Inl e)
    then show ?thesis using a by (simp add: cast_all_def)
  next
    case (Inr ws)
    let ?t1 = "t\<lparr>next_id := Suc (next_id t), rows := rows t @ [PyInt (int (next_id t)) # ws]\<rparr>"
    have ih: "add_rows f n ?t1 (map column_name (schema ?t1)) pss =
       (case cast_all f (schema ?t1) pss of Inl e \<Rightarrow> Inl e | Inr wss \<Rightarrow> Inr (appended ?t1 wss))"
      using Cons.prems by (intro Cons.IH) auto
    show ?thesis
      using a Inr ih by (auto simp: cast_all_def appended_Cons split: sum.splits)
  qed
qed

lemma filled_eq:
  assumes "distinct (map column_name sch)" "''id'' \<notin> set (map column_name sch)"
    "\<And>vs. vs \<in> set pss \<Longrightarrow> length vs = length sch"
  shows "filled f n sch pss =
     (case cast_all f sch pss of Inl e \<Rightarrow> Inl e | Inr wss \<Rightarrow> Inr (lookup_table sch wss))"
proof -
  have "lookup_shape (fresh True sch [])" using assms(1,2) by (simp add: lookup_shape_def)
  from add_rows_lookup[OF this, of pss f n] assms(3)
  show ?thesis by (simp add: filled_def lookup_table_def split: sum.splits)
qed

lemma rows_lookup_table:
  "rows (lookup_table sch wss) = map (\<lambda>(i, ws). PyInt (int i) # ws) (zip [1..<Suc (length wss)] wss)"
  by (simp add: lookup_table_def appended_def fresh_def)

section \<open>The example\<close>

lemma example_unique:
  "np_unique (map loc_city example_locations_A) = [''Beverly Hills'', ''New York'']"
  "np_unique (map loc_state example_locations_A) = [''CA'', ''NY'']"
  "np_unique (map loc_postal_code example_locations_A) = [''10001'', ''90210'']"
  "np_unique (map loc_latitude example_locations_A) = [''34.0901'', ''40.7484'']"
  "np_unique (map loc_longitude example_locations_A) = [''-118.4065'', ''-73.9967'']"
  by (simp_all add: example_locations_A_def np_unique_def less_eq_char_def less_char_def)

lemma example_types [simp]:
  "column_type ''value TEXT'' = ''TEXT''" "column_type ''value CHAR(2)'' = ''CHAR(2)''"
  "column_type ''name TEXT'' = ''TEXT''" "column_type ''value TIME'' = ''TIME''"
  "column_type ''value DOUBLE PRECISION'' = ''DOUBLE PRECISION''"
  "column_type ''value CHAR(5)'' = ''CHAR(5)''"
  "column_type ''city INTEGER'' = ''INTEGER''" "column_type ''state INTEGER'' = ''INTEGER''"
  "column_type ''postal_code INTEGER'' = ''INTEGER''" "column_type ''latitude INTEGER'' = ''INTEGER''"
  "column_type ''longitude INTEGER'' = ''INTEGER''"
  by (simp_all add: column_type_def column_name_def)

lemma example_cast_A:
  "cast_all example_cast [''value TEXT''] [[PyStr ''Beverly Hills''], [PyStr ''New York'']] =
     Inr [[PyStr ''Beverly Hills''], [PyStr ''New York'']]"
  "cast_all example_cast [''value CHAR(2)'', ''name TEXT'']
     [[PyStr ''US'', PyStr ''United States''], [PyStr ''CA'', PyStr ''Canada'']] =
     Inr [[PyStr ''US'', PyStr ''United States''], [PyStr ''CA'', PyStr ''Canada'']]"
  "cast_all example_cast [''value DOUBLE PRECISION''] [[PyStr ''34.0901''], [PyStr ''40.7484'']] =
     Inr [[PyFloat 34.0901], [PyFloat 40.7484]]"
  "cast_all example_cast [''value DOUBLE PRECISION''] [[PyStr ''-118.4065''], [PyStr ''-73.9967'']] =
     Inr [[PyFloat (-118.4065)], [PyFloat (-73.9967)]]"
  "cast_all example_cast [''value CHAR(5)''] [[PyStr ''10001''], [PyStr ''90210'']] =
     Inr [[PyStr ''10001''], [PyStr ''90210'']]"
  "cast_all example_cast [''value CHAR(2)''] [[PyStr ''CA''], [PyStr ''NY'']] =
     Inr [[PyStr ''CA''], [PyStr ''NY'']]"
  by (simp_all add: cast_all_def stored_row_def example_cast_def cast_char_def rstrip_def)

lemma example_cast_times:
  "cast_all example_cast [''value TIME''] (map (\<lambda>x. [PyTime x]) ts) = Inr (map (\<lambda>x. [PyTime x]) ts)"
  unfolding cast_all_def map_map
  by (rule collect_map_all) (simp add: stored_row_def example_cast_def)

lemma filled_lookup:
  assumes "cast_all f sch pss = Inr wss" "distinct (map column_name sch)"
    "''id'' \<notin> set (map column_name sch)" "\<And>vs. vs \<in> set pss \<Longrightarrow> length vs = length sch"
  shows "filled f n sch pss = Inr (lookup_table sch wss)"
  using filled_eq[OF assms(2,3,4), of pss f n] assms(1) by simp

lemma example_filled_A:
  "filled example_cast n [''value TEXT''] [[PyStr ''Beverly Hills''], [PyStr ''New York'']] =
     Inr (lookup_table [''value TEXT''] [[PyStr ''Beverly Hills''], [PyStr ''New York'']])"
  "filled example_cast n [''value CHAR(2)'', ''name TEXT'']
     [[PyStr ''US'', PyStr ''United States''], [PyStr ''CA'', PyStr ''Canada'']] =
     Inr (lookup_table [''value CHAR(2)'', ''name TEXT'']
            [[PyStr ''US'', PyStr ''United States''], [PyStr ''CA'', PyStr ''Canada'']])"
  "filled example_cast n [''value DOUBLE PRECISION''] [[PyStr ''34.0901''], [PyStr ''40.7484'']] =
     Inr (lookup_table [''value DOUBLE PRECISION''] [[PyFloat 34.0901], [PyFloat 40.7484]])"
  "filled example_cast n [''value DOUBLE PRECISION''] [[PyStr ''-118.4065''], [PyStr ''-73.9967'']] =
     Inr (lookup_table [''value DOUBLE PRECISION''] [[PyFloat (-118.4065)], [PyFloat (-73.9967)]])"
  "filled example_cast n [''value CHAR(5)''] [[PyStr ''10001''], [PyStr ''90210'']] =
     Inr (lookup_table [''value CHAR(5)''] [[PyStr ''10001''], [PyStr ''90210'']])"
  "filled example_cast n [''value CHAR(2)''] [[PyStr ''CA''], [PyStr ''NY'']] =
     Inr (lookup_table [''value CHAR(2)''] [[PyStr ''CA''], [PyStr ''NY'']])"
  "filled example_cast n [''value TIME''] (map (\<lambda>x. [PyTime x]) ts) =
     Inr (lookup_table [''value TIME''] (map (\<lambda>x. [PyTime x]) ts))"
  subgoal by (rule filled_lookup[OF example_cast_A(1)]; auto)
  subgoal by (rule filled_lookup[OF example_cast_A(2)]; auto)
  subgoal by (rule filled_lookup[OF example_cast_A(3)]; auto)
  subgoal by (rule filled_lookup[OF example_cast_A(4)]; auto)
  subgoal by (rule filled_lookup[OF example_cast_A(5)]; auto)
  subgoal by (rule filled_lookup[OF example_cast_A(6)]; auto)
  subgoal by (rule filled_lookup[OF example_cast_times]; auto)
  done

lemma example_lookups_A:
  "lookups_A example_cast example_locations_A example_countries_A five_minute_times =
     Inr example_tables_A"
  unfolding lookups_A_def tables_A_def example_tables_A_def
  by (simp add: sent_A_def example_unique example_filled_A example_countries_A_def)

lemma example_cells:
  "address_cells (float_str example_np_A) (\<lambda>i f. []) (map_of example_tables_A) example_locations_A =
     [[''2'', ''1'', ''1'', ''1'', ''1''], [''1'', ''2'', ''2'', ''2'', ''2'']]"
  by (simp add: address_cells_def address_fields_def example_tables_A_def rows_lookup_table
      example_locations_A_def example_np_A_def str_int_def digits.simps upt_rec)

lemma example_address_filled:
  "address_filled example_cast (float_str example_np_A) (\<lambda>i f. []) example_tables_A example_locations_A =
     Inr example_address"
  unfolding address_filled_def example_cells
  by (simp add: add_row_def cast_row_def column_decl_def column_name_def new_row_def columns_def
      violates_def cell_def address_created_def fresh_def address_fields_def example_cast_def
      cast_integer_def parse_int_def digit_value_def example_address_def)

lemma example_run_A:
  "\<exists>s'. initiate_db_A example_np_A example_env = (s', Inr PyNone) \<and>
        commits s' = 1 \<and> location_data s' = Some example_locations_A \<and>
        country s' = Some example_countries_A \<and>
        committed s' = map_of (final_A example_tables_A example_address)"
proof -
  have "\<exists>s'. initiate_db_A example_np_A example_env = (s', Inr PyNone) \<and>
          commits s' = Suc (commits (example_env :: string machine)) \<and>
          location_data s' = Some example_locations_A \<and> country s' = Some example_countries_A \<and>
          committed s' =
          committed (example_env :: string machine) ++
          map_of (final_A example_tables_A example_address)"
  proof (rule run_A_total)
    show "csv_zipped (example_env :: string machine)" by (simp add: example_env_def)
    show "fs (example_env :: string machine) ''countries.csv.gz'' = Some (Gz (Raw (crlf countries_text)))"
      by (simp add: example_env_def example_fs_def)
    show "fs (example_env :: string machine) ''us_postal_codes.csv.gz'' = Some (Gz (Raw (crlf locations_text)))"
      by (simp add: example_env_def example_fs_def)
    show "genfromtxt_countries example_np_A (remove_cr (crlf countries_text)) = Inr example_countries_A"
      by (simp add: example_parsed example_np_A_def)
    show "genfromtxt_locations example_np_A (remove_cr (crlf locations_text)) = Inr example_locations_A"
      by (simp add: example_parsed example_np_A_def)
    show "stdin (example_env :: string machine) = ''Tim'' # ''secret'' # []"
      by (simp add: example_env_def)
    show "(db_name (example_env :: string machine), Some (if ''Tim'' = [] then ''Tim'' else ''Tim''), Some ''secret'')
            \<in> set (accepts (example_env :: string machine))"
      by (simp add: example_env_def)
    show "length example_countries_A \<noteq> 1" by (simp add: example_countries_A_def)
    show "length example_locations_A \<noteq> 1" by (simp add: example_locations_A_def)
    show "lookups_A (sql_cast (example_env :: string machine)) example_locations_A example_countries_A
            five_minute_times = Inr example_tables_A"
      using example_lookups_A by (simp add: example_env_def)
    show "address_filled (sql_cast (example_env :: string machine)) (float_str example_np_A)
            (uninitialised (example_env :: string machine)) example_tables_A example_locations_A =
          Inr example_address"
      using example_address_filled by (simp add: example_env_def)
  qed
  then show ?thesis
    by (simp add: example_env_def)
qed

lemma column_decl_update [simp]:
  "column_decl (t\<lparr>next_id := k, rows := r\<rparr>) c = column_decl t c"
  by (simp add: column_decl_def)

lemma cell_update [simp]:
  "cell (t\<lparr>next_id := k, rows := r\<rparr>) x c = cell t x c"
  by (simp add: cell_def)

lemma matches_update [simp]:
  "matches eq (t\<lparr>next_id := k, rows := r\<rparr>) fl vs = matches eq t fl vs"
  by (simp add: matches_def fun_eq_iff cong: option.case_cong)

lemma matches_lookup_row:
  assumes "lookup_shape t" "length ws = length (schema t)" "length vs = length (schema t)"
  shows "matches eq t (map column_name (schema t)) vs (k # ws) \<longleftrightarrow> row_equal eq (schema t) ws vs"
proof -
  have c: "columns t = ''id'' # map column_name (schema t)"
    using assms(1) by (rule lookup_shape_columns)
  have d: "distinct (map column_name (schema t))" "''id'' \<notin> set (map column_name (schema t))"
    using assms(1) by (simp_all add: lookup_shape_def)
  have ce: "cell t (k # ws) (column_name (schema t ! i)) = Some (ws ! i)" if "i < length (schema t)" for i
    using cell_new_row[OF c d(2,1), of ws i k] assms(2) that by simp
  have cd: "column_decl t (column_name (schema t ! i)) = Some (schema t ! i)" if "i < length (schema t)" for i
    using column_decl_name[OF d(1), of "schema t ! i"] that by simp
  show ?thesis
    unfolding matches_def row_equal_def list_all_length
    using assms(2,3) by (auto simp: ce cd)
qed

lemma add_rows_absent_new:
  assumes "lookup_shape t"
    "\<And>vs. vs \<in> set pss \<Longrightarrow> length vs = length (schema t) \<and> stored_row f (schema t) vs = Inr (g vs)"
    "\<And>vs r. vs \<in> set pss \<Longrightarrow> r \<in> set (rows t) \<Longrightarrow> \<not> matches eq t (map column_name (schema t)) vs r"
    "\<And>vs us. vs \<in> set pss \<Longrightarrow> us \<in> set pss \<Longrightarrow> vs \<noteq> us \<Longrightarrow> \<not> row_equal eq (schema t) (g us) vs"
    "distinct pss"
  shows "add_rows_absent f eq n t (map column_name (schema t)) pss = Inr (appended t (map g pss))"
  using assms
proof (induction pss arbitrary: t)
  case Nil
  then show ?case by simp
next
  case (Cons vs pss)
  let ?fl = "map column_name (schema t)"
  have l: "length vs = length (schema t)" and st: "stored_row f (schema t) vs = Inr (g vs)"
    using Cons.prems(2) by simp_all
  have lg: "length (g vs) = length (schema t)" using stored_row_length[OF st] l by simp
  have nm: "\<not> list_ex (matches eq t ?fl vs) (rows t)"
    using Cons.prems(3) by (auto simp: list_ex_iff)
  let ?t1 = "t\<lparr>next_id := Suc (next_id t), rows := rows t @ [PyInt (int (next_id t)) # g vs]\<rparr>"
  have a: "add_row f n t ?fl vs = Inr ?t1"
    using add_row_lookup[OF Cons.prems(1) l, of f n] st by simp
  have ih: "add_rows_absent f eq n ?t1 (map column_name (schema ?t1)) pss = Inr (appended ?t1 (map g pss))"
  proof (rule Cons.IH)
    show "lookup_shape ?t1" using Cons.prems(1) by simp
    show "length us = length (schema ?t1) \<and> stored_row f (schema ?t1) us = Inr (g us)"
      if "us \<in> set pss" for us using Cons.prems(2) that by simp
    show "\<not> matches eq ?t1 (map column_name (schema ?t1)) us r"
      if u: "us \<in> set pss" and r: "r \<in> set (rows ?t1)" for us r
    proof (cases "r \<in> set (rows t)")
      case True
      then show ?thesis using Cons.prems(3) u by simp
    next
      case False
      then have r': "r = PyInt (int (next_id t)) # g vs" using r by simp
      have "us \<noteq> vs" using u Cons.prems(5) by auto
      then have "\<not> row_equal eq (schema t) (g vs) us" using Cons.prems(4) u by simp
      moreover have "length us = length (schema t)" using Cons.prems(2) u by simp
      ultimately show ?thesis
        using matches_lookup_row[OF Cons.prems(1) lg, of us eq] by (simp add: r')
    qed
    show "\<not> row_equal eq (schema ?t1) (g us) ws"
      if "ws \<in> set pss" "us \<in> set pss" "ws \<noteq> us" for ws us
      using Cons.prems(4) that by simp
    show "distinct pss" using Cons.prems(5) by simp
  qed
  show ?case using nm a ih by (simp add: appended_Cons)
qed

lemma filled_absent_new:
  assumes "distinct (map column_name sch)" "''id'' \<notin> set (map column_name sch)"
    "\<And>vs. vs \<in> set pss \<Longrightarrow> length vs = length sch \<and> stored_row f sch vs = Inr (g vs)"
    "\<And>vs us. vs \<in> set pss \<Longrightarrow> us \<in> set pss \<Longrightarrow> vs \<noteq> us \<Longrightarrow> \<not> row_equal eq sch (g us) vs"
    "distinct pss"
  shows "filled_absent f eq n sch pss = Inr (lookup_table sch (map g pss))"
proof -
  have "lookup_shape (fresh True sch [])" using assms(1,2) by (simp add: lookup_shape_def)
  from add_rows_absent_new[OF this, of pss f g eq n] assms(3,4,5)
  show ?thesis by (simp add: filled_absent_def lookup_table_def)
qed



lemma example_unique_B:
  "np_unique (map loc_city example_locations_B) = [''Beverly Hills'', ''New York'']"
  "np_unique (map loc_state example_locations_B) = [''CA'', ''NY'']"
  "np_unique (map loc_postal_code example_locations_B) = [''10001'', ''90210'']"
  "np_unique (map loc_latitude example_locations_B) = [34.0901, 40.7484]"
  "np_unique (map loc_longitude example_locations_B) = [-118.4065, -73.9967]"
  by (simp_all add: example_locations_B_def np_unique_def less_eq_char_def less_char_def)

lemma example_types_B [simp]:
  "column_type ''city_name TEXT'' = ''TEXT''" "column_type ''country_abbr CHAR(2)'' = ''CHAR(2)''"
  "column_type ''country_name TEXT'' = ''TEXT''" "column_type ''time_value TIME'' = ''TIME''"
  "column_type ''latitude_value REAL'' = ''REAL''" "column_type ''longitude_value REAL'' = ''REAL''"
  "column_type ''postal_code_value CHAR(5)'' = ''CHAR(5)''"
  "column_type ''state_name CHAR(2)'' = ''CHAR(2)''"
  by (simp_all add: column_type_def column_name_def)

lemmas engine_defs = filled_absent_def add_row_def cast_row_def column_decl_def new_row_def columns_def
  violates_def cell_def fresh_def matches_def lookup_table_def appended_def
  example_cast_def example_equal_def cast_char_def rstrip_def

lemma example_filled_B:
  "filled_absent example_cast example_equal n [''city_name TEXT'']
     [[PyStr ''Beverly Hills''], [PyStr ''New York'']] =
     Inr (lookup_table [''city_name TEXT''] [[PyStr ''Beverly Hills''], [PyStr ''New York'']])"
  "filled_absent example_cast example_equal n [''country_abbr CHAR(2)'', ''country_name TEXT'']
     [[PyStr ''US'', PyStr '' United States''], [PyStr ''CA'', PyStr '' Canada'']] =
     Inr (lookup_table [''country_abbr CHAR(2)'', ''country_name TEXT'']
            [[PyStr ''US'', PyStr '' United States''], [PyStr ''CA'', PyStr '' Canada'']])"
  "filled_absent example_cast example_equal n [''latitude_value REAL''] [[PyFloat 34.0901], [PyFloat 40.7484]] =
     Inr (lookup_table [''latitude_value REAL''] [[PyFloat (8936515 / 262144)], [PyFloat (10681949 / 262144)]])"
  "filled_absent example_cast example_equal n [''longitude_value REAL''] [[PyFloat (-118.4065)], [PyFloat (-73.9967)]] =
     Inr (lookup_table [''longitude_value REAL''] [[PyFloat (- 15519777 / 131072)], [PyFloat (- 9698895 / 131072)]])"
  "filled_absent example_cast example_equal n [''postal_code_value CHAR(5)''] [[PyStr ''10001''], [PyStr ''90210'']] =
     Inr (lookup_table [''postal_code_value CHAR(5)''] [[PyStr ''10001''], [PyStr ''90210'']])"
  "filled_absent example_cast example_equal n [''state_name CHAR(2)''] [[PyStr ''CA''], [PyStr ''NY'']] =
     Inr (lookup_table [''state_name CHAR(2)''] [[PyStr ''CA''], [PyStr ''NY'']])"
  by (simp_all add: engine_defs upt_rec)

lemma example_filled_times_B:
  "filled_absent example_cast example_equal n [''time_value TIME'']
     (map (\<lambda>x. [PyTime x]) five_minute_times) =
   Inr (lookup_table [''time_value TIME''] (map (\<lambda>x. [PyTime x]) five_minute_times))"
proof -
  have "filled_absent example_cast example_equal n [''time_value TIME'']
          (map (\<lambda>x. [PyTime x]) five_minute_times) =
        Inr (lookup_table [''time_value TIME''] (map (\<lambda>vs. vs) (map (\<lambda>x. [PyTime x]) five_minute_times)))"
  proof (rule filled_absent_new)
    show "distinct (map (\<lambda>x. [PyTime x]) five_minute_times)"
      using five_distinct by (simp add: distinct_map inj_on_def)
  qed (auto simp: stored_row_def example_cast_def row_equal_def example_equal_def)
  then show ?thesis by simp
qed

lemma example_sent_B:
  "sent_B example_locations_B example_countries_B five_minute_times ''city'' =
     [[PyStr ''Beverly Hills''], [PyStr ''New York'']]"
  "sent_B example_locations_B example_countries_B five_minute_times ''country'' =
     [[PyStr ''US'', PyStr '' United States''], [PyStr ''CA'', PyStr '' Canada'']]"
  "sent_B example_locations_B example_countries_B five_minute_times ''dates'' = []"
  "sent_B example_locations_B example_countries_B five_minute_times ''events'' = []"
  "sent_B example_locations_B example_countries_B five_minute_times ''latitude'' =
     [[PyFloat 34.0901], [PyFloat 40.7484]]"
  "sent_B example_locations_B example_countries_B five_minute_times ''longitude'' =
     [[PyFloat (-118.4065)], [PyFloat (-73.9967)]]"
  "sent_B example_locations_B example_countries_B five_minute_times ''postal_code'' =
     [[PyStr ''10001''], [PyStr ''90210'']]"
  "sent_B example_locations_B example_countries_B five_minute_times ''state'' =
     [[PyStr ''CA''], [PyStr ''NY'']]"
  "sent_B example_locations_B example_countries_B five_minute_times ''times'' =
     map (\<lambda>x. [PyTime x]) five_minute_times"
  "sent_B example_locations_B example_countries_B five_minute_times ''url'' = []"
  by (simp_all add: sent_B_def example_unique_B example_countries_B_def)

lemma example_lookups_B:
  "lookups_B example_cast example_equal example_locations_B example_countries_B five_minute_times =
     Inr example_tables_B"
  unfolding lookups_B_def tables_B_def example_tables_B_def list.map prod.case example_sent_B
    example_filled_B example_filled_times_B empty_filled_absent
  by simp

lemma example_run_B:
  "\<exists>s'. initiate_db_B example_np_B example_env = (s', Inr PyNone) \<and>
        commits s' = 1 \<and> location_data s' = Some example_locations_B \<and>
        country s' = Some example_countries_B \<and>
        committed s' = map_of (example_tables_B @ composites_B)"
proof -
  have "\<exists>s'. initiate_db_B example_np_B example_env = (s', Inr PyNone) \<and>
          commits s' = Suc (commits (example_env :: real machine)) \<and>
          location_data s' = Some example_locations_B \<and> country s' = Some example_countries_B \<and>
          committed s' =
          committed (example_env :: real machine) ++ map_of (example_tables_B @ composites_B)"
  proof (rule run_B_total)
    show "csv_zipped (example_env :: real machine)" by (simp add: example_env_def)
    show "fs (example_env :: real machine) ''countries.csv.gz'' = Some (Gz (Raw (crlf countries_text)))"
      by (simp add: example_env_def example_fs_def)
    show "fs (example_env :: real machine) ''us_postal_codes.csv.gz'' = Some (Gz (Raw (crlf locations_text)))"
      by (simp add: example_env_def example_fs_def)
    show "genfromtxt_countries example_np_B (remove_cr (crlf countries_text)) = Inr example_countries_B"
      by (simp add: example_parsed example_np_B_def)
    show "genfromtxt_locations example_np_B (remove_cr (crlf locations_text)) = Inr example_locations_B"
      by (simp add: example_parsed example_np_B_def)
    show "stdin (example_env :: real machine) = ''Tim'' # ''secret'' # []"
      by (simp add: example_env_def)
    show "(db_name (example_env :: real machine), Some (if ''Tim'' = [] then ''Tim'' else ''Tim''), Some ''secret'')
            \<in> set (accepts (example_env :: real machine))"
      by (simp add: example_env_def)
    show "length example_countries_B \<noteq> 1" by (simp add: example_countries_B_def)
    show "lookups_B (sql_cast (example_env :: real machine)) (sql_equal (example_env :: real machine))
            example_locations_B example_countries_B five_minute_times = Inr example_tables_B"
      using example_lookups_B by (simp add: example_env_def)
  qed
  then show ?thesis
    by (simp add: example_env_def)
qed

section \<open>The tables after a run\<close>

lemma map_option_map_add:
  "map_option f (n k) = Some v \<Longrightarrow> map_option f ((m ++ n) k) = Some v"
  by (cases "n k") (simp_all add: map_add_find_right)

lemma empty_tables_A:
  assumes "lookups_A f locs cs ts = Inr L"
  shows "map_option rows (map_of (final_A L ta) ''event'') = Some []"
    "map_option rows (map_of (final_A L ta) ''event_date'') = Some []"
    "map_option rows (map_of (final_A L ta) ''url'') = Some []"
    "map_option rows (map_of (final_A L ta) ''events'') = Some []"
  by (simp_all add: final_A_def map_of_lookups_A[OF assms] tables_A_def sent_A_def fresh_def
      events_created_def map_add_def)

lemma empty_tables_B:
  assumes "lookups_B f eq locs cs ts = Inr L"
  shows "map_option rows (map_of (L @ composites_B) ''dates'') = Some []"
    "map_option rows (map_of (L @ composites_B) ''events'') = Some []"
    "map_option rows (map_of (L @ composites_B) ''url'') = Some []"
    "map_option rows (map_of (L @ composites_B) ''event'') = Some []"
  by (simp_all add: composites_B_def map_of_lookups_B[OF assms] tables_B_def sent_B_def fresh_def
      map_add_def)

text \<open>
  C6, as the code has it. When a run of \<^verbatim>\<open>initiate_db\<close> returns, every table that
  \<^verbatim>\<open>psql_tables\<close> creates is in the committed database as this run created and filled
  it, whatever was there before. The tables the script has a populate step for hold
  what the server stored for the loaded values: \<open>lookups_A\<close> and \<open>lookups_B\<close> are the ten
  lookup tables, each filled from empty with the values of its step, and in variant A
  \<open>address_filled\<close> is the address table with one insert for each location record. The
  others have no populate step and are committed with no rows: event, event_date, url
  and events in variant A; dates, events, url and event in variant B.
\<close>

theorem successful_run_tables:
  "(initiate_db_A np s = (s', Inr v) \<longrightarrow>
      (\<exists>locs cs L ta. location_data s' = Some locs \<and> country s' = Some cs \<and>
         lookups_A (sql_cast s) locs cs five_minute_times = Inr L \<and>
         address_filled (sql_cast s) (float_str np) (uninitialised s) L locs = Inr ta \<and>
         committed s' = committed s ++ map_of (final_A L ta)) \<and>
      map_option rows (committed s' ''event'') = Some [] \<and>
      map_option rows (committed s' ''event_date'') = Some [] \<and>
      map_option rows (committed s' ''url'') = Some [] \<and>
      map_option rows (committed s' ''events'') = Some []) \<and>
   (initiate_db_B np' t = (t', Inr v') \<longrightarrow>
      (\<exists>locs cs L. location_data t' = Some locs \<and> country t' = Some cs \<and>
         lookups_B (sql_cast t) (sql_equal t) locs cs five_minute_times = Inr L \<and>
         committed t' = committed t ++ map_of (L @ composites_B)) \<and>
      map_option rows (committed t' ''dates'') = Some [] \<and>
      map_option rows (committed t' ''events'') = Some [] \<and>
      map_option rows (committed t' ''url'') = Some [] \<and>
      map_option rows (committed t' ''event'') = Some [])"
proof (intro conjI impI)
  assume r: "initiate_db_A np s = (s', Inr v)"
  from run_A[OF r] obtain locs cs L ta where
    h: "holds_locations locs s'" "country s' = Some cs"
       "lookups_A (sql_cast s) locs cs five_minute_times = Inr L"
       "address_filled (sql_cast s) (float_str np) (uninitialised s) L locs = Inr ta"
       "committed s' = committed s ++ map_of (final_A L ta)"
    by blast
  show "\<exists>locs cs L ta. location_data s' = Some locs \<and> country s' = Some cs \<and>
         lookups_A (sql_cast s) locs cs five_minute_times = Inr L \<and>
         address_filled (sql_cast s) (float_str np) (uninitialised s) L locs = Inr ta \<and>
         committed s' = committed s ++ map_of (final_A L ta)"
    using h by (auto simp: holds_locations_def)
  show "map_option rows (committed s' ''event'') = Some []"
    unfolding h(5) by (rule map_option_map_add) (rule empty_tables_A[OF h(3)])
  show "map_option rows (committed s' ''event_date'') = Some []"
    unfolding h(5) by (rule map_option_map_add) (rule empty_tables_A[OF h(3)])
  show "map_option rows (committed s' ''url'') = Some []"
    unfolding h(5) by (rule map_option_map_add) (rule empty_tables_A[OF h(3)])
  show "map_option rows (committed s' ''events'') = Some []"
    unfolding h(5) by (rule map_option_map_add) (rule empty_tables_A[OF h(3)])
next
  assume r: "initiate_db_B np' t = (t', Inr v')"
  from run_B[OF r] obtain locs cs L where
    h: "holds_locations locs t'" "country t' = Some cs"
       "lookups_B (sql_cast t) (sql_equal t) locs cs five_minute_times = Inr L"
       "committed t' = committed t ++ map_of (L @ composites_B)"
    by blast
  show "\<exists>locs cs L. location_data t' = Some locs \<and> country t' = Some cs \<and>
         lookups_B (sql_cast t) (sql_equal t) locs cs five_minute_times = Inr L \<and>
         committed t' = committed t ++ map_of (L @ composites_B)"
    using h by (auto simp: holds_locations_def)
  show "map_option rows (committed t' ''dates'') = Some []"
    unfolding h(4) by (rule map_option_map_add) (rule empty_tables_B[OF h(3)])
  show "map_option rows (committed t' ''events'') = Some []"
    unfolding h(4) by (rule map_option_map_add) (rule empty_tables_B[OF h(3)])
  show "map_option rows (committed t' ''url'') = Some []"
    unfolding h(4) by (rule map_option_map_add) (rule empty_tables_B[OF h(3)])
  show "map_option rows (committed t' ''event'') = Some []"
    unfolding h(4) by (rule map_option_map_add) (rule empty_tables_B[OF h(3)])
qed

theorem successful_run_tables_witness:
  "snd (initiate_db_A example_np_A example_env) = Inr PyNone \<and>
   map_option rows (committed (fst (initiate_db_A example_np_A example_env)) ''event_date'') = Some [] \<and>
   snd (initiate_db_B example_np_B example_env) = Inr PyNone \<and>
   map_option rows (committed (fst (initiate_db_B example_np_B example_env)) ''dates'') = Some []"
proof -
  obtain s' where a: "initiate_db_A example_np_A example_env = (s', Inr PyNone)"
    using example_run_A by blast
  obtain t' where b: "initiate_db_B example_np_B example_env = (t', Inr PyNone)"
    using example_run_B by blast
  show ?thesis
    using successful_run_tables[of example_np_A example_env s' PyNone example_np_B example_env t' PyNone]
    by (simp add: a b)
qed

text \<open>Against C6 as it is stated: the example run of either variant, on two countries
  and two location records, reaches its commit, and the url table of variant A and the
  composite table of variant B are committed without a row.\<close>

theorem tables_left_empty_counterexample:
  "snd (initiate_db_A example_np_A example_env) = Inr PyNone \<and>
   map_option rows (committed (fst (initiate_db_A example_np_A example_env)) ''url'') = Some [] \<and>
   snd (initiate_db_B example_np_B example_env) = Inr PyNone \<and>
   map_option rows (committed (fst (initiate_db_B example_np_B example_env)) ''event'') = Some []"
proof -
  obtain s' where a: "initiate_db_A example_np_A example_env = (s', Inr PyNone)"
    and a': "committed s' = map_of (final_A example_tables_A example_address)"
    using example_run_A by blast
  obtain t' where b: "initiate_db_B example_np_B example_env = (t', Inr PyNone)"
    and b': "committed t' = map_of (example_tables_B @ composites_B)"
    using example_run_B by blast
  show ?thesis
    unfolding a b
    by (simp add: a' b' final_A_def example_tables_A_def example_tables_B_def composites_B_def
        fresh_def)
qed

section \<open>The conditional insert\<close>





section \<open>The rows of the address table\<close>


















end
